(* ===== verification/Prelude.thy ===== *)
theory Prelude
  imports Main "HOL-Library.Word" "HOL-Library.Signed_Division"
begin

text \<open>
  Shared vocabulary of the development: the machine types of the Rust code, saturating and
  wrapping integer arithmetic, UTF-8 byte strings with the operations of \<open>str\<close> that the code
  uses, results and panics, and the association lists that stand for hash maps.

  A Rust string is the list of its UTF-8 bytes (a HOL \<open>char\<close> is one byte), so \<open>length\<close> is
  Rust's \<open>len()\<close>. An \<open>i64\<close> is an \<open>int\<close> with the saturation or the wrap-around written
  out at every operation; \<open>u8\<close>, \<open>u16\<close> and \<open>u32\<close> are words; \<open>usize\<close> and \<open>u64\<close>
  counts are \<open>nat\<close>, with the bound written out where the code can reach it.
\<close>

named_theorems keplor_defs \<open>definitions the component proofs unfold\<close>
named_theorems range_intros \<open>facts that a value fits its machine type\<close>

section \<open>Machine integers\<close>

type_synonym str = string
type_synonym i64 = int
type_synonym usize = nat
type_synonym u64 = nat
type_synonym u32 = "32 word"
type_synonym u16 = "16 word"
type_synonym u8 = "8 word"

definition i64_min :: int where
  "i64_min = - (2 ^ 63)"

definition i64_max :: int where
  "i64_max = 2 ^ 63 - 1"

definition is_i64 :: "int \<Rightarrow> bool" where
  "is_i64 x \<longleftrightarrow> i64_min \<le> x \<and> x \<le> i64_max"

definition sat_i64 :: "int \<Rightarrow> int" where
  "sat_i64 x = max i64_min (min i64_max x)"

definition wrap_i64 :: "int \<Rightarrow> int" where
  "wrap_i64 x = (x + 2 ^ 63) mod 2 ^ 64 - 2 ^ 63"

definition u64_max :: int where
  "u64_max = 2 ^ 64 - 1"

definition sat_u64 :: "int \<Rightarrow> int" where
  "sat_u64 x = max 0 (min u64_max x)"

definition u32_saturating_add :: "u32 \<Rightarrow> u32 \<Rightarrow> u32" where
  "u32_saturating_add a b = (if 2 ^ 32 \<le> unat a + unat b then 4294967295 else a + b)"

definition u32_saturating_sub :: "u32 \<Rightarrow> u32 \<Rightarrow> u32" where
  "u32_saturating_sub a b = (if a < b then 0 else a - b)"

lemma unat_u32_less: "unat (w :: u32) < 4294967296"
  using unsigned_less [of w, where ?'a = nat] by simp

lemma unat_u32_saturating_add:
  "unat (u32_saturating_add a b) = min (unat a + unat b) (2 ^ 32 - 1)"
proof (cases "2 ^ 32 \<le> unat a + unat b")
  case True
  then show ?thesis
    by (simp add: u32_saturating_add_def)
next
  case False
  then show ?thesis
    by (simp add: u32_saturating_add_def unat_word_ariths)
qed

lemma unat_u32_saturating_sub: "unat (u32_saturating_sub a b) = unat a - unat b"
  by (auto simp: u32_saturating_sub_def unat_sub word_le_nat_alt word_less_nat_alt)

lemma i64_bounds_num:
  "i64_min = - 9223372036854775808" "i64_max = 9223372036854775807"
  by (simp_all add: i64_min_def i64_max_def)

lemma wrap_i64_id: "is_i64 x \<Longrightarrow> wrap_i64 x = x"
  by (simp add: wrap_i64_def is_i64_def i64_bounds_num)

lemma is_i64_wrap [range_intros]: "is_i64 (wrap_i64 x)"
proof -
  have "0 \<le> (x + 2 ^ 63) mod 2 ^ 64" and "(x + 2 ^ 63) mod 2 ^ 64 < (2 ^ 64 :: int)"
    by simp_all
  then show ?thesis
    by (simp add: wrap_i64_def is_i64_def i64_bounds_num)
qed

text \<open>
  Saturating arithmetic, once for every width: the clamp keeps values in range, is monotone,
  changes nothing inside the range, and folding a saturating sum over non-negative terms is
  the exact sum clamped once.
\<close>

locale saturating =
  fixes sat :: "int \<Rightarrow> int" and lo hi :: int
  assumes sat_clamp: "sat x = max lo (min hi x)"
    and lo_nonpos: "lo \<le> 0"
    and hi_nonneg: "0 \<le> hi"
begin

lemma sat_ge_lo: "lo \<le> sat x"
  by (simp add: sat_clamp)

lemma sat_le_hi: "sat x \<le> hi"
  using lo_nonpos hi_nonneg by (simp add: sat_clamp)

lemma sat_id: "lo \<le> x \<Longrightarrow> x \<le> hi \<Longrightarrow> sat x = x"
  by (simp add: sat_clamp)

lemma sat_mono: "x \<le> y \<Longrightarrow> sat x \<le> sat y"
  by (simp add: sat_clamp)

lemma sat_idem: "sat (sat x) = sat x"
  by (rule sat_id [OF sat_ge_lo sat_le_hi])

lemma sat_zero: "sat 0 = 0"
  using lo_nonpos hi_nonneg by (simp add: sat_clamp)

lemma sat_nonneg: "0 \<le> x \<Longrightarrow> 0 \<le> sat x"
  using sat_mono [of 0 x] by (simp add: sat_zero)

lemma sat_le_self: "0 \<le> x \<Longrightarrow> sat x \<le> x"
  using lo_nonpos by (simp add: sat_clamp)

lemma sat_add_left: "0 \<le> x \<Longrightarrow> 0 \<le> y \<Longrightarrow> sat (sat x + y) = sat (x + y)"
  using lo_nonpos by (auto simp: sat_clamp)

lemma sat_add_right: "0 \<le> x \<Longrightarrow> 0 \<le> y \<Longrightarrow> sat (x + sat y) = sat (x + y)"
  using lo_nonpos by (auto simp: sat_clamp)

lemma fold_sat_nonneg:
  assumes "\<And>x. x \<in> set xs \<Longrightarrow> 0 \<le> x" and "0 \<le> a"
  shows "foldl (\<lambda>acc x. sat (acc + x)) (sat a) xs = sat (a + sum_list xs)"
  using assms
proof (induction xs arbitrary: a)
  case Nil
  then show ?case by simp
next
  case (Cons x xs)
  have "sat (sat a + x) = sat (a + x)"
    using Cons.prems by (simp add: sat_add_left)
  moreover have "foldl (\<lambda>acc x. sat (acc + x)) (sat (a + x)) xs = sat ((a + x) + sum_list xs)"
    using Cons.prems by (intro Cons.IH) auto
  ultimately show ?case by (simp add: add.assoc)
qed

lemma fold_sat_zero:
  "(\<And>x. x \<in> set xs \<Longrightarrow> 0 \<le> x) \<Longrightarrow> foldl (\<lambda>acc x. sat (acc + x)) 0 xs = sat (sum_list xs)"
  using fold_sat_nonneg [of xs 0] by (simp add: sat_zero)

lemma fold_sat_bounds:
  "lo \<le> a \<Longrightarrow> a \<le> hi \<Longrightarrow>
     lo \<le> foldl (\<lambda>acc x. sat (acc + x)) a xs \<and> foldl (\<lambda>acc x. sat (acc + x)) a xs \<le> hi"
  by (induction xs arbitrary: a) (simp_all add: sat_ge_lo sat_le_hi)

end

interpretation i64: saturating sat_i64 i64_min i64_max
  by unfold_locales (simp_all add: sat_i64_def i64_bounds_num)

interpretation u64: saturating sat_u64 0 u64_max
  by unfold_locales (simp_all add: sat_u64_def u64_max_def)

lemma is_i64_sat [range_intros]: "is_i64 (sat_i64 x)"
  by (simp add: is_i64_def i64.sat_ge_lo i64.sat_le_hi)

lemma sat_i64_id: "is_i64 x \<Longrightarrow> sat_i64 x = x"
  by (simp add: is_i64_def i64.sat_id)

lemma is_i64_zero [range_intros]: "is_i64 0"
  by (simp add: is_i64_def i64_bounds_num)

section \<open>Results\<close>

text \<open>
  \<open>Result<T, E>\<close> is the sum \<open>'e + 'a\<close> with \<open>Inl\<close> the error. Code that may panic returns
  a \<open>run\<close>: \<open>Panic\<close> (the release profile aborts the process) or the returned value.
\<close>

datatype 'a run = Panic | Ret 'a

definition run_bind :: "'a run \<Rightarrow> ('a \<Rightarrow> 'b run) \<Rightarrow> 'b run" where
  "run_bind r f = (case r of Panic \<Rightarrow> Panic | Ret x \<Rightarrow> f x)"

lemma run_bind_simps [simp]:
  "run_bind Panic f = Panic" "run_bind (Ret x) f = f x"
  by (simp_all add: run_bind_def)

definition res_bind :: "'e + 'a \<Rightarrow> ('a \<Rightarrow> 'e + 'b) \<Rightarrow> 'e + 'b" where
  "res_bind r f = (case r of Inl e \<Rightarrow> Inl e | Inr x \<Rightarrow> f x)"

lemma res_bind_simps [simp]:
  "res_bind (Inl e) f = Inl e" "res_bind (Inr x) f = f x"
  by (simp_all add: res_bind_def)

lemma res_bind_Inr_iff: "res_bind r f = Inr y \<longleftrightarrow> (\<exists>x. r = Inr x \<and> f x = Inr y)"
  by (cases r) simp_all

section \<open>Byte strings\<close>

definition is_ascii_digit :: "char \<Rightarrow> bool" where
  "is_ascii_digit c \<longleftrightarrow> 48 \<le> (of_char c :: nat) \<and> (of_char c :: nat) \<le> 57"

definition is_ascii_uppercase :: "char \<Rightarrow> bool" where
  "is_ascii_uppercase c \<longleftrightarrow> 65 \<le> (of_char c :: nat) \<and> (of_char c :: nat) \<le> 90"

definition to_ascii_lower_char :: "char \<Rightarrow> char" where
  "to_ascii_lower_char c = (if is_ascii_uppercase c then char_of ((of_char c :: nat) + 32) else c)"

definition to_ascii_lowercase :: "str \<Rightarrow> str" where
  "to_ascii_lowercase s = map to_ascii_lower_char s"

definition eq_ignore_ascii_case :: "str \<Rightarrow> str \<Rightarrow> bool" where
  "eq_ignore_ascii_case a b \<longleftrightarrow> to_ascii_lowercase a = to_ascii_lowercase b"

definition starts_with :: "str \<Rightarrow> str \<Rightarrow> bool" where
  "starts_with s p \<longleftrightarrow> take (length p) s = p"

definition ends_with :: "str \<Rightarrow> str \<Rightarrow> bool" where
  "ends_with s p \<longleftrightarrow> drop (length s - length p) s = p"

definition strip_prefix :: "str \<Rightarrow> str \<Rightarrow> str option" where
  "strip_prefix s p = (if starts_with s p then Some (drop (length p) s) else None)"

fun str_contains :: "str \<Rightarrow> str \<Rightarrow> bool" where
  "str_contains [] p = (p = [])"
| "str_contains (c # s) p = (starts_with (c # s) p \<or> str_contains s p)"

fun split_once :: "str \<Rightarrow> char \<Rightarrow> (str \<times> str) option" where
  "split_once [] d = None"
| "split_once (c # s) d =
     (if c = d then Some ([], s)
      else map_option (\<lambda>(a, b). (c # a, b)) (split_once s d))"

text \<open>
  Slicing a \<open>str\<close> at a byte index that is not on a character boundary panics; a UTF-8
  continuation byte has the form \<open>10xxxxxx\<close>.
\<close>

definition is_continuation :: "char \<Rightarrow> bool" where
  "is_continuation c \<longleftrightarrow> 128 \<le> (of_char c :: nat) \<and> (of_char c :: nat) < 192"

definition is_char_boundary :: "str \<Rightarrow> nat \<Rightarrow> bool" where
  "is_char_boundary s i \<longleftrightarrow> i = 0 \<or> i = length s \<or> (i < length s \<and> \<not> is_continuation (s ! i))"

definition str_slice :: "str \<Rightarrow> nat \<Rightarrow> nat \<Rightarrow> str run" where
  "str_slice s a b =
     (if a \<le> b \<and> b \<le> length s \<and> is_char_boundary s a \<and> is_char_boundary s b
      then Ret (take (b - a) (drop a s)) else Panic)"

definition is_ascii :: "str \<Rightarrow> bool" where
  "is_ascii s \<longleftrightarrow> (\<forall>c \<in> set s. (of_char c :: nat) < 128)"

lemma is_char_boundary_ascii: "is_ascii s \<Longrightarrow> i \<le> length s \<Longrightarrow> is_char_boundary s i"
proof (cases "i = length s")
  case False
  assume "is_ascii s" "i \<le> length s"
  with False have "s ! i \<in> set s" and "(of_char (s ! i) :: nat) < 128" and "i < length s"
    by (simp_all add: is_ascii_def)
  then show ?thesis
    by (simp add: is_char_boundary_def is_continuation_def)
qed (simp add: is_char_boundary_def)

lemma str_slice_ascii:
  "is_ascii s \<Longrightarrow> a \<le> b \<Longrightarrow> b \<le> length s \<Longrightarrow> str_slice s a b = Ret (take (b - a) (drop a s))"
  by (simp add: str_slice_def is_char_boundary_ascii)

lemma of_char_lower:
  "(of_char (to_ascii_lower_char c) :: nat) =
     (if is_ascii_uppercase c then of_char c + 32 else of_char c)"
  by (auto simp: to_ascii_lower_char_def is_ascii_uppercase_def)

lemma not_upper_lower: "\<not> is_ascii_uppercase (to_ascii_lower_char c)"
  by (simp add: is_ascii_uppercase_def of_char_lower)

lemma to_ascii_lower_char_idem [simp]:
  "to_ascii_lower_char (to_ascii_lower_char c) = to_ascii_lower_char c"
  using not_upper_lower [of c] by (subst to_ascii_lower_char_def) simp

lemma to_ascii_lowercase_idem [simp]:
  "to_ascii_lowercase (to_ascii_lowercase s) = to_ascii_lowercase s"
  by (simp add: to_ascii_lowercase_def)

lemma length_to_ascii_lowercase [simp]: "length (to_ascii_lowercase s) = length s"
  by (simp add: to_ascii_lowercase_def)

lemma to_ascii_lowercase_Nil_iff [simp]: "to_ascii_lowercase s = [] \<longleftrightarrow> s = []"
  by (simp add: to_ascii_lowercase_def)

lemma to_ascii_lowercase_id: "(\<forall>c \<in> set s. \<not> is_ascii_uppercase c) \<Longrightarrow> to_ascii_lowercase s = s"
  by (induction s) (simp_all add: to_ascii_lowercase_def to_ascii_lower_char_def)

lemma strip_prefix_Some: "strip_prefix s p = Some t \<longleftrightarrow> s = p @ t"
  unfolding strip_prefix_def starts_with_def by (auto split: if_splits) (metis append_take_drop_id)

lemma split_once_Some: "split_once s d = Some (a, b) \<Longrightarrow> s = a @ d # b \<and> d \<notin> set a"
  by (induction s arbitrary: a) (auto split: if_splits)

lemma split_once_None: "split_once s d = None \<longleftrightarrow> d \<notin> set s"
  by (induction s) auto

lemma split_once_append: "d \<notin> set a \<Longrightarrow> split_once (a @ d # b) d = Some (a, b)"
  by (induction a) auto

subsection \<open>Numbers as text\<close>

definition digit_char :: "nat \<Rightarrow> char" where
  "digit_char n = char_of (48 + n)"

fun nat_to_string :: "nat \<Rightarrow> str" where
  "nat_to_string n =
     (if n < 10 then [digit_char n] else nat_to_string (n div 10) @ [digit_char (n mod 10)])"

declare nat_to_string.simps [simp del]

definition zero_pad :: "nat \<Rightarrow> str \<Rightarrow> str" where
  "zero_pad w s = replicate (w - length s) (CHR ''0'') @ s"

definition int_to_string :: "int \<Rightarrow> str" where
  "int_to_string i = (if i < 0 then CHR ''-'' # nat_to_string (nat (- i)) else nat_to_string (nat i))"

definition hex_digit :: "nat \<Rightarrow> char" where
  "hex_digit n = (if n < 10 then char_of (48 + n) else char_of (87 + n))"

text \<open>\<open>{:02x}\<close> and \<open>{:x}\<close> of a byte.\<close>

definition hex02 :: "u8 \<Rightarrow> str" where
  "hex02 b = [hex_digit (unat b div 16), hex_digit (unat b mod 16)]"

definition hex_min :: "u8 \<Rightarrow> str" where
  "hex_min b = (if unat b < 16 then [hex_digit (unat b)] else hex02 b)"

text \<open>Reading digits back, the specification side of the formatters.\<close>

definition digits_value :: "str \<Rightarrow> nat" where
  "digits_value s = foldl (\<lambda>a c. 10 * a + (of_char c - 48)) 0 s"

lemma of_digit_char [simp]: "n < 10 \<Longrightarrow> (of_char (digit_char n) :: nat) = 48 + n"
  by (simp add: digit_char_def)

lemma digits_value_snoc [simp]: "digits_value (s @ [c]) = 10 * digits_value s + (of_char c - 48)"
  by (simp add: digits_value_def)

lemma digits_value_nat_to_string [simp]: "digits_value (nat_to_string n) = n"
proof (induction n rule: nat_to_string.induct)
  case (1 n)
  show ?case
  proof (cases "n < 10")
    case True
    then show ?thesis
      by (simp add: nat_to_string.simps [of n] digits_value_def)
  next
    case False
    with 1 show ?thesis
      by (simp add: nat_to_string.simps [of n])
  qed
qed

lemma digits_value_zero_pad [simp]: "digits_value (zero_pad w s) = digits_value s"
proof -
  have "foldl (\<lambda>a c. 10 * a + (of_char c - 48)) 0 (replicate k (CHR ''0'') @ s) =
      foldl (\<lambda>a c. 10 * a + (of_char c - 48)) (0 :: nat) s" for k
    by (induction k) simp_all
  then show ?thesis
    by (simp add: zero_pad_def digits_value_def)
qed

lemma nat_to_string_digits: "c \<in> set (nat_to_string n) \<Longrightarrow> is_ascii_digit c"
proof (induction n rule: nat_to_string.induct)
  case (1 n)
  then show ?case
    by (subst (asm) (2) nat_to_string.simps) (auto simp: is_ascii_digit_def split: if_splits)
qed

lemma nat_to_string_not_Nil [simp]: "nat_to_string n \<noteq> []"
  by (subst nat_to_string.simps) simp

lemma length_nat_to_string: "n < 10 ^ k \<Longrightarrow> 0 < k \<Longrightarrow> length (nat_to_string n) \<le> k"
proof (induction k arbitrary: n)
  case 0
  then show ?case by simp
next
  case (Suc k)
  show ?case
  proof (cases "n < 10")
    case True
    then show ?thesis by (simp add: nat_to_string.simps [of n])
  next
    case False
    with Suc.prems have "n div 10 < 10 ^ k" and "0 < k"
      by (auto simp: less_mult_imp_div_less mult.commute intro: Nat.gr0I)
    with False show ?thesis
      using Suc.IH [of "n div 10"] by (simp add: nat_to_string.simps [of n])
  qed
qed

lemma length_zero_pad: "length s \<le> w \<Longrightarrow> length (zero_pad w s) = w"
  by (simp add: zero_pad_def)

lemma zero_pad_digits:
  "(\<And>c. c \<in> set s \<Longrightarrow> is_ascii_digit c) \<Longrightarrow> c \<in> set (zero_pad w s) \<Longrightarrow> is_ascii_digit c"
  by (auto simp: zero_pad_def is_ascii_digit_def)

section \<open>Hash maps\<close>

text \<open>
  A \<open>HashMap\<close> is an association list with distinct keys. The order of the list stands for the
  iteration order, which Rust leaves unspecified; statements about iteration quantify over it.
\<close>

fun map_put :: "'k \<Rightarrow> 'v \<Rightarrow> ('k \<times> 'v) list \<Rightarrow> ('k \<times> 'v) list" where
  "map_put k v [] = [(k, v)]"
| "map_put k v ((a, b) # m) = (if a = k then (k, v) # m else (a, b) # map_put k v m)"

definition map_or_insert :: "'k \<Rightarrow> 'v \<Rightarrow> ('k \<times> 'v) list \<Rightarrow> ('k \<times> 'v) list" where
  "map_or_insert k v m = (case map_of m k of None \<Rightarrow> map_put k v m | Some _ \<Rightarrow> m)"

lemma map_of_map_put: "map_of (map_put k v m) = (map_of m)(k \<mapsto> v)"
  by (induction m) (auto simp: fun_eq_iff)

lemma map_of_map_or_insert:
  "map_of (map_or_insert k v m) = (case map_of m k of None \<Rightarrow> (map_of m)(k \<mapsto> v) | Some _ \<Rightarrow> map_of m)"
  by (auto simp: map_or_insert_def map_of_map_put split: option.splits)

lemma set_keys_map_put: "fst ` set (map_put k v m) = insert k (fst ` set m)"
  by (induction k v m rule: map_put.induct) auto

lemma distinct_map_put: "distinct (map fst m) \<Longrightarrow> distinct (map fst (map_put k v m))"
  by (induction k v m rule: map_put.induct) (auto simp: set_keys_map_put)

lemma distinct_map_or_insert:
  "distinct (map fst m) \<Longrightarrow> distinct (map fst (map_or_insert k v m))"
  by (simp add: map_or_insert_def distinct_map_put split: option.splits)

section \<open>Fallible code that may also panic\<close>

definition try_bind :: "('e + 'a) run \<Rightarrow> ('a \<Rightarrow> ('e + 'b) run) \<Rightarrow> ('e + 'b) run" where
  "try_bind r f = (case r of Panic \<Rightarrow> Panic | Ret (Inl e) \<Rightarrow> Ret (Inl e) | Ret (Inr x) \<Rightarrow> f x)"

lemma try_bind_simps [simp]:
  "try_bind Panic f = Panic" "try_bind (Ret (Inl e)) f = Ret (Inl e)"
  "try_bind (Ret (Inr x)) f = f x"
  by (simp_all add: try_bind_def)

end
