(* ===== verification/F64.thy ===== *)
theory F64
  imports Complex_Main Prelude
begin

text \<open>
  IEEE 754 double precision, as far as the code uses it: the conversions from integers and the
  saturating conversion back, addition, subtraction, multiplication, division, comparison,
  \<open>min\<close>, \<open>round\<close> and \<open>is_finite\<close>. A finite double is the rational it denotes (the sign
  of a zero is not kept: the code never observes it), and every operation rounds the exact
  result to the nearest double, ties to even.
\<close>

datatype f64 = NaN | Inf bool | Fin rat

text \<open>\<open>Inf True\<close> is the negative infinity.\<close>

fun bitlen :: "nat \<Rightarrow> nat" where
  "bitlen n = (if n = 0 then 0 else Suc (bitlen (n div 2)))"

declare bitlen.simps [simp del]

text \<open>The exponent \<open>e\<close> with \<open>2 ^ e \<le> x < 2 ^ (e + 1)\<close>, for a positive \<open>x\<close>.\<close>

definition ilog2 :: "rat \<Rightarrow> int" where
  "ilog2 x = (let (a, b) = quotient_of x; k = int (bitlen (nat a)) - int (bitlen (nat b))
              in if 2 powi k \<le> x then k else k - 1)"

definition round_half_even :: "rat \<Rightarrow> int" where
  "round_half_even x =
     (let f = \<lfloor>x\<rfloor>; d = x - of_int f
      in if d < 1 / 2 then f else if 1 / 2 < d then f + 1 else if even f then f else f + 1)"

text \<open>The spacing of the doubles around \<open>x\<close>: 53 significant bits, subnormals below.\<close>

definition ulp :: "rat \<Rightarrow> rat" where
  "ulp x = 2 powi (max (ilog2 \<bar>x\<bar> - 52) (- 1074))"

definition f64_round :: "rat \<Rightarrow> f64" where
  "f64_round x =
     (if x = 0 then Fin 0
      else let r = of_int (round_half_even (x / ulp x)) * ulp x
           in if 2 ^ 1024 \<le> \<bar>r\<bar> then Inf (r < 0) else Fin r)"

definition f64_of_int :: "int \<Rightarrow> f64" where
  "f64_of_int n = f64_round (of_int n)"

fun is_finite :: "f64 \<Rightarrow> bool" where
  "is_finite (Fin x) = True"
| "is_finite _ = False"

fun f64_add :: "f64 \<Rightarrow> f64 \<Rightarrow> f64" where
  "f64_add (Fin x) (Fin y) = f64_round (x + y)"
| "f64_add (Inf s) (Inf t) = (if s = t then Inf s else NaN)"
| "f64_add (Inf s) (Fin _) = Inf s"
| "f64_add (Fin _) (Inf s) = Inf s"
| "f64_add _ _ = NaN"

fun f64_neg :: "f64 \<Rightarrow> f64" where
  "f64_neg (Fin x) = Fin (- x)"
| "f64_neg (Inf s) = Inf (\<not> s)"
| "f64_neg NaN = NaN"

definition f64_sub :: "f64 \<Rightarrow> f64 \<Rightarrow> f64" where
  "f64_sub a b = f64_add a (f64_neg b)"

fun f64_mul :: "f64 \<Rightarrow> f64 \<Rightarrow> f64" where
  "f64_mul (Fin x) (Fin y) = f64_round (x * y)"
| "f64_mul (Inf s) (Inf t) = Inf (s \<noteq> t)"
| "f64_mul (Inf s) (Fin y) = (if y = 0 then NaN else Inf (s \<noteq> (y < 0)))"
| "f64_mul (Fin x) (Inf t) = (if x = 0 then NaN else Inf (t \<noteq> (x < 0)))"
| "f64_mul _ _ = NaN"

fun f64_div :: "f64 \<Rightarrow> f64 \<Rightarrow> f64" where
  "f64_div (Fin x) (Fin y) =
     (if y = 0 then (if x = 0 then NaN else Inf (x < 0)) else f64_round (x / y))"
| "f64_div (Inf s) (Fin y) = Inf (s \<noteq> (y < 0))"
| "f64_div (Fin x) (Inf _) = Fin 0"
| "f64_div _ _ = NaN"

fun f64_le :: "f64 \<Rightarrow> f64 \<Rightarrow> bool" where
  "f64_le (Fin x) (Fin y) = (x \<le> y)"
| "f64_le NaN _ = False"
| "f64_le _ NaN = False"
| "f64_le (Inf s) (Inf t) = (s \<or> \<not> t)"
| "f64_le (Inf s) (Fin _) = s"
| "f64_le (Fin _) (Inf t) = (\<not> t)"

definition f64_lt :: "f64 \<Rightarrow> f64 \<Rightarrow> bool" where
  "f64_lt a b \<longleftrightarrow> f64_le a b \<and> \<not> f64_le b a"

text \<open>\<open>f64::min\<close> and \<open>f64::max\<close> ignore a NaN operand.\<close>

definition f64_min :: "f64 \<Rightarrow> f64 \<Rightarrow> f64" where
  "f64_min a b = (if a = NaN then b else if b = NaN then a else if f64_le a b then a else b)"

definition f64_max :: "f64 \<Rightarrow> f64 \<Rightarrow> f64" where
  "f64_max a b = (if a = NaN then b else if b = NaN then a else if f64_le a b then b else a)"

text \<open>\<open>f64::round\<close>: to the nearest integer, ties away from zero (exact on doubles).\<close>

definition round_half_away :: "rat \<Rightarrow> int" where
  "round_half_away x = (if x < 0 then - \<lfloor>- x + 1 / 2\<rfloor> else \<lfloor>x + 1 / 2\<rfloor>)"

fun f64_round_int :: "f64 \<Rightarrow> f64" where
  "f64_round_int (Fin x) = Fin (of_int (round_half_away x))"
| "f64_round_int v = v"

fun f64_ceil :: "f64 \<Rightarrow> f64" where
  "f64_ceil (Fin x) = Fin (of_int \<lceil>x\<rceil>)"
| "f64_ceil v = v"

definition rat_trunc :: "rat \<Rightarrow> int" where
  "rat_trunc x = (if x < 0 then - \<lfloor>- x\<rfloor> else \<lfloor>x\<rfloor>)"

text \<open>\<open>as i64\<close> and \<open>as u64\<close>: toward zero, saturating, NaN is zero.\<close>

fun f64_to_i64 :: "f64 \<Rightarrow> i64" where
  "f64_to_i64 (Fin x) = sat_i64 (rat_trunc x)"
| "f64_to_i64 (Inf s) = (if s then i64_min else i64_max)"
| "f64_to_i64 NaN = 0"

fun f64_to_u64 :: "f64 \<Rightarrow> u64" where
  "f64_to_u64 (Fin x) = nat (sat_u64 (rat_trunc x))"
| "f64_to_u64 (Inf s) = (if s then 0 else nat u64_max)"
| "f64_to_u64 NaN = 0"

section \<open>Rounding\<close>

lemma round_half_even_near: "\<bar>of_int (round_half_even x) - x\<bar> \<le> 1 / 2"
proof -
  have "of_int \<lfloor>x\<rfloor> \<le> x" and "x < of_int \<lfloor>x\<rfloor> + 1"
    by linarith+
  then show ?thesis
    by (auto simp: round_half_even_def Let_def abs_le_iff)
qed

lemma round_half_even_of_int [simp]: "round_half_even (of_int n) = n"
  by (simp add: round_half_even_def)

lemma round_half_even_nonneg: "0 \<le> x \<Longrightarrow> 0 \<le> round_half_even x"
  by (auto simp: round_half_even_def Let_def intro: add_nonneg_nonneg)

lemma bitlen_bounds: "0 < n \<Longrightarrow> 2 ^ (bitlen n - 1) \<le> n \<and> n < 2 ^ bitlen n"
proof (induction n rule: bitlen.induct)
  case (1 n)
  show ?case
  proof (cases "n div 2 = 0")
    case True
    with 1(2) have "n = 1" by simp
    then show ?thesis by (simp add: bitlen.simps)
  next
    case False
    with 1 have "2 ^ (bitlen (n div 2) - 1) \<le> n div 2" "n div 2 < 2 ^ bitlen (n div 2)"
      by simp_all
    moreover from this have "0 < bitlen (n div 2)"
      using False by (metis gr0I less_one power_0)
    moreover have "2 * (n div 2) \<le> n" "n < 2 * (n div 2) + 2"
      by simp_all
    ultimately have "2 * 2 ^ (bitlen (n div 2) - 1) \<le> n" "n < 2 * 2 ^ bitlen (n div 2)"
      by linarith+
    moreover have "2 * 2 ^ (bitlen (n div 2) - 1) = (2 :: nat) ^ bitlen (n div 2)"
      using \<open>0 < bitlen (n div 2)\<close> by (cases "bitlen (n div 2)") simp_all
    ultimately show ?thesis
      using 1(2) by (simp add: bitlen.simps [of n])
  qed
qed

lemma ilog2_bounds:
  assumes "0 < x"
  shows "2 powi ilog2 x \<le> x \<and> x < 2 powi (ilog2 x + 1)"
proof -
  obtain a b where q: "quotient_of x = (a, b)" by fastforce
  then have b: "0 < b" and x: "x = of_int a / of_int b"
    by (simp_all add: quotient_of_denom_pos quotient_of_div)
  with assms have a: "0 < a"
    by (simp add: zero_less_divide_iff)
  define la lb where "la = bitlen (nat a)" and "lb = bitlen (nat b)"
  have "2 ^ (la - 1) \<le> nat a" "nat a < 2 ^ la" "2 ^ (lb - 1) \<le> nat b" "nat b < 2 ^ lb"
    using bitlen_bounds [of "nat a"] bitlen_bounds [of "nat b"] a b by (simp_all add: la_def lb_def)
  then have "2 ^ (la - 1) \<le> a" "a < 2 ^ la" "2 ^ (lb - 1) \<le> b" "b < 2 ^ lb"
    using a b by (simp_all add: nat_less_iff le_nat_iff)
  then have "(of_int (2 ^ (la - 1)) :: rat) \<le> of_int a" "(of_int a :: rat) < of_int (2 ^ la)"
    "(of_int (2 ^ (lb - 1)) :: rat) \<le> of_int b" "(of_int b :: rat) < of_int (2 ^ lb)"
    by (simp_all only: of_int_le_iff of_int_less_iff)
  then have A: "(2 :: rat) ^ (la - 1) \<le> of_int a" "of_int a < (2 :: rat) ^ la"
    and B: "(2 :: rat) ^ (lb - 1) \<le> of_int b" "of_int b < (2 :: rat) ^ lb"
    by simp_all
  have pos: "0 < la" "0 < lb"
    using a b by (simp_all add: la_def lb_def bitlen.simps)
  have up: "x < 2 powi (int la - int lb + 1)"
  proof -
    have "x < 2 ^ la / 2 ^ (lb - 1)"
      unfolding x using A B a b by (intro frac_less) auto
    also have "\<dots> = 2 powi (int la - int lb + 1)"
      using pos by (simp add: power_int_add power_int_diff power_diff)
    finally show ?thesis .
  qed
  have low: "2 powi (int la - int lb - 1) \<le> x"
  proof -
    have "2 powi (int la - int lb - 1) = 2 ^ (la - 1) / (2 :: rat) ^ lb"
      using pos by (simp add: power_int_diff power_diff)
    also have "\<dots> \<le> x"
      unfolding x using A B a b by (intro frac_le) auto
    finally show ?thesis .
  qed
  show ?thesis
    using up low q by (auto simp: ilog2_def Let_def la_def lb_def)
qed

lemma ulp_pos: "0 < ulp x"
  by (simp add: ulp_def)

lemma ulp_le:
  assumes "2 powi (- 1022) \<le> \<bar>x\<bar>"
  shows "ulp x \<le> \<bar>x\<bar> / 2 ^ 52"
proof -
  have pos: "0 < \<bar>x\<bar>"
    using assms by (rule less_le_trans [rotated]) simp
  have e: "- 1022 \<le> ilog2 \<bar>x\<bar>"
  proof (rule ccontr)
    assume "\<not> - 1022 \<le> ilog2 \<bar>x\<bar>"
    then have "(2 :: rat) powi (ilog2 \<bar>x\<bar> + 1) \<le> 2 powi (- 1022)"
      by (intro power_int_increasing) simp_all
    with assms ilog2_bounds [OF pos] show False by linarith
  qed
  then have "max (ilog2 \<bar>x\<bar> - 52) (- 1074) = ilog2 \<bar>x\<bar> - 52"
    by linarith
  then have "ulp x = 2 powi (ilog2 \<bar>x\<bar> - 52)"
    by (simp only: ulp_def)
  also have "\<dots> = 2 powi ilog2 \<bar>x\<bar> / 2 ^ 52"
    by (simp add: power_int_diff)
  also have "\<dots> \<le> \<bar>x\<bar> / 2 ^ 52"
    using ilog2_bounds [OF pos] by (intro divide_right_mono) simp_all
  finally show ?thesis .
qed

lemma round_ulp_near: "\<bar>of_int (round_half_even (x / ulp x)) * ulp x - x\<bar> \<le> ulp x / 2"
proof -
  have "of_int (round_half_even (x / ulp x)) * ulp x - x =
      (of_int (round_half_even (x / ulp x)) - x / ulp x) * ulp x"
    using ulp_pos [of x] by (simp add: left_diff_distrib)
  also have "\<bar>\<dots>\<bar> = \<bar>of_int (round_half_even (x / ulp x)) - x / ulp x\<bar> * ulp x"
    using ulp_pos [of x] by (simp add: abs_mult)
  also have "\<dots> \<le> 1 / 2 * ulp x"
    using ulp_pos [of x] by (intro mult_right_mono round_half_even_near) simp
  finally show ?thesis by simp
qed

text \<open>Inside the normal range one rounding is off by at most one part in \<open>2 ^ 53\<close>.\<close>

lemma f64_round_rel:
  assumes "2 powi (- 1022) \<le> \<bar>x\<bar>" and "\<bar>x\<bar> < 2 ^ 1023"
  obtains r where "f64_round x = Fin r" and "\<bar>r - x\<bar> \<le> \<bar>x\<bar> / 2 ^ 53"
proof
  define r where "r = of_int (round_half_even (x / ulp x)) * ulp x"
  have "\<bar>r - x\<bar> \<le> ulp x / 2"
    unfolding r_def by (rule round_ulp_near)
  also have "\<dots> \<le> \<bar>x\<bar> / 2 ^ 52 / 2"
    using ulp_le [OF assms(1)] by (intro divide_right_mono) simp_all
  finally show near: "\<bar>r - x\<bar> \<le> \<bar>x\<bar> / 2 ^ 53" by simp
  have "x \<noteq> 0"
    using assms(1) by (auto simp: not_le)
  moreover have "\<bar>r\<bar> < 2 ^ 1024"
  proof -
    have "\<bar>x\<bar> / 2 ^ 53 \<le> \<bar>x\<bar>" by (simp add: field_simps)
    with near have "\<bar>r\<bar> \<le> 2 * \<bar>x\<bar>" by linarith
    also have "\<dots> < 2 * 2 ^ 1023" using assms(2) by (intro mult_strict_left_mono) simp_all
    also have "\<dots> = (2 :: rat) ^ 1024" by (simp only: power_Suc [symmetric]) simp
    finally show ?thesis .
  qed
  ultimately show "f64_round x = Fin r"
    by (simp only: f64_round_def r_def [symmetric] Let_def not_le [symmetric]) simp
qed

lemma f64_round_zero [simp]: "f64_round 0 = Fin 0"
  by (simp add: f64_round_def)

definition f64_nonneg :: "f64 \<Rightarrow> bool" where
  "f64_nonneg v \<longleftrightarrow> f64_le (Fin 0) v"

lemma f64_round_nonneg: "0 \<le> x \<Longrightarrow> f64_nonneg (f64_round x)"
proof -
  assume "0 \<le> x"
  then have "0 \<le> of_int (round_half_even (x / ulp x)) * ulp x"
    using ulp_pos [of x] round_half_even_nonneg [of "x / ulp x"] by simp
  then show ?thesis
    by (simp add: f64_nonneg_def f64_round_def Let_def)
qed

lemma f64_nonneg_cases: "f64_nonneg v \<longleftrightarrow> v = Inf False \<or> (\<exists>x. v = Fin x \<and> 0 \<le> x)"
  by (cases v) (auto simp: f64_nonneg_def)

lemma f64_add_nonneg: "f64_nonneg a \<Longrightarrow> f64_nonneg b \<Longrightarrow> f64_nonneg (f64_add a b)"
  using f64_round_nonneg
  by (auto simp: f64_nonneg_cases [of a] f64_nonneg_cases [of b]) (simp_all add: f64_nonneg_def)

text \<open>Integers below \<open>2 ^ 53\<close> are doubles: converting them is exact.\<close>

lemma ilog2_int_less: "0 < \<bar>n\<bar> \<Longrightarrow> \<bar>n\<bar> < 2 ^ k \<Longrightarrow> 0 \<le> ilog2 \<bar>of_int n\<bar> \<and> ilog2 \<bar>of_int n\<bar> < int k"
proof -
  assume n: "0 < \<bar>n\<bar>" "\<bar>n\<bar> < 2 ^ k"
  define e where "e = ilog2 \<bar>of_int n\<bar>"
  have pos: "(0 :: rat) < \<bar>of_int n\<bar>" and one: "(1 :: rat) \<le> \<bar>of_int n\<bar>"
    using n by linarith+
  have b: "2 powi e \<le> \<bar>of_int n :: rat\<bar>" "\<bar>of_int n :: rat\<bar> < 2 powi (e + 1)"
    using ilog2_bounds [OF pos] by (simp_all add: e_def)
  have "(of_int \<bar>n\<bar> :: rat) < of_int (2 ^ k)"
    using n(2) by (simp only: of_int_less_iff)
  then have "2 powi e < (2 :: rat) powi int k"
    using b(1) by simp
  then have "e < int k"
    using power_int_increasing [of "int k" e "2 :: rat"] by linarith
  moreover have "2 powi 0 < (2 :: rat) powi (e + 1)"
    using b(2) one by simp
  then have "0 < e + 1"
    using power_int_increasing [of "e + 1" 0 "2 :: rat"] by linarith
  ultimately show ?thesis
    by (simp add: e_def)
qed

lemma f64_of_int_exact: "\<bar>n\<bar> < 2 ^ 53 \<Longrightarrow> f64_of_int n = Fin (of_int n)"
proof (cases "n = 0")
  case False
  assume n: "\<bar>n\<bar> < 2 ^ 53"
  define e where "e = ilog2 \<bar>of_int n\<bar>"
  have e: "0 \<le> e" "e \<le> 52"
    using ilog2_int_less [of n 53] n False by (simp_all add: e_def)
  have "max (e - 52) (- 1074) = e - 52"
    using e by linarith
  then have u: "ulp (of_int n) = 2 powi (e - 52)"
    by (simp only: ulp_def e_def)
  have "(2 :: rat) powi (e - 52) = 1 / 2 ^ nat (52 - e)"
    using e by (simp add: power_int_def inverse_eq_divide power_one_over)
  with u have q: "of_int n / ulp (of_int n) = of_int (n * 2 ^ nat (52 - e))"
    by simp
  have r: "of_int (round_half_even (of_int n / ulp (of_int n))) * ulp (of_int n) = (of_int n :: rat)"
    unfolding q round_half_even_of_int unfolding q [symmetric] using ulp_pos [of "of_int n"] by simp
  have "(of_int \<bar>n\<bar> :: rat) < of_int (2 ^ 53)"
    using n by (simp only: of_int_less_iff)
  moreover have "(2 :: rat) ^ 53 \<le> 2 ^ 1024"
    by (rule power_increasing) simp_all
  ultimately have "\<not> 2 ^ 1024 \<le> \<bar>of_int n :: rat\<bar>"
    by simp
  with False r show ?thesis
    by (simp add: f64_of_int_def f64_round_def Let_def)
qed (simp add: f64_of_int_def)

end
