(* ===== verification/Cost.thy ===== *)
theory Cost
  imports Prelude F64
begin

text \<open>
  Nanodollar amounts: \<open>crates/keplor-core/src/cost.rs\<close>. Every operator saturates at the bounds
  of \<open>i64\<close>; the display form has eight fractional digits.
\<close>

definition NANOS_PER_DOLLAR :: i64 where
  "NANOS_PER_DOLLAR = 1000000000"

datatype cost = Cost (nanodollars: i64)

definition cost_ZERO :: cost where
  "cost_ZERO = Cost 0"

definition from_nanodollars :: "i64 \<Rightarrow> cost" where
  "from_nanodollars n = Cost n"

definition checked_mul_i64 :: "i64 \<Rightarrow> i64 \<Rightarrow> i64 option" where
  "checked_mul_i64 a b = (if is_i64 (a * b) then Some (a * b) else None)"

definition from_dollars :: "i64 \<Rightarrow> cost" where
  "from_dollars dollars =
     (case checked_mul_i64 dollars NANOS_PER_DOLLAR of
        Some n \<Rightarrow> Cost n
      | None \<Rightarrow> if dollars < 0 then Cost i64_min else Cost i64_max)"

definition to_dollars_f64 :: "cost \<Rightarrow> f64" where
  "to_dollars_f64 c = f64_div (f64_of_int (nanodollars c)) (f64_of_int NANOS_PER_DOLLAR)"

definition cost_add :: "cost \<Rightarrow> cost \<Rightarrow> cost" where
  "cost_add a b = Cost (sat_i64 (nanodollars a + nanodollars b))"

definition cost_sub :: "cost \<Rightarrow> cost \<Rightarrow> cost" where
  "cost_sub a b = Cost (sat_i64 (nanodollars a - nanodollars b))"

definition cost_add_assign :: "cost \<Rightarrow> cost \<Rightarrow> cost" where
  "cost_add_assign self rhs = Cost (sat_i64 (nanodollars self + nanodollars rhs))"

definition cost_sub_assign :: "cost \<Rightarrow> cost \<Rightarrow> cost" where
  "cost_sub_assign self rhs = Cost (sat_i64 (nanodollars self - nanodollars rhs))"

definition cost_neg :: "cost \<Rightarrow> cost" where
  "cost_neg a = Cost (sat_i64 (- nanodollars a))"

definition cost_sum :: "cost list \<Rightarrow> cost" where
  "cost_sum cs = foldl cost_add cost_ZERO cs"

definition cost_fmt :: "cost \<Rightarrow> str" where
  "cost_fmt c =
     (let sign = (if nanodollars c < 0 then ''-'' else '''');
          abs = nat \<bar>nanodollars c\<bar>;
          dollars = abs div nat NANOS_PER_DOLLAR;
          hundred_millionths = (abs mod nat NANOS_PER_DOLLAR) div 10
      in sign @ ''$'' @ nat_to_string dollars @ ''.'' @ zero_pad 8 (nat_to_string hundred_millionths))"

section \<open>Arithmetic\<close>

definition is_cost :: "cost \<Rightarrow> bool" where
  "is_cost c \<longleftrightarrow> is_i64 (nanodollars c)"

lemma is_cost_ops [range_intros]:
  "is_cost cost_ZERO" "is_cost (cost_add a b)" "is_cost (cost_sub a b)" "is_cost (cost_neg a)"
  by (simp_all add: is_cost_def cost_ZERO_def cost_add_def cost_sub_def cost_neg_def range_intros)

lemma is_cost_from_dollars [range_intros]: "is_cost (from_dollars d)"
  by (auto simp: is_cost_def from_dollars_def checked_mul_i64_def is_i64_def i64_bounds_num
      split: option.splits if_splits)

lemma from_dollars_sat: "from_dollars d = Cost (sat_i64 (d * NANOS_PER_DOLLAR))"
  by (auto simp: from_dollars_def checked_mul_i64_def NANOS_PER_DOLLAR_def is_i64_def
      i64_bounds_num sat_i64_def)

lemma cost_fold_nanodollars:
  "nanodollars (foldl cost_add c cs) =
     foldl (\<lambda>acc x. sat_i64 (acc + x)) (nanodollars c) (map nanodollars cs)"
  by (induction cs arbitrary: c) (simp_all add: cost_add_def)

lemma is_cost_sum [range_intros]: "is_cost (cost_sum cs)"
  using i64.fold_sat_bounds [of 0 "map nanodollars cs"]
  by (simp add: is_cost_def cost_sum_def cost_fold_nanodollars is_i64_def cost_ZERO_def i64_bounds_num)

text \<open>
  C39: summing a list of non-negative costs with the saturating operator gives the exact sum
  capped at the largest \<open>i64\<close>, whatever the order of the additions: no partial sum wraps.
\<close>

theorem cost_sum_exact:
  assumes "\<forall>c \<in> set cs. 0 \<le> nanodollars c"
  shows "nanodollars (cost_sum cs) = min i64_max (sum_list (map nanodollars cs))"
proof -
  have pos: "0 \<le> sum_list (map nanodollars cs)"
    using assms by (intro sum_list_nonneg) auto
  have "foldl (\<lambda>acc x. sat_i64 (acc + x)) 0 (map nanodollars cs) = sat_i64 (sum_list (map nanodollars cs))"
    using assms by (intro i64.fold_sat_zero) auto
  then have "nanodollars (cost_sum cs) = sat_i64 (sum_list (map nanodollars cs))"
    by (simp add: cost_sum_def cost_fold_nanodollars cost_ZERO_def)
  then show ?thesis
    using pos by (simp add: sat_i64_def i64_bounds_num)
qed

theorem cost_sum_exact_witness:
  "nanodollars (cost_sum [Cost 10, Cost 20, Cost i64_max]) = min i64_max (10 + 20 + i64_max)"
proof -
  have "\<forall>c \<in> set [Cost 10, Cost 20, Cost i64_max]. 0 \<le> nanodollars c"
    by (simp add: i64_bounds_num)
  from cost_sum_exact [OF this] show ?thesis by (simp add: add.assoc)
qed

section \<open>Display\<close>

text \<open>Reading a displayed amount back, in units of ten nanodollars.\<close>

definition read_display :: "str \<Rightarrow> int option" where
  "read_display s =
     (let neg = starts_with s ''-''; s' = (if neg then drop 1 s else s)
      in case strip_prefix s' ''$'' of
           None \<Rightarrow> None
         | Some body \<Rightarrow>
             (case split_once body (CHR ''.'') of
                None \<Rightarrow> None
              | Some (whole, cents) \<Rightarrow>
                  if length cents = 8
                  then Some ((if neg then - 1 else 1)
                    * int (digits_value whole * 10 ^ 8 + digits_value cents))
                  else None))"

lemma frac_width: "length (zero_pad 8 (nat_to_string ((n mod 1000000000) div 10))) = 8"
proof -
  have "(n mod 1000000000) div 10 < 10 ^ 8"
    by (simp add: less_mult_imp_div_less)
  then show ?thesis
    by (intro length_zero_pad length_nat_to_string) simp_all
qed

lemma dot_notin_digits: "CHR ''.'' \<notin> set (nat_to_string n)"
  using nat_to_string_digits [of "CHR ''.''" n] by (auto simp: is_ascii_digit_def)

lemma split_nano: "(n :: nat) div 1000000000 * 10 ^ 8 + (n mod 1000000000) div 10 = n div 10"
proof -
  have d: "n div 1000000000 = n div 10 div 100000000"
    using div_mult2_eq [of n 10 100000000] by simp
  have m: "n mod 1000000000 = 10 * (n div 10 mod 100000000) + n mod 10"
    using mod_mult2_eq [of n 10 100000000] by simp
  have "(n mod 1000000000) div 10 = n div 10 mod 100000000"
    unfolding m by simp
  then show ?thesis
    using div_mult_mod_eq [of "n div 10" 100000000] by (simp only: d) simp
qed

text \<open>
  The displayed amount reads back as the nanodollar count divided by ten and truncated
  toward zero, for every amount, the smallest \<open>i64\<close> included; so the display is wrong by less
  than ten nanodollars and never rounds a cost up in magnitude.
\<close>

theorem cost_fmt_reads_back: "read_display (cost_fmt c) = Some (nanodollars c sdiv 10)"
proof -
  define n where "n = nat \<bar>nanodollars c\<bar>"
  have int_n: "int n = \<bar>nanodollars c\<bar>" by (simp add: n_def)
  define body where "body = nat_to_string (n div 1000000000) @ CHR ''.'' #
    zero_pad 8 (nat_to_string ((n mod 1000000000) div 10))"
  have fmt: "cost_fmt c = (if nanodollars c < 0 then ''-'' else '''') @ CHR ''$'' # body"
    by (simp add: cost_fmt_def Let_def NANOS_PER_DOLLAR_def n_def body_def)
  have sp: "split_once body (CHR ''.'') = Some (nat_to_string (n div 1000000000),
      zero_pad 8 (nat_to_string ((n mod 1000000000) div 10)))"
    unfolding body_def by (rule split_once_append [OF dot_notin_digits])
  have val: "digits_value (nat_to_string (n div 1000000000)) * 10 ^ 8 +
      digits_value (zero_pad 8 (nat_to_string ((n mod 1000000000) div 10))) = n div 10"
    using split_nano [of n] by simp
  have "nanodollars c sdiv 10 = (if nanodollars c < 0 then - 1 else 1) * int (n div 10)"
    using int_n by (auto simp: signed_divide_int_def sgn_if zdiv_int)
  then show ?thesis
    using sp val by (simp add: read_display_def fmt starts_with_def strip_prefix_def frac_width)
qed

end
