(* ===== verification/Provider.thy ===== *)
theory Provider
  imports Prelude
begin

text \<open>
  The provider surfaces: \<open>crates/keplor-core/src/provider.rs\<close>. The stable key of a provider,
  the two parsers of that key and the classification of a request by host and path.
\<close>

datatype provider =
    OpenAI | Anthropic | Gemini | GeminiVertex | Bedrock | AzureOpenAI | Mistral | Groq
  | XAi | DeepSeek | Cohere | OpenRouter | Ollama | OpenCode | OpenCodeZen
  | OpenAICompatible str

fun canonical_host :: "provider \<Rightarrow> str" where
  "canonical_host OpenAI = ''api.openai.com''"
| "canonical_host Anthropic = ''api.anthropic.com''"
| "canonical_host Gemini = ''generativelanguage.googleapis.com''"
| "canonical_host GeminiVertex = ''aiplatform.googleapis.com''"
| "canonical_host Bedrock = ''bedrock-runtime.amazonaws.com''"
| "canonical_host AzureOpenAI = ''openai.azure.com''"
| "canonical_host Mistral = ''api.mistral.ai''"
| "canonical_host Groq = ''api.groq.com''"
| "canonical_host XAi = ''api.x.ai''"
| "canonical_host DeepSeek = ''api.deepseek.com''"
| "canonical_host Cohere = ''api.cohere.com''"
| "canonical_host OpenRouter = ''openrouter.ai''"
| "canonical_host Ollama = ''localhost''"
| "canonical_host OpenCode = ''opencode.ai''"
| "canonical_host OpenCodeZen = ''opencode.ai''"
| "canonical_host (OpenAICompatible u) = u"

fun id_key :: "provider \<Rightarrow> str" where
  "id_key OpenAI = ''openai''"
| "id_key Anthropic = ''anthropic''"
| "id_key Gemini = ''gemini''"
| "id_key GeminiVertex = ''gemini_vertex''"
| "id_key Bedrock = ''bedrock''"
| "id_key AzureOpenAI = ''azure_openai''"
| "id_key Mistral = ''mistral''"
| "id_key Groq = ''groq''"
| "id_key XAi = ''xai''"
| "id_key DeepSeek = ''deepseek''"
| "id_key Cohere = ''cohere''"
| "id_key OpenRouter = ''openrouter''"
| "id_key Ollama = ''ollama''"
| "id_key OpenCode = ''opencode''"
| "id_key OpenCodeZen = ''opencode_zen''"
| "id_key (OpenAICompatible u) = ''openai_compatible''"

fun auth_header_name :: "provider \<Rightarrow> str" where
  "auth_header_name Anthropic = ''x-api-key''"
| "auth_header_name Gemini = ''x-goog-api-key''"
| "auth_header_name AzureOpenAI = ''api-key''"
| "auth_header_name _ = ''authorization''"

definition from_id_key :: "str \<Rightarrow> provider" where
  "from_id_key s =
    (if s = ''openai'' then OpenAI
     else if s = ''anthropic'' then Anthropic
     else if s = ''gemini'' then Gemini
     else if s = ''gemini_vertex'' then GeminiVertex
     else if s = ''bedrock'' then Bedrock
     else if s = ''azure_openai'' then AzureOpenAI
     else if s = ''mistral'' then Mistral
     else if s = ''groq'' then Groq
     else if s = ''xai'' then XAi
     else if s = ''deepseek'' then DeepSeek
     else if s = ''cohere'' then Cohere
     else if s = ''openrouter'' then OpenRouter
     else if s = ''ollama'' then Ollama
     else if s = ''opencode'' then OpenCode
     else if s = ''opencode_zen'' then OpenCodeZen
     else OpenAICompatible s)"

definition from_id_key_ignore_case :: "str \<Rightarrow> provider" where
  "from_id_key_ignore_case s =
    (if eq_ignore_ascii_case s ''openai'' then OpenAI
     else if eq_ignore_ascii_case s ''anthropic'' then Anthropic
     else if eq_ignore_ascii_case s ''gemini'' then Gemini
     else if eq_ignore_ascii_case s ''gemini_vertex'' then GeminiVertex
     else if eq_ignore_ascii_case s ''bedrock'' then Bedrock
     else if eq_ignore_ascii_case s ''azure_openai'' then AzureOpenAI
     else if eq_ignore_ascii_case s ''mistral'' then Mistral
     else if eq_ignore_ascii_case s ''groq'' then Groq
     else if eq_ignore_ascii_case s ''xai'' then XAi
     else if eq_ignore_ascii_case s ''deepseek'' then DeepSeek
     else if eq_ignore_ascii_case s ''cohere'' then Cohere
     else if eq_ignore_ascii_case s ''openrouter'' then OpenRouter
     else if eq_ignore_ascii_case s ''ollama'' then Ollama
     else if eq_ignore_ascii_case s ''opencode'' then OpenCode
     else if eq_ignore_ascii_case s ''opencode_zen'' \<or> eq_ignore_ascii_case s ''opencode-zen''
       then OpenCodeZen
     else OpenAICompatible s)"

definition from_host_path :: "str \<Rightarrow> str \<Rightarrow> provider option" where
  "from_host_path host path =
    (let h = to_ascii_lowercase host in
     if h = ''api.openai.com'' then Some OpenAI
     else if h = ''api.anthropic.com'' then Some Anthropic
     else if h = ''generativelanguage.googleapis.com'' then Some Gemini
     else if ends_with h ''aiplatform.googleapis.com'' then Some GeminiVertex
     else if starts_with h ''bedrock-runtime.'' \<and> ends_with h ''.amazonaws.com'' then Some Bedrock
     else if ends_with h ''.openai.azure.com'' then Some AzureOpenAI
     else if h = ''api.mistral.ai'' then Some Mistral
     else if h = ''api.groq.com'' then Some Groq
     else if h = ''api.x.ai'' then Some XAi
     else if h = ''api.deepseek.com'' then Some DeepSeek
     else if h = ''api.cohere.com'' \<or> h = ''api.cohere.ai'' then Some Cohere
     else if h = ''openrouter.ai'' then Some OpenRouter
     else if h = ''opencode.ai'' \<and> starts_with path ''/zen/go'' then Some OpenCode
     else if h = ''opencode.ai'' \<and> starts_with path ''/zen'' then Some OpenCodeZen
     else if (h = ''localhost'' \<or> starts_with h ''localhost:'' \<or> h = ''127.0.0.1'') \<and>
             (starts_with path ''/api/'' \<or> ends_with h '':11434'') then Some Ollama
     else None)"

section \<open>Keys\<close>

definition known_provider :: "provider \<Rightarrow> bool" where
  "known_provider p \<longleftrightarrow> (case p of OpenAICompatible _ \<Rightarrow> False | _ \<Rightarrow> True)"

lemma from_id_key_id_key: "known_provider p \<Longrightarrow> from_id_key (id_key p) = p"
  by (cases p) (simp_all add: known_provider_def from_id_key_def)

lemma lower_id_key: "to_ascii_lowercase (id_key p) = id_key p"
  by (rule to_ascii_lowercase_id, cases p) (simp_all add: is_ascii_uppercase_def)

lemma from_id_key_cases:
  "from_id_key s = OpenAICompatible s \<or> known_provider (from_id_key s) \<and> id_key (from_id_key s) = s"
  by (simp add: from_id_key_def known_provider_def)

lemma lower_literals:
  "to_ascii_lowercase ''openai'' = ''openai''"
  "to_ascii_lowercase ''anthropic'' = ''anthropic''"
  "to_ascii_lowercase ''gemini'' = ''gemini''"
  "to_ascii_lowercase ''gemini_vertex'' = ''gemini_vertex''"
  "to_ascii_lowercase ''bedrock'' = ''bedrock''"
  "to_ascii_lowercase ''azure_openai'' = ''azure_openai''"
  "to_ascii_lowercase ''mistral'' = ''mistral''"
  "to_ascii_lowercase ''groq'' = ''groq''"
  "to_ascii_lowercase ''xai'' = ''xai''"
  "to_ascii_lowercase ''deepseek'' = ''deepseek''"
  "to_ascii_lowercase ''cohere'' = ''cohere''"
  "to_ascii_lowercase ''openrouter'' = ''openrouter''"
  "to_ascii_lowercase ''ollama'' = ''ollama''"
  "to_ascii_lowercase ''opencode'' = ''opencode''"
  "to_ascii_lowercase ''opencode_zen'' = ''opencode_zen''"
  "to_ascii_lowercase ''opencode-zen'' = ''opencode-zen''"
  by (simp_all add: to_ascii_lowercase_def to_ascii_lower_char_def is_ascii_uppercase_def)

text \<open>
  The allocation-free case-insensitive parser agrees with lower-casing the key and parsing
  it exactly, up to the base URL it keeps in the caller's spelling, with one documented
  addition: the spelling \<open>opencode-zen\<close>.
\<close>

theorem from_id_key_ignore_case_eq:
  "from_id_key_ignore_case s =
     (if to_ascii_lowercase s = ''opencode-zen'' then OpenCodeZen
      else case from_id_key (to_ascii_lowercase s) of OpenAICompatible _ \<Rightarrow> OpenAICompatible s | p \<Rightarrow> p)"
  by (simp add: from_id_key_ignore_case_def from_id_key_def eq_ignore_ascii_case_def lower_literals)

text \<open>
  The key a provider is stored under is parsed back to that provider by both parsers.
\<close>

lemma from_id_key_ignore_case_id_key:
  "known_provider p \<Longrightarrow> from_id_key_ignore_case (id_key p) = p"
  by (cases p) (simp_all add: known_provider_def from_id_key_ignore_case_def
      eq_ignore_ascii_case_def lower_literals)

section \<open>Hosts\<close>

text \<open>
  The canonical host of a provider is classified as that provider, on any path its API uses.
  Azure is reached under a resource prefix only, so its canonical host alone is not a request
  host; the two OpenCode gateways and Ollama are told apart by path.
\<close>

lemma from_host_path_case: "from_host_path (to_ascii_lowercase h) p = from_host_path h p"
  by (simp add: from_host_path_def)

definition api_path :: "provider \<Rightarrow> str \<Rightarrow> bool" where
  "api_path p path \<longleftrightarrow> (case p of
     OpenCode \<Rightarrow> starts_with path ''/zen/go''
   | OpenCodeZen \<Rightarrow> starts_with path ''/zen'' \<and> \<not> starts_with path ''/zen/go''
   | Ollama \<Rightarrow> starts_with path ''/api/''
   | AzureOpenAI \<Rightarrow> False
   | OpenAICompatible _ \<Rightarrow> False
   | _ \<Rightarrow> True)"

lemma from_host_path_canonical:
  "api_path p path \<Longrightarrow> from_host_path (canonical_host p) path = Some p"
  by (cases p) (simp_all add: api_path_def from_host_path_def Let_def to_ascii_lowercase_def
      to_ascii_lower_char_def is_ascii_uppercase_def ends_with_def starts_with_def)

end
