(* ===== verification/Usage.thy ===== *)
theory Usage
  imports Provider "HOL-Library.Multiset"
begin

text \<open>
  Token counters: \<open>crates/keplor-core/src/usage.rs\<close>. Eleven 32-bit counters, their saturating
  accumulation over the deltas of a stream, and the provider-dependent billable totals.
\<close>

record usage =
  input_tokens :: u32
  output_tokens :: u32
  cache_read_input_tokens :: u32
  cache_creation_input_tokens :: u32
  reasoning_tokens :: u32
  audio_input_tokens :: u32
  audio_output_tokens :: u32
  image_tokens :: u32
  video_seconds :: u32
  tool_use_tokens :: u32
  search_queries :: u32

definition usage_default :: usage where
  "usage_default = \<lparr> input_tokens = 0, output_tokens = 0, cache_read_input_tokens = 0,
     cache_creation_input_tokens = 0, reasoning_tokens = 0, audio_input_tokens = 0,
     audio_output_tokens = 0, image_tokens = 0, video_seconds = 0, tool_use_tokens = 0,
     search_queries = 0 \<rparr>"

definition merge :: "usage \<Rightarrow> usage \<Rightarrow> usage" where
  "merge self delta = \<lparr>
     input_tokens = u32_saturating_add (input_tokens self) (input_tokens delta),
     output_tokens = u32_saturating_add (output_tokens self) (output_tokens delta),
     cache_read_input_tokens =
       u32_saturating_add (cache_read_input_tokens self) (cache_read_input_tokens delta),
     cache_creation_input_tokens =
       u32_saturating_add (cache_creation_input_tokens self) (cache_creation_input_tokens delta),
     reasoning_tokens = u32_saturating_add (reasoning_tokens self) (reasoning_tokens delta),
     audio_input_tokens = u32_saturating_add (audio_input_tokens self) (audio_input_tokens delta),
     audio_output_tokens =
       u32_saturating_add (audio_output_tokens self) (audio_output_tokens delta),
     image_tokens = u32_saturating_add (image_tokens self) (image_tokens delta),
     video_seconds = u32_saturating_add (video_seconds self) (video_seconds delta),
     tool_use_tokens = u32_saturating_add (tool_use_tokens self) (tool_use_tokens delta),
     search_queries = u32_saturating_add (search_queries self) (search_queries delta) \<rparr>"

definition total_billable_input_tokens :: "usage \<Rightarrow> provider \<Rightarrow> u32" where
  "total_billable_input_tokens u p =
     (case p of
        Anthropic \<Rightarrow> u32_saturating_add (u32_saturating_add (input_tokens u)
            (cache_creation_input_tokens u)) (cache_read_input_tokens u)
      | Bedrock \<Rightarrow> u32_saturating_add (u32_saturating_add (input_tokens u)
            (cache_creation_input_tokens u)) (cache_read_input_tokens u)
      | _ \<Rightarrow> input_tokens u)"

definition total_output_tokens :: "usage \<Rightarrow> u32" where
  "total_output_tokens u = u32_saturating_add (output_tokens u) (reasoning_tokens u)"

section \<open>Accumulation\<close>

definition counters :: "(usage \<Rightarrow> u32) list" where
  "counters = [input_tokens, output_tokens, cache_read_input_tokens, cache_creation_input_tokens,
     reasoning_tokens, audio_input_tokens, audio_output_tokens, image_tokens, video_seconds,
     tool_use_tokens, search_queries]"

lemma counter_merge: "f \<in> set counters \<Longrightarrow> f (merge a b) = u32_saturating_add (f a) (f b)"
  by (auto simp: counters_def merge_def)

lemma usage_eq_counters: "(\<And>f. f \<in> set counters \<Longrightarrow> f a = f b) \<Longrightarrow> a = (b :: usage)"
  by (rule usage.equality) (simp_all add: counters_def)

lemma counter_fold_merge:
  assumes "f \<in> set counters"
  shows "unat (f (foldl merge u ds)) = min (unat (f u) + sum_list (map (unat \<circ> f) ds)) (2 ^ 32 - 1)"
proof (induction ds arbitrary: u)
  case Nil
  have "unat (f u) < 4294967296" by (rule unat_u32_less)
  then show ?case by simp
next
  case (Cons d ds)
  show ?case
    by (simp add: Cons.IH counter_merge [OF assms] unat_u32_saturating_add)
qed

text \<open>
  C33: accumulating the deltas of a stream leaves in each of the eleven counters the exact sum of
  that counter over the deltas, capped once at the largest 32-bit value: no delta is lost, no
  counter wraps, and no partial sum is capped early.
\<close>

theorem merge_stream_exact:
  "map (\<lambda>f. unat (f (foldl merge u ds))) counters =
   map (\<lambda>f. min (unat (f u) + sum_list (map (unat \<circ> f) ds)) (2 ^ 32 - 1)) counters"
  by (rule map_cong [OF refl]) (rule counter_fold_merge)

text \<open>The order in which the chunks of a stream are merged does not matter.\<close>

lemma merge_stream_order: "mset ds = mset ds' \<Longrightarrow> foldl merge u ds = foldl merge u ds'"
proof (rule usage_eq_counters)
  fix f assume "mset ds = mset ds'" and f: "f \<in> set counters"
  then have "sum_mset (mset (map (unat \<circ> f) ds)) = sum_mset (mset (map (unat \<circ> f) ds'))"
    by (simp only: mset_map)
  then have "sum_list (map (unat \<circ> f) ds) = sum_list (map (unat \<circ> f) ds')"
    by (simp only: sum_mset_sum_list)
  then have "unat (f (foldl merge u ds)) = unat (f (foldl merge u ds'))"
    using f by (simp add: counter_fold_merge)
  then show "f (foldl merge u ds) = f (foldl merge u ds')"
    by (simp add: word_unat_eq_iff)
qed

lemma billable_input:
  "unat (total_billable_input_tokens u p) =
     (if p = Anthropic \<or> p = Bedrock
      then min (unat (input_tokens u) + unat (cache_creation_input_tokens u)
        + unat (cache_read_input_tokens u)) (2 ^ 32 - 1)
      else unat (input_tokens u))"
  by (cases p) (simp_all add: total_billable_input_tokens_def unat_u32_saturating_add)

lemma billable_input_ge: "unat (input_tokens u) \<le> unat (total_billable_input_tokens u p)"
  using unat_u32_less [of "input_tokens u"] by (simp add: billable_input)

end
