(* ===== verification/Pricing_Model.thy ===== *)
theory Pricing_Model
  imports Prelude F64
begin

text \<open>
  The pricing record of a model and its conversion from the raw LiteLLM entry:
  \<open>crates/keplor-pricing/src/model.rs\<close>. Rates are nanodollars per unit.
\<close>

record model_pricing =
  input_cost_per_token :: i64
  output_cost_per_token :: i64
  cache_read_input_token_cost :: "i64 option"
  cache_creation_input_token_cost :: "i64 option"
  cache_creation_input_token_cost_above_1hr :: "i64 option"
  cache_creation_input_token_cost_above_200k_tokens :: "i64 option"
  output_cost_per_reasoning_token :: "i64 option"
  input_cost_per_image :: "i64 option"
  input_cost_per_audio_token :: "i64 option"
  input_cost_per_video_per_second :: "i64 option"
  input_cost_per_token_batches :: "i64 option"
  output_cost_per_token_batches :: "i64 option"
  search_context_cost_per_query :: "i64 option"
  input_cost_per_token_above_200k :: "i64 option"
  output_cost_per_token_above_200k :: "i64 option"
  cache_read_input_token_cost_above_200k :: "i64 option"
  tool_use_system_prompt_tokens :: "u32 option"
  max_input_tokens :: "u32 option"
  max_output_tokens :: "u32 option"
  supports_reasoning :: bool
  supports_prompt_caching :: bool
  supports_vision :: bool
  deprecation_date :: "str option"
  aliases :: "str list"
  inference_geo_multiplier :: "f64 option"
  litellm_provider :: str
  pricing_mode :: str

definition dollars_to_nanos :: "f64 \<Rightarrow> i64" where
  "dollars_to_nanos d = f64_to_i64 (f64_round_int (f64_mul d (Fin 1000000000)))"

definition opt_nanos :: "f64 option \<Rightarrow> i64 option" where
  "opt_nanos v = map_option dollars_to_nanos v"

datatype search_cost_raw =
    Flat f64
  | Tiered (search_context_size_medium: "f64 option") (search_context_size_high: "f64 option")
      (search_context_size_low: "f64 option")

definition opt_or :: "'a option \<Rightarrow> 'a option \<Rightarrow> 'a option" where
  "opt_or a b = (case a of None \<Rightarrow> b | Some _ \<Rightarrow> a)"

definition unwrap_or :: "'a \<Rightarrow> 'a option \<Rightarrow> 'a" where
  "unwrap_or d v = (case v of None \<Rightarrow> d | Some x \<Rightarrow> x)"

lemma unwrap_or_simps [simp]: "unwrap_or d None = d" "unwrap_or d (Some x) = x"
  by (simp_all add: unwrap_or_def)

fun search_to_nanos :: "search_cost_raw \<Rightarrow> i64" where
  "search_to_nanos (Flat v) = dollars_to_nanos v"
| "search_to_nanos (Tiered medium high low) =
     dollars_to_nanos (unwrap_or (Fin 0) (opt_or (opt_or medium high) low))"

datatype json_int = Num u32 | Str str

fun json_int_as_u32 :: "json_int \<Rightarrow> u32 option" where
  "json_int_as_u32 (Num n) = Some n"
| "json_int_as_u32 (Str _) = None"

record raw_entry =
  raw_input_cost_per_token :: "f64 option"
  raw_output_cost_per_token :: "f64 option"
  raw_cache_read_input_token_cost :: "f64 option"
  raw_cache_creation_input_token_cost :: "f64 option"
  raw_cache_creation_input_token_cost_above_1hr :: "f64 option"
  raw_cache_creation_input_token_cost_above_200k_tokens :: "f64 option"
  raw_output_cost_per_reasoning_token :: "f64 option"
  raw_input_cost_per_image :: "f64 option"
  raw_input_cost_per_audio_token :: "f64 option"
  raw_input_cost_per_video_per_second :: "f64 option"
  raw_input_cost_per_token_batches :: "f64 option"
  raw_output_cost_per_token_batches :: "f64 option"
  raw_search_context_cost_per_query :: "search_cost_raw option"
  raw_input_cost_per_token_above_200k_tokens :: "f64 option"
  raw_output_cost_per_token_above_200k_tokens :: "f64 option"
  raw_cache_read_input_token_cost_above_200k_tokens :: "f64 option"
  raw_tool_use_system_prompt_tokens :: "u32 option"
  raw_max_input_tokens :: "json_int option"
  raw_max_output_tokens :: "json_int option"
  raw_supports_reasoning :: "bool option"
  raw_supports_prompt_caching :: "bool option"
  raw_supports_vision :: "bool option"
  raw_deprecation_date :: "str option"
  raw_litellm_provider :: "str option"
  raw_mode :: "str option"

definition into_pricing :: "raw_entry \<Rightarrow> model_pricing" where
  "into_pricing e = \<lparr>
     input_cost_per_token = dollars_to_nanos (unwrap_or (Fin 0) (raw_input_cost_per_token e)),
     output_cost_per_token = dollars_to_nanos (unwrap_or (Fin 0) (raw_output_cost_per_token e)),
     cache_read_input_token_cost = opt_nanos (raw_cache_read_input_token_cost e),
     cache_creation_input_token_cost = opt_nanos (raw_cache_creation_input_token_cost e),
     cache_creation_input_token_cost_above_1hr =
       opt_nanos (raw_cache_creation_input_token_cost_above_1hr e),
     cache_creation_input_token_cost_above_200k_tokens =
       opt_nanos (raw_cache_creation_input_token_cost_above_200k_tokens e),
     output_cost_per_reasoning_token = opt_nanos (raw_output_cost_per_reasoning_token e),
     input_cost_per_image = opt_nanos (raw_input_cost_per_image e),
     input_cost_per_audio_token = opt_nanos (raw_input_cost_per_audio_token e),
     input_cost_per_video_per_second = opt_nanos (raw_input_cost_per_video_per_second e),
     input_cost_per_token_batches = opt_nanos (raw_input_cost_per_token_batches e),
     output_cost_per_token_batches = opt_nanos (raw_output_cost_per_token_batches e),
     search_context_cost_per_query =
       map_option search_to_nanos (raw_search_context_cost_per_query e),
     input_cost_per_token_above_200k = opt_nanos (raw_input_cost_per_token_above_200k_tokens e),
     output_cost_per_token_above_200k = opt_nanos (raw_output_cost_per_token_above_200k_tokens e),
     cache_read_input_token_cost_above_200k =
       opt_nanos (raw_cache_read_input_token_cost_above_200k_tokens e),
     tool_use_system_prompt_tokens = raw_tool_use_system_prompt_tokens e,
     max_input_tokens = Option.bind (raw_max_input_tokens e) json_int_as_u32,
     max_output_tokens = Option.bind (raw_max_output_tokens e) json_int_as_u32,
     supports_reasoning = unwrap_or False (raw_supports_reasoning e),
     supports_prompt_caching = unwrap_or False (raw_supports_prompt_caching e),
     supports_vision = unwrap_or False (raw_supports_vision e),
     deprecation_date = raw_deprecation_date e,
     aliases = [],
     inference_geo_multiplier = None,
     litellm_provider = unwrap_or ''unknown'' (raw_litellm_provider e),
     pricing_mode = unwrap_or ''chat'' (raw_mode e) \<rparr>"

definition zeroed :: model_pricing where
  "zeroed = \<lparr>
     input_cost_per_token = 0, output_cost_per_token = 0, cache_read_input_token_cost = None,
     cache_creation_input_token_cost = None, cache_creation_input_token_cost_above_1hr = None,
     cache_creation_input_token_cost_above_200k_tokens = None,
     output_cost_per_reasoning_token = None, input_cost_per_image = None,
     input_cost_per_audio_token = None, input_cost_per_video_per_second = None,
     input_cost_per_token_batches = None, output_cost_per_token_batches = None,
     search_context_cost_per_query = None, input_cost_per_token_above_200k = None,
     output_cost_per_token_above_200k = None, cache_read_input_token_cost_above_200k = None,
     tool_use_system_prompt_tokens = None, max_input_tokens = None, max_output_tokens = None,
     supports_reasoning = False, supports_prompt_caching = False, supports_vision = False,
     deprecation_date = None, aliases = [], inference_geo_multiplier = None,
     litellm_provider = ''unknown'', pricing_mode = ''chat'' \<rparr>"

section \<open>Rates\<close>

lemma is_i64_f64_to_i64 [range_intros]: "is_i64 (f64_to_i64 v)"
proof (cases v)
  case (Fin x)
  then show ?thesis by (simp add: is_i64_sat)
qed (simp_all add: is_i64_def i64_bounds_num)

lemma rat_trunc_of_int [simp]: "rat_trunc (of_int n) = n"
  by (simp add: rat_trunc_def)

lemma round_half_away_near:
  assumes "\<bar>s - of_int n\<bar> < 1 / 2"
  shows "round_half_away s = n"
proof -
  have b: "of_int n - 1 / 2 < s" "s < of_int n + 1 / 2"
    using assms by linarith+
  have "\<lfloor>- s + 1 / 2\<rfloor> = - n" "\<lfloor>s + 1 / 2\<rfloor> = n"
    by (rule floor_unique; use b in simp)+
  then show ?thesis by (simp add: round_half_away_def)
qed

lemma normal_range: "1 / 2 ^ 100 \<le> \<bar>x\<bar> \<Longrightarrow> 2 powi (- 1022) \<le> \<bar>x :: rat\<bar>"
proof -
  assume x: "1 / 2 ^ 100 \<le> \<bar>x\<bar>"
  have "(2 :: rat) powi (- 1022) \<le> 2 powi (- 100)"
    by (rule power_int_increasing) simp_all
  also have "\<dots> = 1 / 2 ^ 100"
    by (simp add: power_int_minus inverse_eq_divide)
  finally show ?thesis using x by linarith
qed

lemma below_huge: "\<bar>x\<bar> < 2 ^ 100 \<Longrightarrow> \<bar>x :: rat\<bar> < 2 ^ 1023"
proof -
  assume x: "\<bar>x\<bar> < 2 ^ 100"
  have "(2 :: rat) ^ 100 \<le> 2 ^ 1023"
    by (rule power_increasing) simp_all
  with x show ?thesis by linarith
qed

lemma nano_two_roundings:
  assumes "1 \<le> N" and "N < 2 ^ 50"
  obtains s where "f64_mul (f64_round (N / 1000000000)) (Fin 1000000000) = Fin s"
    and "\<bar>s - N\<bar> < 1 / 2"
proof -
  define x where "x = N / 1000000000"
  have x: "1 / 2 ^ 100 \<le> \<bar>x\<bar>" "\<bar>x\<bar> < 2 ^ 100"
    using assms by (simp_all add: x_def)
  obtain r where r: "f64_round x = Fin r" "\<bar>r - x\<bar> \<le> \<bar>x\<bar> / 2 ^ 53"
    using f64_round_rel [OF normal_range [OF x(1)] below_huge [OF x(2)]] .
  define y where "y = r * 1000000000"
  have y: "\<bar>y - N\<bar> \<le> N / 2 ^ 53"
    using r(2) assms by (simp add: y_def x_def abs_le_iff field_simps)
  then have "y \<le> N + N / 2 ^ 53" "N - N / 2 ^ 53 \<le> y"
    by linarith+
  with assms have yN: "1 / 2 \<le> y" "y \<le> 2 * N" "\<bar>y\<bar> = y"
    by simp_all
  then have y': "1 / 2 ^ 100 \<le> \<bar>y\<bar>" "\<bar>y\<bar> < 2 ^ 100"
    using assms by simp_all
  obtain s where s: "f64_round y = Fin s" "\<bar>s - y\<bar> \<le> \<bar>y\<bar> / 2 ^ 53"
    using f64_round_rel [OF normal_range [OF y'(1)] below_huge [OF y'(2)]] .
  have "\<bar>s - y\<bar> \<le> 2 * N / 2 ^ 53"
    using s(2) yN by (simp add: field_simps)
  with y have "\<bar>s - N\<bar> \<le> N / 2 ^ 53 + 2 * N / 2 ^ 53"
    by linarith
  also have "\<dots> = 3 * N / 2 ^ 53"
    by simp
  finally have "\<bar>s - N\<bar> \<le> 3 * N / 2 ^ 53" .
  moreover have "3 * N / 2 ^ 53 < 1 / 2"
    using assms by simp
  ultimately have "\<bar>s - N\<bar> < 1 / 2"
    by linarith
  then show ?thesis
    using that [of s] s(1) r(1) by (simp add: x_def y_def)
qed

text \<open>
  C30: a rate that is a whole number of nanodollars (below \<open>2 ^ 50\<close>, over a million dollars per
  unit) survives the detour through the nearest double and the multiplication by \<open>1e9\<close>
  exactly: the two roundings never shift it to a neighbouring integer.
\<close>

theorem dollars_to_nanos_exact:
  assumes "0 \<le> n" and "n < 2 ^ 50"
  shows "dollars_to_nanos (f64_round (of_int n / 1000000000)) = n"
proof (cases "n = 0")
  case True
  then show ?thesis
    using round_half_away_near [of 0 0]
    by (simp add: dollars_to_nanos_def rat_trunc_def sat_i64_def i64_bounds_num)
next
  case False
  have "(of_int n :: rat) < of_int (2 ^ 50)"
    using assms(2) by (simp only: of_int_less_iff)
  then obtain s where s: "f64_mul (f64_round (of_int n / 1000000000)) (Fin 1000000000) = Fin s"
    "\<bar>s - of_int n\<bar> < 1 / 2"
    using nano_two_roundings [of "of_int n"] assms(1) False by auto
  then show ?thesis
    using assms by (simp add: dollars_to_nanos_def round_half_away_near sat_i64_def i64_bounds_num)
qed

theorem dollars_to_nanos_exact_witness:
  "dollars_to_nanos (f64_round (of_int 3000 / 1000000000)) = 3000"
  by (rule dollars_to_nanos_exact) simp_all

end
