(* ===== verification/Compute.thy ===== *)
theory Compute
  imports Cost Usage Pricing_Model
begin

text \<open>
  The cost engine: \<open>crates/keplor-pricing/src/compute.rs\<close>.
\<close>

datatype service_tier = TierStandard | Flex | Priority
datatype inference_geo = Us | NonUs
datatype cache_ttl = Minutes5 | Hours1
datatype context_bucket = ContextStandard | Above200k

record cost_opts =
  is_batch :: bool
  opts_service_tier :: service_tier
  opts_inference_geo :: inference_geo
  opts_cache_ttl :: cache_ttl
  opts_context_bucket :: context_bucket

definition cost_opts_default :: cost_opts where
  "cost_opts_default = \<lparr> is_batch = False, opts_service_tier = TierStandard,
     opts_inference_geo = Us, opts_cache_ttl = Minutes5, opts_context_bucket = ContextStandard \<rparr>"

definition pick_input_rate :: "model_pricing \<Rightarrow> cost_opts \<Rightarrow> i64" where
  "pick_input_rate p opts =
     (case (if is_batch opts then input_cost_per_token_batches p else None) of
        Some r \<Rightarrow> r
      | None \<Rightarrow>
          (case (if opts_context_bucket opts = Above200k
                 then input_cost_per_token_above_200k p else None) of
             Some r \<Rightarrow> r
           | None \<Rightarrow> input_cost_per_token p))"

definition pick_output_rate :: "model_pricing \<Rightarrow> cost_opts \<Rightarrow> i64" where
  "pick_output_rate p opts =
     (case (if is_batch opts then output_cost_per_token_batches p else None) of
        Some r \<Rightarrow> r
      | None \<Rightarrow>
          (case (if opts_context_bucket opts = Above200k
                 then output_cost_per_token_above_200k p else None) of
             Some r \<Rightarrow> r
           | None \<Rightarrow> output_cost_per_token p))"

definition pick_cache_read_rate :: "model_pricing \<Rightarrow> cost_opts \<Rightarrow> i64" where
  "pick_cache_read_rate p opts =
     (case (if opts_context_bucket opts = Above200k
            then cache_read_input_token_cost_above_200k p else None) of
        Some r \<Rightarrow> r
      | None \<Rightarrow> unwrap_or (input_cost_per_token p) (cache_read_input_token_cost p))"

definition pick_cache_create_rate :: "model_pricing \<Rightarrow> cost_opts \<Rightarrow> i64" where
  "pick_cache_create_rate p opts =
     (case (if opts_context_bucket opts = Above200k
            then cache_creation_input_token_cost_above_200k_tokens p else None) of
        Some r \<Rightarrow> r
      | None \<Rightarrow>
          (case (if opts_cache_ttl opts = Hours1
                 then cache_creation_input_token_cost_above_1hr p else None) of
             Some r \<Rightarrow> r
           | None \<Rightarrow> unwrap_or (input_cost_per_token p) (cache_creation_input_token_cost p)))"

definition mul_tokens :: "u32 \<Rightarrow> i64 \<Rightarrow> i64" where
  "mul_tokens tokens nanos_per_token = sat_i64 (int (unat tokens) * nanos_per_token)"

definition saturating_add :: "i64 \<Rightarrow> i64 \<Rightarrow> i64" where
  "saturating_add a b = sat_i64 (a + b)"

definition add_opt :: "i64 \<Rightarrow> u32 \<Rightarrow> i64 option \<Rightarrow> i64" where
  "add_opt acc tokens rate =
     (case rate of None \<Rightarrow> acc | Some r \<Rightarrow> saturating_add acc (mul_tokens tokens r))"

definition compute_cost :: "provider \<Rightarrow> model_pricing \<Rightarrow> usage \<Rightarrow> cost_opts \<Rightarrow> cost" where
  "compute_cost p pr u opts =
     (let total = 0;
          input_rate = pick_input_rate pr opts;
          output_rate = pick_output_rate pr opts;
          total =
            (if p = Anthropic \<or> p = Bedrock
             then
               (let total = saturating_add total (mul_tokens (input_tokens u) input_rate);
                    cache_read_rate = pick_cache_read_rate pr opts;
                    total = saturating_add total
                      (mul_tokens (cache_read_input_tokens u) cache_read_rate);
                    cache_create_rate = pick_cache_create_rate pr opts
                in saturating_add total
                     (mul_tokens (cache_creation_input_tokens u) cache_create_rate))
             else
               (let uncached = u32_saturating_sub (input_tokens u) (cache_read_input_tokens u);
                    total = saturating_add total (mul_tokens uncached input_rate);
                    cache_read_rate = unwrap_or input_rate (cache_read_input_token_cost pr);
                    total = saturating_add total
                      (mul_tokens (cache_read_input_tokens u) cache_read_rate)
                in add_opt total (cache_creation_input_tokens u)
                     (cache_creation_input_token_cost pr)));
          total = saturating_add total (mul_tokens (output_tokens u) output_rate);
          reasoning_rate = unwrap_or output_rate (output_cost_per_reasoning_token pr);
          total = saturating_add total (mul_tokens (reasoning_tokens u) reasoning_rate);
          total = add_opt total (audio_input_tokens u) (input_cost_per_audio_token pr);
          total = add_opt total (video_seconds u) (input_cost_per_video_per_second pr);
          total = add_opt total (search_queries u) (search_context_cost_per_query pr);
          total =
            (case inference_geo_multiplier pr of
               None \<Rightarrow> total
             | Some factor \<Rightarrow>
                 if opts_inference_geo opts = NonUs
                 then f64_to_i64 (f64_round_int (f64_mul (f64_of_int total) factor))
                 else total)
      in from_nanodollars total)"

section \<open>The bill\<close>

text \<open>
  What a request is billed for, as a price list: each line is a quantity and a unit price.
  \<open>opt_line\<close> is a dimension the model does not price when it has no rate.
\<close>

definition opt_line :: "u32 \<Rightarrow> i64 option \<Rightarrow> (nat \<times> i64) list" where
  "opt_line n rate = (case rate of None \<Rightarrow> [] | Some r \<Rightarrow> [(unat n, r)])"

definition input_lines :: "provider \<Rightarrow> model_pricing \<Rightarrow> usage \<Rightarrow> cost_opts \<Rightarrow> (nat \<times> i64) list" where
  "input_lines p pr u opts =
     (if p = Anthropic \<or> p = Bedrock
      then [(unat (input_tokens u), pick_input_rate pr opts),
            (unat (cache_read_input_tokens u), pick_cache_read_rate pr opts),
            (unat (cache_creation_input_tokens u), pick_cache_create_rate pr opts)]
      else [(unat (input_tokens u) - unat (cache_read_input_tokens u), pick_input_rate pr opts),
            (unat (cache_read_input_tokens u),
               unwrap_or (pick_input_rate pr opts) (cache_read_input_token_cost pr))]
           @ opt_line (cache_creation_input_tokens u) (cache_creation_input_token_cost pr))"

definition output_lines :: "model_pricing \<Rightarrow> usage \<Rightarrow> cost_opts \<Rightarrow> (nat \<times> i64) list" where
  "output_lines pr u opts =
     [(unat (output_tokens u), pick_output_rate pr opts),
      (unat (reasoning_tokens u),
         unwrap_or (pick_output_rate pr opts) (output_cost_per_reasoning_token pr))]
     @ opt_line (audio_input_tokens u) (input_cost_per_audio_token pr)
     @ opt_line (video_seconds u) (input_cost_per_video_per_second pr)
     @ opt_line (search_queries u) (search_context_cost_per_query pr)"

definition bill :: "provider \<Rightarrow> model_pricing \<Rightarrow> usage \<Rightarrow> cost_opts \<Rightarrow> (nat \<times> i64) list" where
  "bill p pr u opts = input_lines p pr u opts @ output_lines pr u opts"

definition bill_total :: "(nat \<times> i64) list \<Rightarrow> int" where
  "bill_total ls = sum_list (map (\<lambda>(n, r). int n * r) ls)"

definition charge :: "i64 \<Rightarrow> nat \<times> i64 \<Rightarrow> i64" where
  "charge acc l = saturating_add acc (sat_i64 (int (fst l) * snd l))"

definition charge_all :: "i64 \<Rightarrow> (nat \<times> i64) list \<Rightarrow> i64" where
  "charge_all acc ls = foldl charge acc ls"

lemma charge_all_simps [simp]:
  "charge_all t [] = t" "charge_all t (l # ls) = charge_all (charge t l) ls"
  by (simp_all add: charge_all_def)

lemma charge_all_append: "charge_all t (xs @ ys) = charge_all (charge_all t xs) ys"
  by (simp add: charge_all_def)

lemma add_opt_line: "add_opt t n r = charge_all t (opt_line n r)"
  by (simp add: add_opt_def opt_line_def charge_def mul_tokens_def split: option.splits)

definition geo_adjust :: "model_pricing \<Rightarrow> cost_opts \<Rightarrow> i64 \<Rightarrow> i64" where
  "geo_adjust pr opts acc =
     (case inference_geo_multiplier pr of
        Some factor \<Rightarrow> if opts_inference_geo opts = NonUs
          then f64_to_i64 (f64_round_int (f64_mul (f64_of_int acc) factor)) else acc
      | None \<Rightarrow> acc)"

lemma compute_cost_charge_all:
  "nanodollars (compute_cost p pr u opts) = geo_adjust pr opts (charge_all 0 (bill p pr u opts))"
  by (simp add: compute_cost_def Let_def from_nanodollars_def bill_def input_lines_def
      output_lines_def charge_all_append add_opt_line charge_def mul_tokens_def
      unat_u32_saturating_sub [symmetric] geo_adjust_def split: option.splits)

definition nonneg_rates :: "model_pricing \<Rightarrow> bool" where
  "nonneg_rates pr \<longleftrightarrow>
     0 \<le> input_cost_per_token pr \<and> 0 \<le> output_cost_per_token pr \<and>
     list_all (\<lambda>r. 0 \<le> unwrap_or 0 r)
       [cache_read_input_token_cost pr, cache_creation_input_token_cost pr,
        cache_creation_input_token_cost_above_1hr pr,
        cache_creation_input_token_cost_above_200k_tokens pr,
        output_cost_per_reasoning_token pr, input_cost_per_audio_token pr,
        input_cost_per_video_per_second pr, input_cost_per_token_batches pr,
        output_cost_per_token_batches pr, search_context_cost_per_query pr,
        input_cost_per_token_above_200k pr, output_cost_per_token_above_200k pr,
        cache_read_input_token_cost_above_200k pr]"

lemma unwrap_or_nonneg: "0 \<le> unwrap_or (0 :: int) r \<Longrightarrow> 0 \<le> d \<Longrightarrow> 0 \<le> unwrap_or d r"
  by (cases r) simp_all

lemma tier_nonneg:
  "0 \<le> unwrap_or (0 :: int) r \<Longrightarrow> 0 \<le> d \<Longrightarrow>
     0 \<le> (case (if c then r else None) of None \<Rightarrow> d | Some x \<Rightarrow> x)"
  by (cases r) simp_all

lemma pick_rates_nonneg:
  assumes "nonneg_rates pr"
  shows "0 \<le> pick_input_rate pr opts" "0 \<le> pick_output_rate pr opts"
    "0 \<le> pick_cache_read_rate pr opts" "0 \<le> pick_cache_create_rate pr opts"
proof -
  note nn = assms [unfolded nonneg_rates_def list.pred_inject]
  show "0 \<le> pick_input_rate pr opts" "0 \<le> pick_output_rate pr opts"
    unfolding pick_input_rate_def pick_output_rate_def using nn by (intro tier_nonneg; blast)+
  have "0 \<le> unwrap_or (input_cost_per_token pr) (cache_read_input_token_cost pr)"
    "0 \<le> unwrap_or (input_cost_per_token pr) (cache_creation_input_token_cost pr)"
    using nn by (blast intro: unwrap_or_nonneg)+
  then show "0 \<le> pick_cache_read_rate pr opts" "0 \<le> pick_cache_create_rate pr opts"
    unfolding pick_cache_read_rate_def pick_cache_create_rate_def
    using nn by (intro tier_nonneg; blast)+
qed

lemma opt_line_nonneg: "0 \<le> unwrap_or 0 r \<Longrightarrow> list_all (\<lambda>l. 0 \<le> snd l) (opt_line n r)"
  by (auto simp: opt_line_def split: option.splits)

lemma bill_nonneg:
  assumes "nonneg_rates pr"
  shows "list_all (\<lambda>l. 0 \<le> snd l) (bill p pr u opts)"
proof -
  have "list_all (\<lambda>l. 0 \<le> snd l) (input_lines p pr u opts)"
    using assms pick_rates_nonneg [OF assms, of opts]
    by (simp add: input_lines_def nonneg_rates_def opt_line_nonneg unwrap_or_nonneg)
  moreover have "list_all (\<lambda>l. 0 \<le> snd l) (output_lines pr u opts)"
    using assms pick_rates_nonneg [OF assms, of opts]
    by (simp add: output_lines_def nonneg_rates_def opt_line_nonneg unwrap_or_nonneg)
  ultimately show ?thesis
    by (simp add: bill_def)
qed

lemma charge_all_exact:
  assumes "list_all (\<lambda>l. 0 \<le> snd l) ls"
  shows "charge_all 0 ls = min i64_max (bill_total ls)"
proof -
  have nn: "0 \<le> x" if "x \<in> set (map (\<lambda>(n, r). int n * r) ls)" for x
    using that assms by (fastforce simp: list_all_iff)
  have "charge_all (sat_i64 a) ls = sat_i64 (a + bill_total ls)" if "0 \<le> a" for a
    using assms that
  proof (induction ls arbitrary: a)
    case Nil
    then show ?case by (simp add: bill_total_def)
  next
    case (Cons l ls)
    have pos: "0 \<le> int (fst l) * snd l"
      using Cons.prems by simp
    then have "charge (sat_i64 a) l = sat_i64 (a + int (fst l) * snd l)"
      using Cons.prems
      by (simp add: charge_def saturating_add_def i64.sat_add_left i64.sat_add_right i64.sat_nonneg)
    moreover have "charge_all (sat_i64 (a + int (fst l) * snd l)) ls =
        sat_i64 (a + int (fst l) * snd l + bill_total ls)"
      using Cons.prems pos by (intro Cons.IH) auto
    ultimately show ?case
      by (simp add: bill_total_def case_prod_unfold add.assoc)
  qed
  from this [of 0] have "charge_all 0 ls = sat_i64 (bill_total ls)"
    by (simp add: i64.sat_zero)
  moreover have "0 \<le> bill_total ls"
    unfolding bill_total_def using nn by (rule sum_list_nonneg)
  ultimately show ?thesis
    by (simp add: sat_i64_def i64_bounds_num)
qed

text \<open>
  C4: with non-negative rates and no geographic surcharge in force, the computed cost is the
  exact total of the bill capped at the largest \<open>i64\<close>: Anthropic and Bedrock pay input, cache
  read and cache creation as separate lines, every other provider pays cache reads out of its
  input tokens, and output, reasoning, audio, video and search follow. No product and no
  partial sum wraps.
\<close>

theorem compute_cost_exact:
  assumes "nonneg_rates pr" and "inference_geo_multiplier pr = None \<or> opts_inference_geo opts = Us"
  shows "nanodollars (compute_cost p pr u opts) = min i64_max (bill_total (bill p pr u opts))"
proof -
  have "geo_adjust pr opts t = t" for t
    using assms(2) by (auto simp: geo_adjust_def split: option.splits)
  then show ?thesis
    by (simp add: compute_cost_charge_all charge_all_exact [OF bill_nonneg [OF assms(1)]])
qed

definition claude_pricing :: model_pricing where
  "claude_pricing = zeroed \<lparr> input_cost_per_token := 3000, output_cost_per_token := 15000,
     cache_read_input_token_cost := Some 300, cache_creation_input_token_cost := Some 3750 \<rparr>"

theorem compute_cost_exact_witness:
  "nanodollars (compute_cost Anthropic claude_pricing
     (usage_default \<lparr> input_tokens := 100, output_tokens := 200, cache_read_input_tokens := 500,
        cache_creation_input_tokens := 50 \<rparr>) cost_opts_default) = 3637500"
proof -
  have "nonneg_rates claude_pricing" "inference_geo_multiplier claude_pricing = None"
    by (simp_all add: nonneg_rates_def claude_pricing_def zeroed_def)
  then show ?thesis
    by (simp add: compute_cost_exact bill_total_def bill_def input_lines_def output_lines_def
        opt_line_def claude_pricing_def zeroed_def usage_default_def cost_opts_default_def
        pick_input_rate_def pick_output_rate_def pick_cache_read_rate_def
        pick_cache_create_rate_def i64_bounds_num)
qed

end
