(* ===== verification/Json.thy ===== *)
theory Json
  imports Prelude F64
begin

text \<open>
  The JSON values the code inspects (\<open>serde_json::Value\<close>): its accessors \<open>get\<close>,
  \<open>pointer\<close> and \<open>as_*\<close> as the code uses them. Printing and parsing of JSON text is the
  \<open>serde_json\<close> crate, a parameter wherever the code calls it.
\<close>

datatype json_number = PosInt u64 | NegInt i64 | Float f64

datatype json =
    JNull | JBool bool | JNumber json_number | JString str | JArray "json list"
  | JObject "(str \<times> json) list"

fun json_get :: "json \<Rightarrow> str \<Rightarrow> json option" where
  "json_get (JObject m) k = map_of m k"
| "json_get _ k = None"

text \<open>\<open>Value::pointer\<close> on a pointer whose segments name object members.\<close>

fun json_pointer :: "json \<Rightarrow> str list \<Rightarrow> json option" where
  "json_pointer v [] = Some v"
| "json_pointer v (k # ks) =
     (case json_get v k of None \<Rightarrow> None | Some w \<Rightarrow> json_pointer w ks)"

fun json_as_str :: "json \<Rightarrow> str option" where
  "json_as_str (JString s) = Some s"
| "json_as_str _ = None"

fun json_as_u64 :: "json \<Rightarrow> u64 option" where
  "json_as_u64 (JNumber (PosInt n)) = Some n"
| "json_as_u64 _ = None"

fun json_as_object :: "json \<Rightarrow> (str \<times> json) list option" where
  "json_as_object (JObject m) = Some m"
| "json_as_object _ = None"

end
