(* ===== verification/Catalog.thy ===== *)
theory Catalog
  imports Pricing_Model Json
begin

text \<open>
  The pricing index: \<open>crates/keplor-pricing/src/catalog.rs\<close>. Reading the JSON bytes and
  decoding one entry is \<open>serde_json\<close>: the parameters \<open>parse\<close> and \<open>decode\<close>. The list
  \<open>parse\<close> returns stands for the iteration order of the hash map the code parses into, so
  every theorem holds for every order.
\<close>

datatype model_key = ModelKey (key_str: str)

definition model_key_new :: "str \<Rightarrow> model_key" where
  "model_key_new raw = ModelKey (to_ascii_lowercase raw)"

definition from_normalized :: "str \<Rightarrow> model_key" where
  "from_normalized s = ModelKey s"

datatype pricing_error = ParseError str | ModelNotFound str | CatalogIo str str | CatalogFetch str

fun pricing_error_fmt :: "pricing_error \<Rightarrow> str" where
  "pricing_error_fmt (ParseError reason) = ''failed to parse pricing catalog: '' @ reason"
| "pricing_error_fmt (ModelNotFound k) = ''model not found in pricing catalog: '' @ k"
| "pricing_error_fmt (CatalogIo path e) = ''failed to read catalog from '' @ path @ '': '' @ e"
| "pricing_error_fmt (CatalogFetch e) = ''failed to fetch remote catalog: '' @ e"

record catalog =
  entries :: "(model_key \<times> model_pricing) list"

definition catalog_len :: "catalog \<Rightarrow> usize" where
  "catalog_len c = length (entries c)"

definition catalog_is_empty :: "catalog \<Rightarrow> bool" where
  "catalog_is_empty c \<longleftrightarrow> entries c = []"

section \<open>Date suffixes\<close>

definition run_and :: "bool run \<Rightarrow> bool run \<Rightarrow> bool run" where
  "run_and a b = run_bind a (\<lambda>x. if x then b else Ret False)"

definition all_digits :: "str \<Rightarrow> bool" where
  "all_digits s \<longleftrightarrow> list_all is_ascii_digit s"

definition slice_digits :: "str \<Rightarrow> nat \<Rightarrow> nat \<Rightarrow> bool run" where
  "slice_digits s a b = run_bind (str_slice s a b) (\<lambda>t. Ret (all_digits t))"

definition strip_date_suffix :: "str \<Rightarrow> str option run" where
  "strip_date_suffix s =
     run_bind
       (if 11 < length s
        then run_bind (str_slice s (length s - 11) (length s)) (\<lambda>tail.
          run_and (Ret (starts_with tail ''-''))
           (run_and (slice_digits tail 1 5)
             (run_and (Ret (tail ! 5 = CHR ''-''))
               (run_and (slice_digits tail 6 8)
                 (run_and (Ret (tail ! 8 = CHR ''-''))
                   (slice_digits tail 9 11))))))
        else Ret False)
       (\<lambda>dashed. if dashed
          then run_bind (str_slice s 0 (length s - 11)) (\<lambda>base. Ret (Some base))
          else run_bind
            (if 9 < length s
             then run_bind (str_slice s (length s - 9) (length s)) (\<lambda>tail.
               run_and (Ret (starts_with tail ''-'')) (slice_digits tail 1 (length tail)))
             else Ret False)
            (\<lambda>plain. if plain
               then run_bind (str_slice s 0 (length s - 9)) (\<lambda>base. Ret (Some base))
               else Ret None))"

section \<open>Loading\<close>

definition or_insert :: "model_key \<Rightarrow> model_pricing \<Rightarrow> (model_key \<times> model_pricing) list
    \<Rightarrow> (model_key \<times> model_pricing) list" where
  "or_insert k p m = map_or_insert k p m"

text \<open>\<open>if let Some(base) = strip_date_suffix(s) { entries.entry(base).or_insert(..) }\<close>\<close>

definition insert_stripped :: "str \<Rightarrow> model_pricing \<Rightarrow> (model_key \<times> model_pricing) list
    \<Rightarrow> (model_key \<times> model_pricing) list run" where
  "insert_stripped s p m =
     run_bind (strip_date_suffix s) (\<lambda>b. case b of
         Some base \<Rightarrow> Ret (or_insert (model_key_new base) p m)
       | None \<Rightarrow> Ret m)"

definition index_entry :: "(json \<Rightarrow> raw_entry option) \<Rightarrow> str \<times> json
    \<Rightarrow> (model_key \<times> model_pricing) list \<Rightarrow> (model_key \<times> model_pricing) list run" where
  "index_entry decode kv m =
     (if fst kv = ''sample_spec'' then Ret m
      else case decode (snd kv) of
        None \<Rightarrow> Ret m
      | Some entry \<Rightarrow>
          if raw_input_cost_per_token entry = None \<and> raw_output_cost_per_token entry = None
          then Ret m
          else
            (let pricing = into_pricing entry;
                 canonical = model_key_new (fst kv);
                 m = map_put canonical pricing m
             in run_bind (insert_stripped (key_str canonical) pricing m) (\<lambda>m.
                  case split_once (key_str canonical) (CHR ''/'') of
                    None \<Rightarrow> Ret m
                  | Some (prefix, suffix) \<Rightarrow>
                      insert_stripped suffix pricing
                        (or_insert (model_key_new suffix) pricing m))))"

fun index_all :: "(json \<Rightarrow> raw_entry option) \<Rightarrow> (str \<times> json) list
    \<Rightarrow> (model_key \<times> model_pricing) list \<Rightarrow> (model_key \<times> model_pricing) list run" where
  "index_all decode [] m = Ret m"
| "index_all decode (kv # raw) m = run_bind (index_entry decode kv m) (index_all decode raw)"

definition from_json :: "(str \<Rightarrow> str + (str \<times> json) list) \<Rightarrow> (json \<Rightarrow> raw_entry option)
    \<Rightarrow> str \<Rightarrow> (pricing_error + catalog) run" where
  "from_json parse decode bytes =
     (case parse bytes of
        Inl reason \<Rightarrow> Ret (Inl (ParseError reason))
      | Inr raw \<Rightarrow> run_bind (index_all decode raw []) (\<lambda>m. Ret (Inr \<lparr> entries = m \<rparr>)))"

text \<open>The bundled bytes, the bytes read from a path and the body of a response are arguments.\<close>

definition load_bundled :: "(str \<Rightarrow> str + (str \<times> json) list) \<Rightarrow> (json \<Rightarrow> raw_entry option) \<Rightarrow> str \<Rightarrow>
    (pricing_error + catalog) run" where
  "load_bundled parse decode bundled_json = from_json parse decode bundled_json"

definition load_from_disk :: "(str \<Rightarrow> str + (str \<times> json) list) \<Rightarrow> (json \<Rightarrow> raw_entry option) \<Rightarrow>
    (str \<Rightarrow> str + str) \<Rightarrow> str \<Rightarrow> (pricing_error + catalog) run" where
  "load_from_disk parse decode read_path path =
     (case read_path path of
        Inl e \<Rightarrow> Ret (Inl (CatalogIo path e))
      | Inr bytes \<Rightarrow> from_json parse decode bytes)"

definition fetch_latest :: "(str \<Rightarrow> str + (str \<times> json) list) \<Rightarrow> (json \<Rightarrow> raw_entry option) \<Rightarrow>
    (str \<Rightarrow> str + (str + str)) \<Rightarrow> str \<Rightarrow> (pricing_error + catalog) run" where
  "fetch_latest parse decode http_get url =
     (case http_get url of
        Inl e \<Rightarrow> Ret (Inl (CatalogFetch e))
      | Inr (Inl e) \<Rightarrow> Ret (Inl (CatalogFetch e))
      | Inr (Inr bytes) \<Rightarrow> from_json parse decode bytes)"

section \<open>Lookup\<close>

definition catalog_get :: "catalog \<Rightarrow> model_key \<Rightarrow> model_pricing option" where
  "catalog_get c k = map_of (entries c) k"

definition catalog_lookup :: "catalog \<Rightarrow> model_key \<Rightarrow> model_pricing option run" where
  "catalog_lookup c k =
     (case map_of (entries c) k of
        Some p \<Rightarrow> Ret (Some p)
      | None \<Rightarrow> run_bind (strip_date_suffix (key_str k)) (\<lambda>b. case b of
            Some base \<Rightarrow> Ret (map_of (entries c) (model_key_new base))
          | None \<Rightarrow> Ret None))"

definition lookup_or_err :: "catalog \<Rightarrow> model_key \<Rightarrow> (pricing_error + model_pricing) run" where
  "lookup_or_err c k =
     run_bind (catalog_lookup c k) (\<lambda>r. case r of
         Some p \<Rightarrow> Ret (Inr p)
       | None \<Rightarrow> Ret (Inl (ModelNotFound (key_str k))))"

section \<open>What a date suffix is\<close>

definition dashed_date :: "str \<Rightarrow> bool" where
  "dashed_date d \<longleftrightarrow> length d = 11 \<and> d ! 0 = CHR ''-'' \<and> all_digits (take 4 (drop 1 d)) \<and>
     d ! 5 = CHR ''-'' \<and> all_digits (take 2 (drop 6 d)) \<and> d ! 8 = CHR ''-'' \<and>
     all_digits (take 2 (drop 9 d))"

definition plain_date :: "str \<Rightarrow> bool" where
  "plain_date d \<longleftrightarrow> length d = 9 \<and> d ! 0 = CHR ''-'' \<and> all_digits (drop 1 d)"

definition date_stripped :: "str \<Rightarrow> str option" where
  "date_stripped s =
     (if 11 < length s \<and> dashed_date (drop (length s - 11) s) then Some (take (length s - 11) s)
      else if 9 < length s \<and> plain_date (drop (length s - 9) s) then Some (take (length s - 9) s)
      else None)"

lemma is_ascii_drop: "is_ascii s \<Longrightarrow> is_ascii (drop n s)"
  by (auto simp: is_ascii_def dest: in_set_dropD)

lemma is_ascii_take: "is_ascii s \<Longrightarrow> is_ascii (take n s)"
  by (auto simp: is_ascii_def dest: in_set_takeD)

lemma starts_with_dash: "s \<noteq> [] \<Longrightarrow> starts_with s ''-'' \<longleftrightarrow> s ! 0 = CHR ''-''"
  by (cases s) (simp_all add: starts_with_def)

lemma slice_digits_ascii:
  "is_ascii s \<Longrightarrow> a \<le> b \<Longrightarrow> b \<le> length s \<Longrightarrow>
     slice_digits s a b = Ret (all_digits (take (b - a) (drop a s)))"
  by (simp add: slice_digits_def str_slice_ascii)

lemma run_and_Ret [simp]: "run_and (Ret a) (Ret b) = Ret (a \<and> b)"
  by (simp add: run_and_def)

lemma strip_date_suffix_run:
  assumes "is_ascii s"
  shows "strip_date_suffix s = Ret (date_stripped s)"
proof -
  have tail: "is_ascii (drop n s)" for n
    by (rule is_ascii_drop [OF assms])
  show ?thesis
    by (auto simp: strip_date_suffix_def date_stripped_def dashed_date_def plain_date_def
        str_slice_ascii assms slice_digits_ascii tail starts_with_dash)
qed

text \<open>
  On an ASCII model name the byte slicing never panics, and what is stripped is exactly a
  trailing \<open>-YYYY-MM-DD\<close>, or failing that a trailing \<open>-YYYYMMDD\<close>, of a name that is longer
  than the suffix.
\<close>

theorem strip_date_suffix_ascii:
  assumes "is_ascii s"
  shows "strip_date_suffix s = Ret (date_stripped s)"
  by (rule strip_date_suffix_run [OF assms])

theorem strip_date_suffix_ascii_witness:
  "strip_date_suffix ''gpt-4o-2024-08-06'' = Ret (date_stripped ''gpt-4o-2024-08-06'')"
proof -
  have "is_ascii ''gpt-4o-2024-08-06''" by (simp add: is_ascii_def)
  then show ?thesis by (rule strip_date_suffix_ascii)
qed

text \<open>
  The slicing is not safe on other names: six times the two bytes of \<open>e\<close> with an acute accent is
  a valid string of twelve bytes on which the first slice falls inside a character.
\<close>

definition e_acute :: str where
  "e_acute = [char_of (195 :: nat), char_of (169 :: nat)]"

lemma strip_date_suffix_panics: "strip_date_suffix (concat (replicate 6 e_acute)) = Panic"
  by code_simp

section \<open>What the index holds\<close>

text \<open>
  The price of a raw entry, when the loader keeps it, and the names it answers to besides its
  own key.
\<close>

definition priced :: "(json \<Rightarrow> raw_entry option) \<Rightarrow> str \<times> json \<Rightarrow> model_pricing option" where
  "priced decode kv =
     (if fst kv = ''sample_spec'' then None
      else case decode (snd kv) of
        None \<Rightarrow> None
      | Some e \<Rightarrow> if raw_input_cost_per_token e = None \<and> raw_output_cost_per_token e = None
          then None else Some (into_pricing e))"

definition opt_list :: "'a option \<Rightarrow> 'a list" where
  "opt_list x = (case x of None \<Rightarrow> [] | Some a \<Rightarrow> [a])"

definition fallback_names :: "str \<Rightarrow> str list" where
  "fallback_names k =
     (let k' = to_ascii_lowercase k in
      opt_list (date_stripped k') @
      (case split_once k' (CHR ''/'') of
         None \<Rightarrow> []
       | Some (_, suffix) \<Rightarrow> suffix # opt_list (date_stripped suffix)))"

definition add_entry :: "(json \<Rightarrow> raw_entry option) \<Rightarrow> str \<times> json
    \<Rightarrow> (model_key \<times> model_pricing) list \<Rightarrow> (model_key \<times> model_pricing) list" where
  "add_entry decode kv m =
     (case priced decode kv of
        None \<Rightarrow> m
      | Some p \<Rightarrow> fold (\<lambda>n. or_insert (model_key_new n) p) (fallback_names (fst kv))
          (map_put (model_key_new (fst kv)) p m))"

lemma is_ascii_lower: "is_ascii s \<Longrightarrow> is_ascii (to_ascii_lowercase s)"
  by (auto simp: is_ascii_def to_ascii_lowercase_def of_char_lower is_ascii_uppercase_def)

lemma is_ascii_split: "is_ascii s \<Longrightarrow> split_once s d = Some (a, b) \<Longrightarrow> is_ascii b"
  by (drule split_once_Some) (simp add: is_ascii_def)

lemma insert_stripped_ascii:
  "is_ascii s \<Longrightarrow> insert_stripped s p m =
     Ret (fold (\<lambda>n. or_insert (model_key_new n) p) (opt_list (date_stripped s)) m)"
  by (simp add: insert_stripped_def strip_date_suffix_run opt_list_def split: option.splits)

lemma index_entry_ascii:
  assumes "is_ascii (fst kv)"
  shows "index_entry decode kv m = Ret (add_entry decode kv m)"
proof -
  have low: "is_ascii (to_ascii_lowercase (fst kv))"
    by (rule is_ascii_lower [OF assms])
  show ?thesis
    by (auto simp: index_entry_def add_entry_def priced_def fallback_names_def Let_def
        model_key_new_def [of "fst kv"] insert_stripped_ascii low is_ascii_split [OF low]
        split: option.splits)
qed

lemma index_all_ascii:
  "\<forall>kv \<in> set raw. is_ascii (fst kv) \<Longrightarrow> index_all decode raw m = Ret (fold (add_entry decode) raw m)"
  by (induction raw arbitrary: m) (simp_all add: index_entry_ascii)

lemma or_insert_keeps: "map_of m x = Some q \<Longrightarrow> map_of (or_insert k p m) x = Some q"
  by (auto simp: or_insert_def map_of_map_or_insert split: option.splits)

lemma fold_or_insert_keeps:
  "map_of m x = Some q \<Longrightarrow> map_of (fold (\<lambda>n. or_insert (f n) p) ns m) x = Some q"
  by (induction ns arbitrary: m) (simp_all add: or_insert_keeps)

lemma add_entry_keeps:
  "map_of m x = Some q \<Longrightarrow> x \<noteq> model_key_new (fst kv) \<Longrightarrow> map_of (add_entry decode kv m) x = Some q"
  by (auto simp: add_entry_def map_of_map_put split: option.splits intro: fold_or_insert_keeps)

lemma add_entry_own:
  "priced decode kv = Some p \<Longrightarrow> map_of (add_entry decode kv m) (model_key_new (fst kv)) = Some p"
  by (auto simp: add_entry_def map_of_map_put intro: fold_or_insert_keeps)

lemma fold_add_entry_keeps:
  "map_of m x = Some q \<Longrightarrow> \<forall>kv \<in> set raw. x \<noteq> model_key_new (fst kv) \<Longrightarrow>
     map_of (fold (add_entry decode) raw m) x = Some q"
  by (induction raw arbitrary: m) (simp_all add: add_entry_keeps)

lemma fold_or_insert_origin:
  "map_of (fold (\<lambda>n. or_insert (f n) p) ns m) x = Some q \<Longrightarrow>
     map_of m x = Some q \<or> q = p \<and> x \<in> f ` set ns"
proof (induction ns arbitrary: m)
  case (Cons n ns)
  have "map_of (or_insert (f n) p m) x = Some q \<or> q = p \<and> x \<in> f ` set ns"
    using Cons by simp
  then show ?case
    by (auto simp: or_insert_def map_of_map_or_insert split: option.splits if_splits)
qed simp

lemma add_entry_origin:
  assumes "map_of (add_entry decode kv m) x = Some q"
  shows "map_of m x = Some q \<or>
    priced decode kv = Some q \<and> x \<in> model_key_new ` set (fst kv # fallback_names (fst kv))"
  using assms fold_or_insert_origin [of model_key_new]
  by (fastforce simp: add_entry_def map_of_map_put split: option.splits if_splits)

lemma fold_add_entry_origin:
  "map_of (fold (add_entry decode) raw m) x = Some q \<Longrightarrow>
     map_of m x = Some q \<or> (\<exists>kv \<in> set raw. priced decode kv = Some q \<and>
       x \<in> model_key_new ` set (fst kv # fallback_names (fst kv)))"
proof (induction raw arbitrary: m)
  case (Cons kv raw)
  then have "map_of (add_entry decode kv m) x = Some q \<or> (\<exists>kv \<in> set raw. priced decode kv = Some q \<and>
      x \<in> model_key_new ` set (fst kv # fallback_names (fst kv)))"
    by simp
  then show ?case
    using add_entry_origin [of decode kv m x q] by (metis list.set_intros(1,2))
qed simp


definition sample_raw :: "(str \<times> json) list" where
  "sample_raw = [(''azure/gpt-4o'', JNull), (''openai/GPT-4o-2024-08-06'', JBool True)]"

definition sample_entry :: "f64 \<Rightarrow> raw_entry" where
  "sample_entry rate = \<lparr> raw_input_cost_per_token = Some rate, raw_output_cost_per_token = None,
     raw_cache_read_input_token_cost = None, raw_cache_creation_input_token_cost = None,
     raw_cache_creation_input_token_cost_above_1hr = None,
     raw_cache_creation_input_token_cost_above_200k_tokens = None,
     raw_output_cost_per_reasoning_token = None, raw_input_cost_per_image = None,
     raw_input_cost_per_audio_token = None, raw_input_cost_per_video_per_second = None,
     raw_input_cost_per_token_batches = None, raw_output_cost_per_token_batches = None,
     raw_search_context_cost_per_query = None, raw_input_cost_per_token_above_200k_tokens = None,
     raw_output_cost_per_token_above_200k_tokens = None,
     raw_cache_read_input_token_cost_above_200k_tokens = None,
     raw_tool_use_system_prompt_tokens = None, raw_max_input_tokens = None,
     raw_max_output_tokens = None, raw_supports_reasoning = None,
     raw_supports_prompt_caching = None, raw_supports_vision = None, raw_deprecation_date = None,
     raw_litellm_provider = None, raw_mode = None \<rparr>"

definition sample_decode :: "json \<Rightarrow> raw_entry option" where
  "sample_decode v = (case v of JNull \<Rightarrow> Some (sample_entry (Fin 1)) | _ \<Rightarrow> Some (sample_entry (Fin 2)))"

lemma sample_raw_ascii: "\<forall>kv \<in> set sample_raw. is_ascii (fst kv)"
  by (simp add: sample_raw_def is_ascii_def)

lemma sample_priced:
  "priced sample_decode (''azure/gpt-4o'', JNull) = Some (into_pricing (sample_entry (Fin 1)))"
  "priced sample_decode (''openai/GPT-4o-2024-08-06'', JBool True) =
     Some (into_pricing (sample_entry (Fin 2)))"
  by (simp_all add: priced_def sample_decode_def sample_entry_def)


text \<open>
  C16: a price a lookup returns always belongs to an entry of the source catalog that the key
  names: the entry's own key, its date-stripped or unprefixed form, or the same after the
  lookup itself stripped a date from the key.
\<close>

theorem catalog_lookup_sound:
  assumes "parse bytes = Inr raw" and "\<forall>kv \<in> set raw. is_ascii (fst kv)"
    and "from_json parse decode bytes = Ret (Inr cat)"
    and "is_ascii (key_str k)" and "catalog_lookup cat k = Ret (Some p)"
  shows "\<exists>kv \<in> set raw. priced decode kv = Some p \<and>
    (\<exists>k' \<in> set (k # map model_key_new (opt_list (date_stripped (key_str k)))).
       k' \<in> model_key_new ` set (fst kv # fallback_names (fst kv)))"
proof -
  have cat: "entries cat = fold (add_entry decode) raw []"
    using assms(1,2,3) by (auto simp: from_json_def index_all_ascii)
  have "\<exists>k' \<in> set (k # map model_key_new (opt_list (date_stripped (key_str k)))).
      map_of (entries cat) k' = Some p"
    using assms(4,5)
    by (auto simp: catalog_lookup_def strip_date_suffix_run opt_list_def split: option.splits)
  then show ?thesis
    unfolding cat using fold_add_entry_origin [of decode raw "[]"] by fastforce
qed

lemma sample_lookup:
  "map_of (fold (add_entry sample_decode) sample_raw []) (ModelKey ''gpt-4o'') =
     Some (into_pricing (sample_entry (Fin 1)))"
proof -
  have "fallback_names ''azure/gpt-4o'' = [''gpt-4o'']"
    by code_simp
  then have "map_of (add_entry sample_decode (''azure/gpt-4o'', JNull) []) (ModelKey ''gpt-4o'') =
      Some (into_pricing (sample_entry (Fin 1)))"
    by (simp add: add_entry_def sample_priced or_insert_def map_of_map_or_insert model_key_new_def
        to_ascii_lowercase_def to_ascii_lower_char_def is_ascii_uppercase_def)
  then show ?thesis
    by (simp add: sample_raw_def add_entry_keeps model_key_new_def to_ascii_lowercase_def)
qed

theorem catalog_lookup_sound_witness:
  "\<exists>kv \<in> set sample_raw. priced sample_decode kv = Some (into_pricing (sample_entry (Fin 1))) \<and>
    (\<exists>k' \<in> set (ModelKey ''gpt-4o'' #
         map model_key_new (opt_list (date_stripped (key_str (ModelKey ''gpt-4o''))))).
       k' \<in> model_key_new ` set (fst kv # fallback_names (fst kv)))"
proof (rule catalog_lookup_sound [of "\<lambda>_. Inr sample_raw" "''{}''"])
  show "from_json (\<lambda>_. Inr sample_raw) sample_decode ''{}'' =
      Ret (Inr \<lparr> entries = fold (add_entry sample_decode) sample_raw [] \<rparr>)"
    by (simp add: from_json_def index_all_ascii [OF sample_raw_ascii])
  show "\<forall>kv \<in> set sample_raw. is_ascii (fst kv)"
    by (rule sample_raw_ascii)
qed (simp_all add: catalog_lookup_def sample_lookup is_ascii_def)

text \<open>
  The price of an alias does depend on the iteration order: two vendors that price the same
  model under different prefixes, loaded in the other order, answer with the other price.
\<close>

lemma alias_order_dependent:
  "map_of (fold (add_entry sample_decode) (rev sample_raw) []) (ModelKey ''gpt-4o'') =
     Some (into_pricing (sample_entry (Fin 2)))"
proof -
  have "fallback_names ''openai/GPT-4o-2024-08-06'' =
      [''openai/gpt-4o'', ''gpt-4o-2024-08-06'', ''gpt-4o'']"
    by code_simp
  then have "map_of (add_entry sample_decode (''openai/GPT-4o-2024-08-06'', JBool True) [])
      (ModelKey ''gpt-4o'') = Some (into_pricing (sample_entry (Fin 2)))"
    by (simp add: add_entry_def sample_priced or_insert_def map_of_map_or_insert model_key_new_def
        to_ascii_lowercase_def to_ascii_lower_char_def is_ascii_uppercase_def)
  then show ?thesis
    by (simp add: sample_raw_def add_entry_keeps model_key_new_def to_ascii_lowercase_def)
qed

section \<open>Refresh\<close>

text \<open>
  The download does not look at the status of the response, and a body without a single price is a
  catalogue: an error page that is a JSON object replaces the prices by an empty catalogue.
\<close>

lemma index_all_unpriced:
  "list_all (\<lambda>kv. decode (snd kv) = None) raw \<Longrightarrow> index_all decode raw m = Ret m"
  by (induction raw) (simp_all add: index_entry_def)

lemma fetch_accepts_error_page:
  assumes "http_get url = Inr (Inr body)" and "parse body = Inr raw"
    and "list_all (\<lambda>kv. decode (snd kv) = None) raw"
  shows "\<exists>cat. fetch_latest parse decode http_get url = Ret (Inr cat) \<and> catalog_is_empty cat"
  using assms by (simp add: fetch_latest_def from_json_def index_all_unpriced catalog_is_empty_def)

end
