(* ===== verification/Ids.thy ===== *)
theory Ids
  imports Prelude
begin

text \<open>
  Identifiers: \<open>crates/keplor-core/src/id.rs\<close> and the trace id of
  \<open>crates/keplor-core/src/event.rs\<close>. The ULID and hex crates are parameters.
\<close>

datatype core_error = InvalidProvider str | InvalidId str str | InvalidTraceId str

datatype event_id = EventId (as_ulid: nat)

datatype user_id = UserId (user_str: str)
datatype api_key_id = ApiKeyId (api_key_str: str)
datatype org_id = OrgId (org_str: str)
datatype project_id = ProjectId (project_str: str)
datatype route_id = RouteId (route_str: str)
datatype provider_id = ProviderId (provider_str: str)

text \<open>\<open>Display\<close> and \<open>FromStr\<close> of an event id; the ULID text form comes from its crate.\<close>

definition event_id_fmt :: "(nat \<Rightarrow> str) \<Rightarrow> event_id \<Rightarrow> str" where
  "event_id_fmt ulid_to_string i = ulid_to_string (as_ulid i)"

definition event_id_from_str :: "(str \<Rightarrow> nat option) \<Rightarrow> str \<Rightarrow> core_error + event_id" where
  "event_id_from_str ulid_from_string s =
     (case ulid_from_string s of
        Some u \<Rightarrow> Inr (EventId u)
      | None \<Rightarrow> Inl (InvalidId ''event'' s))"

text \<open>The macro \<open>string_id!\<close>: \<open>mk\<close> is the newtype's constructor, \<open>kind\<close> its kind literal.\<close>

definition string_id_from_str :: "str \<Rightarrow> (str \<Rightarrow> 'id) \<Rightarrow> str \<Rightarrow> core_error + 'id" where
  "string_id_from_str kind mk s = (if s = [] then Inl (InvalidId kind s) else Inr (mk s))"

definition string_id_from :: "(str \<Rightarrow> 'id) \<Rightarrow> str \<Rightarrow> 'id" where
  "string_id_from mk s = mk s"

section \<open>Trace ids\<close>

datatype trace_id = TraceId (trace_bytes: "u8 list")

definition is_trace_id :: "trace_id \<Rightarrow> bool" where
  "is_trace_id t \<longleftrightarrow> length (trace_bytes t) = 16"

definition trace_id_fmt :: "trace_id \<Rightarrow> str" where
  "trace_id_fmt t = concat (map hex02 (trace_bytes t))"

definition trace_id_from_str :: "(str \<Rightarrow> u8 list option) \<Rightarrow> str \<Rightarrow> core_error + trace_id" where
  "trace_id_from_str hex_decode s =
     (let s = (case strip_prefix s ''0x'' of Some t \<Rightarrow> t | None \<Rightarrow> s) in
      if length s \<noteq> 32 then Inl (InvalidTraceId s)
      else case hex_decode s of
        None \<Rightarrow> Inl (InvalidTraceId s)
      | Some out \<Rightarrow> Inr (TraceId out))"

section \<open>Codecs\<close>

text \<open>
  A text encoding with its decoder: on valid values decoding the encoded value returns it
  (\<open>ok\<close> is how the decoder returns a value). Then the encoding is injective, and a whole
  batch of encoded values decodes to the batch.
\<close>

locale codec =
  fixes enc :: "'a \<Rightarrow> 'b" and dec :: "'b \<Rightarrow> 'c" and ok :: "'a \<Rightarrow> 'c" and valid :: "'a \<Rightarrow> bool"
  assumes dec_enc: "valid x \<Longrightarrow> dec (enc x) = ok x"
    and ok_eq: "ok x = ok y \<longleftrightarrow> x = y"
begin

lemma enc_eq: "valid x \<Longrightarrow> valid y \<Longrightarrow> enc x = enc y \<longleftrightarrow> x = y"
  by (metis dec_enc ok_eq)

lemma map_dec_enc: "list_all valid xs \<Longrightarrow> map dec (map enc xs) = map ok xs"
  by (induction xs) (simp_all add: dec_enc)

lemma distinct_enc: "list_all valid xs \<Longrightarrow> distinct (map enc xs) \<longleftrightarrow> distinct xs"
  by (induction xs) (auto simp: list_all_iff enc_eq)

end

interpretation user_codec: codec user_str "string_id_from_str ''user'' UserId" Inr "\<lambda>i. user_str i \<noteq> []"
  by unfold_locales (simp_all add: string_id_from_str_def)

interpretation api_key_codec:
  codec api_key_str "string_id_from_str ''api_key'' ApiKeyId" Inr "\<lambda>i. api_key_str i \<noteq> []"
  by unfold_locales (simp_all add: string_id_from_str_def)

interpretation org_codec: codec org_str "string_id_from_str ''org'' OrgId" Inr "\<lambda>i. org_str i \<noteq> []"
  by unfold_locales (simp_all add: string_id_from_str_def)

interpretation project_codec:
  codec project_str "string_id_from_str ''project'' ProjectId" Inr "\<lambda>i. project_str i \<noteq> []"
  by unfold_locales (simp_all add: string_id_from_str_def)

interpretation route_codec:
  codec route_str "string_id_from_str ''route'' RouteId" Inr "\<lambda>i. route_str i \<noteq> []"
  by unfold_locales (simp_all add: string_id_from_str_def)

interpretation provider_id_codec:
  codec provider_str "string_id_from_str ''provider'' ProviderId" Inr "\<lambda>i. provider_str i \<noteq> []"
  by unfold_locales (simp_all add: string_id_from_str_def)

lemma length_concat_hex02: "length (concat (map hex02 bs)) = 2 * length bs"
  by (induction bs) (simp_all add: hex02_def)

lemma length_trace_id_fmt: "is_trace_id t \<Longrightarrow> length (trace_id_fmt t) = 32"
  by (simp add: trace_id_fmt_def is_trace_id_def length_concat_hex02)

lemma of_char_hex_digit: "n < 16 \<Longrightarrow> (of_char (hex_digit n) :: nat) = (if n < 10 then 48 + n else 87 + n)"
  by (simp add: hex_digit_def)

lemma hex_digit_not_x: "n < 16 \<Longrightarrow> hex_digit n \<noteq> CHR ''x''"
proof
  assume "n < 16" "hex_digit n = CHR ''x''"
  then have "(of_char (hex_digit n) :: nat) = of_char (CHR ''x'')" by simp
  with \<open>n < 16\<close> show False by (simp add: of_char_hex_digit split: if_splits)
qed

lemma unat_u8_less: "unat (b :: u8) < 256"
  using unsigned_less [of b, where ?'a = nat] by simp

lemma trace_fmt_no_prefix: "strip_prefix (trace_id_fmt t) ''0x'' = None"
proof (cases "trace_bytes t")
  case Nil
  then show ?thesis by (simp add: trace_id_fmt_def strip_prefix_def starts_with_def)
next
  case (Cons b bs)
  have "hex_digit (unat b mod 16) \<noteq> CHR ''x''"
    by (rule hex_digit_not_x) simp
  with Cons show ?thesis
    by (simp add: trace_id_fmt_def strip_prefix_def starts_with_def hex02_def)
qed

text \<open>
  The displayed trace id parses back, whenever the hex crate decodes the two-digit lower-case
  form it documents: the displayed form never looks like a \<open>0x\<close> prefix.
\<close>

lemma trace_id_roundtrip:
  assumes "is_trace_id t" and "hex_decode (trace_id_fmt t) = Some (trace_bytes t)"
  shows "trace_id_from_str hex_decode (trace_id_fmt t) = Inr t"
  using assms length_trace_id_fmt [OF assms(1)]
  by (simp add: trace_id_from_str_def trace_fmt_no_prefix)

end
