(* ===== verification/Utf8.thy ===== *)
theory Utf8
  imports Prelude
begin

text \<open>
  UTF-8 validity of a byte string, as \<open>std::str::from_utf8\<close> decides it, and what slicing at a
  character boundary keeps of it.
\<close>

definition byte_in :: "nat \<Rightarrow> nat \<Rightarrow> char \<Rightarrow> bool" where
  "byte_in lo hi c \<longleftrightarrow> lo \<le> (of_char c :: nat) \<and> (of_char c :: nat) \<le> hi"

text \<open>The length of the well-formed character at the head, zero when there is none.\<close>

definition utf8_char_len :: "str \<Rightarrow> nat" where
  "utf8_char_len s =
     (case s of
        [] \<Rightarrow> 0
      | a # s1 \<Rightarrow>
          if byte_in 0 127 a then 1
          else (case s1 of
            [] \<Rightarrow> 0
          | b # s2 \<Rightarrow>
              if byte_in 194 223 a then (if is_continuation b then 2 else 0)
              else (case s2 of
                [] \<Rightarrow> 0
              | c # s3 \<Rightarrow>
                  if byte_in 224 239 a
                  then (if is_continuation b \<and> is_continuation c
                          \<and> (byte_in 224 224 a \<longrightarrow> byte_in 160 191 b)
                          \<and> (byte_in 237 237 a \<longrightarrow> byte_in 128 159 b) then 3 else 0)
                  else (case s3 of
                    [] \<Rightarrow> 0
                  | d # _ \<Rightarrow>
                      if byte_in 240 244 a \<and> is_continuation b \<and> is_continuation c \<and> is_continuation d
                         \<and> (byte_in 240 240 a \<longrightarrow> byte_in 144 191 b)
                         \<and> (byte_in 244 244 a \<longrightarrow> byte_in 128 143 b) then 4 else 0))))"

function is_utf8 :: "str \<Rightarrow> bool" where
  "is_utf8 s =
     (if s = [] then True
      else if utf8_char_len s = 0 then False
      else is_utf8 (drop (utf8_char_len s) s))"
  by pat_completeness auto
termination
  by (relation "measure length") auto

declare is_utf8.simps [simp del]

lemma is_utf8_Nil [simp]: "is_utf8 []"
  by (simp add: is_utf8.simps [of "[]"])

lemma utf8_char_len_le: "utf8_char_len s \<le> 4 \<and> utf8_char_len s \<le> length s"
  by (auto simp: utf8_char_len_def split: list.splits)

lemma utf8_char_len_tail:
  assumes "0 < k" and "k < utf8_char_len s"
  shows "is_continuation (s ! k)"
proof -
  have "k = 1 \<or> k = 2 \<or> k = 3"
    using assms utf8_char_len_le [of s] by linarith
  then show ?thesis
    using assms(2) by (elim disjE) (auto simp: utf8_char_len_def split: list.splits if_splits)
qed

lemma utf8_char_len_head: "0 < utf8_char_len s \<Longrightarrow> \<not> is_continuation (s ! 0)"
  by (auto simp: utf8_char_len_def byte_in_def is_continuation_def split: list.splits if_splits)

lemma utf8_char_len_take:
  "utf8_char_len s \<le> k \<Longrightarrow> 0 < utf8_char_len s \<Longrightarrow> utf8_char_len (take k s) = utf8_char_len s"
  by (auto simp: utf8_char_len_def take_Cons' split: list.splits if_splits)

lemma boundary_drop:
  assumes "is_char_boundary s k" and "n \<le> k" and "k \<le> length s"
  shows "is_char_boundary (drop n s) (k - n)"
  using assms by (auto simp: is_char_boundary_def)

lemma is_utf8_take:
  "is_utf8 s \<Longrightarrow> is_char_boundary s k \<Longrightarrow> k \<le> length s \<Longrightarrow> is_utf8 (take k s)"
proof (induction s arbitrary: k rule: is_utf8.induct)
  case (1 s)
  show ?case
  proof (cases "s = [] \<or> k = 0")
    case False
    define n where "n = utf8_char_len s"
    have n: "0 < n" "n \<le> length s" and rest: "is_utf8 (drop n s)"
      using 1(2) False utf8_char_len_le [of s] by (auto simp: is_utf8.simps [of s] n_def split: if_splits)
    have k: "n \<le> k"
    proof (rule ccontr)
      assume "\<not> n \<le> k"
      then have "is_continuation (s ! k)" "k < length s"
        using utf8_char_len_tail [of k s] False n by (simp_all add: n_def)
      then show False
        using 1(3) False by (simp add: is_char_boundary_def)
    qed
    have "is_utf8 (take (k - n) (drop n s))"
      using 1 rest n k False boundary_drop [OF 1(3) k] by (simp add: n_def)
    then show ?thesis
      using n k utf8_char_len_take [of s k]
      by (simp add: is_utf8.simps [of "take k s"] n_def drop_take)
  qed auto
qed

lemma boundary_near:
  "is_utf8 s \<Longrightarrow> e \<le> length s \<Longrightarrow> \<exists>k \<le> e. e \<le> k + 3 \<and> is_char_boundary s k"
proof (induction s arbitrary: e rule: is_utf8.induct)
  case (1 s)
  show ?case
  proof (cases "s = [] \<or> e < utf8_char_len s")
    case True
    then have "e \<le> 3"
      using 1(3) utf8_char_len_le [of s] by auto
    then show ?thesis
      by (intro exI [of _ 0]) (simp add: is_char_boundary_def)
  next
    case False
    define n where "n = utf8_char_len s"
    have n: "0 < n" "n \<le> length s" "n \<le> e" and rest: "is_utf8 (drop n s)"
      using 1(2) False utf8_char_len_le [of s] by (auto simp: is_utf8.simps [of s] n_def split: if_splits)
    have "\<exists>k \<le> e - n. e - n \<le> k + 3 \<and> is_char_boundary (drop n s) k"
      using 1(1) [of "e - n"] False 1(3) n rest by (auto simp: n_def diff_le_mono)
    then obtain k where k: "k \<le> e - n" "e - n \<le> k + 3" "is_char_boundary (drop n s) k"
      by blast
    have "is_char_boundary s (n + k)"
    proof (cases "k = 0 \<and> n < length s")
      case True
      then have "0 < utf8_char_len (drop n s)"
        using rest by (simp add: is_utf8.simps [of "drop n s"] split: if_splits)
      from utf8_char_len_head [OF this] True show ?thesis
        by (simp add: is_char_boundary_def)
    next
      case False
      with k(3) n show ?thesis
        by (auto simp: is_char_boundary_def)
    qed
    then show ?thesis
      using k n by (intro exI [of _ "n + k"]) linarith
  qed
qed

end
