(* ===== verification/Provider_Error.thy ===== *)
theory Provider_Error
  imports Provider Json Utf8
begin

text \<open>
  Normalised upstream errors: \<open>crates/keplor-core/src/error.rs\<close>. The JSON body is parsed by
  \<open>serde_json\<close>: the parameter \<open>parse\<close>. A \<open>Duration\<close> is its number of nanoseconds.
\<close>

type_synonym duration = nat

definition duration_from_secs :: "u64 \<Rightarrow> duration" where
  "duration_from_secs s = s * 1000000000"

definition duration_as_secs :: "duration \<Rightarrow> u64" where
  "duration_as_secs d = d div 1000000000"

lemma duration_as_from_secs [simp]: "duration_as_secs (duration_from_secs s) = s"
  by (simp add: duration_as_secs_def duration_from_secs_def)

datatype provider_error =
    RateLimited "duration option"
  | InvalidRequest str
  | AuthFailed
  | ContextLengthExceeded u32
  | ContentFiltered str
  | UpstreamTimeout
  | UpstreamUnavailable
  | OtherError u16 str

section \<open>Truncation\<close>

text \<open>The loop of \<open>truncate\<close>: walk back from \<open>max\<close> to a character boundary.\<close>

function walk_back :: "str \<Rightarrow> nat \<Rightarrow> nat" where
  "walk_back s e = (if is_char_boundary s e then e else walk_back s (e - 1))"
  by pat_completeness auto
termination
  by (relation "measure snd") (auto simp: is_char_boundary_def)

declare walk_back.simps [simp del]

definition truncate_str :: "str \<Rightarrow> nat \<Rightarrow> str" where
  "truncate_str s max_len = (if length s \<le> max_len then s else take (walk_back s max_len) s)"

section \<open>Error bodies\<close>

text \<open>\<open>or_else\<close> on options.\<close>

definition or_else :: "'a option \<Rightarrow> 'a option \<Rightarrow> 'a option" where
  "or_else a b = (case a of None \<Rightarrow> b | Some x \<Rightarrow> Some x)"

definition u32_try_from :: "u64 \<Rightarrow> u32 option" where
  "u32_try_from n = (if n < 2 ^ 32 then Some (of_nat n) else None)"

definition pointer_str :: "json \<Rightarrow> str list \<Rightarrow> str option" where
  "pointer_str v path = Option.bind (json_pointer v path) json_as_str"

definition pointer_u64 :: "json \<Rightarrow> str list \<Rightarrow> u64 option" where
  "pointer_u64 v path = Option.bind (json_pointer v path) json_as_u64"

definition parse_error_body :: "(str \<Rightarrow> json option) \<Rightarrow> provider \<Rightarrow> str
    \<Rightarrow> str option \<times> str option \<times> u64 option \<times> u32 option" where
  "parse_error_body parse provider body =
     (case parse body of
        None \<Rightarrow> (None, None, None, None)
      | Some v \<Rightarrow>
          (let err_type = pointer_str v [''error'', ''type''];
               err_msg = pointer_str v [''error'', ''message''];
               err_type = (if err_type = None then pointer_str v [''__type''] else err_type);
               err_msg = (if err_msg = None then pointer_str v [''message''] else err_msg);
               err_type = (if err_type = None then pointer_str v [''error'', ''status''] else err_type);
               err_msg = (if err_msg = None then pointer_str v [''error''] else err_msg);
               retry_after = or_else (pointer_u64 v [''error'', ''retry_after''])
                 (pointer_u64 v [''retry_after'']);
               context_limit = Option.bind
                 (or_else (pointer_u64 v [''error'', ''param'', ''limit''])
                   (pointer_u64 v [''error'', ''limit'']))
                 u32_try_from
           in (err_type, err_msg, retry_after, context_limit)))"

section \<open>Classification\<close>

definition from_provider_response ::
  "(str \<Rightarrow> json option) \<Rightarrow> provider \<Rightarrow> u16 \<Rightarrow> str \<Rightarrow> provider_error" where
  "from_provider_response parse provider st body =
     (let (err_type, err_message, retry_after_secs, context_limit) =
            parse_error_body parse provider body;
          rate_limited = RateLimited (map_option duration_from_secs retry_after_secs);
          fallback =
            (let msg = truncate_str (case err_message of Some m \<Rightarrow> m
                   | None \<Rightarrow> if is_utf8 body then body else ''<non-utf8 body>'') 256
             in if st = 400 then InvalidRequest msg else OtherError st msg)
      in
      if st = 401 \<or> st = 403 then AuthFailed
      else if st = 429 then rate_limited
      else if st = 408 \<or> st = 504 then UpstreamTimeout
      else if st = 502 \<or> st = 503 then UpstreamUnavailable
      else case err_type of
        None \<Rightarrow> fallback
      | Some ty \<Rightarrow>
          (let t = to_ascii_lowercase ty in
           if str_contains t ''rate_limit'' \<or> str_contains t ''too_many_requests''
              \<or> str_contains t ''throttling''
           then rate_limited
           else if str_contains t ''auth'' \<or> str_contains t ''permission'' \<or> t = ''unauthorized''
           then AuthFailed
           else if str_contains t ''context_length'' \<or> str_contains t ''too_long''
              \<or> str_contains t ''context_window''
           then ContextLengthExceeded (case context_limit of Some l \<Rightarrow> l | None \<Rightarrow> 0)
           else if str_contains t ''content_filter'' \<or> str_contains t ''safety''
              \<or> str_contains t ''blocked''
           then ContentFiltered (case err_message of Some m \<Rightarrow> m | None \<Rightarrow> ty)
           else if str_contains t ''timeout'' then UpstreamTimeout
           else fallback))"

section \<open>Truncation is safe\<close>

lemma walk_back_boundary: "is_char_boundary s (walk_back s e)"
proof (induction s e rule: walk_back.induct)
  case (1 s e)
  then show ?case
    by (cases "is_char_boundary s e") (simp_all add: walk_back.simps [of s e])
qed

lemma walk_back_le: "walk_back s e \<le> e"
proof (induction s e rule: walk_back.induct)
  case (1 s e)
  then show ?case
    by (cases "is_char_boundary s e") (simp_all add: walk_back.simps [of s e])
qed

lemma walk_back_ge: "k \<le> e \<Longrightarrow> is_char_boundary s k \<Longrightarrow> k \<le> walk_back s e"
proof (induction s e rule: walk_back.induct)
  case (1 s e)
  show ?case
  proof (cases "is_char_boundary s e")
    case True
    with 1(2) show ?thesis by (simp add: walk_back.simps [of s e])
  next
    case False
    with 1 have "k \<le> e - 1" by (cases "k = e") simp_all
    with 1 False show ?thesis by (simp add: walk_back.simps [of s e])
  qed
qed

text \<open>
  Truncating a valid string gives a valid string: a prefix of at most \<open>max\<close> bytes that never
  ends inside a character and drops at most three bytes more than it has to.
\<close>

theorem truncate_str_utf8:
  assumes "is_utf8 s"
  shows "is_utf8 (truncate_str s n) \<and> length (truncate_str s n) \<le> n \<and>
    (\<exists>rest. s = truncate_str s n @ rest \<and> (rest \<noteq> [] \<longrightarrow> n \<le> length (truncate_str s n) + 3))"
proof (cases "length s \<le> n")
  case True
  with assms show ?thesis by (simp add: truncate_str_def)
next
  case False
  obtain k where k: "k \<le> n" "n \<le> k + 3" "is_char_boundary s k"
    using boundary_near [OF assms, of n] False by auto
  define e where "e = walk_back s n"
  have e: "e \<le> n" "n \<le> e + 3" "is_char_boundary s e"
    using walk_back_le [of s n] walk_back_ge [OF k(1,3)] k walk_back_boundary [of s n]
    by (simp_all add: e_def)
  have "is_utf8 (take e s)"
    using is_utf8_take [OF assms e(3)] e False by simp
  moreover have "s = take e s @ drop e s"
    by simp
  ultimately show ?thesis
    using e False by (simp add: truncate_str_def e_def [symmetric]) (metis append_take_drop_id)
qed

theorem truncate_str_utf8_witness:
  "is_utf8 (truncate_str (concat (replicate 3 [char_of (195 :: nat), char_of (169 :: nat)])) 5) \<and>
   length (truncate_str (concat (replicate 3 [char_of (195 :: nat), char_of (169 :: nat)])) 5) \<le> 5"
proof -
  have "is_utf8 (concat (replicate 3 [char_of (195 :: nat), char_of (169 :: nat)]))"
    by code_simp
  from truncate_str_utf8 [OF this] show ?thesis by blast
qed

lemma truncate_str_length: "length (truncate_str s n) \<le> n"
  using walk_back_le [of s n] by (simp add: truncate_str_def min_def)

section \<open>What the classifier promises\<close>

definition fast_path :: "u16 \<Rightarrow> bool" where
  "fast_path st \<longleftrightarrow> st \<in> {401, 403, 429, 408, 504, 502, 503}"

text \<open>
  C38: the classification is total and consistent with the status code, whatever the body and the
  JSON parser: an unavailable upstream is reported for 502 and 503 only, a rejected request for
  400 only, an unclassified error keeps its status and never has a fast-path status, and both
  stored messages are at most 256 bytes long.
\<close>

theorem from_provider_response_consistent:
  "(case from_provider_response parse p st body of
      UpstreamUnavailable \<Rightarrow> st = 502 \<or> st = 503
    | InvalidRequest m \<Rightarrow> st = 400 \<and> length m \<le> 256
    | OtherError s m \<Rightarrow> s = st \<and> st \<noteq> 400 \<and> \<not> fast_path st \<and> length m \<le> 256
    | UpstreamTimeout \<Rightarrow> st \<notin> {401, 403, 429, 502, 503}
    | ContextLengthExceeded _ \<Rightarrow> \<not> fast_path st
    | ContentFiltered _ \<Rightarrow> \<not> fast_path st
    | RateLimited _ \<Rightarrow> st = 429 \<or> \<not> fast_path st
    | AuthFailed \<Rightarrow> st = 401 \<or> st = 403 \<or> \<not> fast_path st)"
proof -
  obtain ty msg ra cl where body: "parse_error_body parse p body = (ty, msg, ra, cl)"
    by (cases "parse_error_body parse p body") auto
  show ?thesis
  proof (cases ty)
    case None
    then show ?thesis
      by (simp add: from_provider_response_def body fast_path_def truncate_str_length Let_def)
  next
    case (Some t)
    then show ?thesis
      by (simp add: from_provider_response_def body fast_path_def truncate_str_length Let_def)
  qed
qed

theorem from_provider_response_consistent_witness:
  "from_provider_response (\<lambda>_. None) OpenAI 500 ''boom'' = OtherError 500 ''boom'' \<and>
   \<not> fast_path 500 \<and> length ''boom'' \<le> 256"
proof -
  have eq: "from_provider_response (\<lambda>_. None) OpenAI 500 ''boom'' = OtherError 500 ''boom''"
    by (simp add: from_provider_response_def parse_error_body_def truncate_str_def is_utf8.simps
        utf8_char_len_def byte_in_def)
  with from_provider_response_consistent [where parse = "\<lambda>_. None" and p = OpenAI and st = 500 and body = "''boom''"] show ?thesis
    by simp
qed

end
