(* ===== verification/Event.thy ===== *)
theory Event
  imports Usage Ids Provider_Error
begin

text \<open>
  The canonical event: \<open>crates/keplor-core/src/event.rs\<close> and \<open>flags.rs\<close>, and the functions of
  other packages the code calls on its fields.
\<close>

unbundle bit_operations_syntax

section \<open>Flags\<close>

definition STREAMING :: u32 where "STREAMING = push_bit 0 1"
definition TOOL_CALLS :: u32 where "TOOL_CALLS = push_bit 1 1"
definition REASONING :: u32 where "REASONING = push_bit 2 1"
definition STREAM_INCOMPLETE :: u32 where "STREAM_INCOMPLETE = push_bit 3 1"
definition CACHED_USED :: u32 where "CACHED_USED = push_bit 4 1"
definition BUDGET_BLOCKED :: u32 where "BUDGET_BLOCKED = push_bit 5 1"

definition has_flag :: "'a::len word \<Rightarrow> 'a word \<Rightarrow> bool" where
  "has_flag bits flag \<longleftrightarrow> bits AND flag \<noteq> 0"

definition set_flag :: "bool \<Rightarrow> 'a::len word \<Rightarrow> 'a word \<Rightarrow> 'a word" where
  "set_flag b flag bits = (if b then bits OR flag else bits)"

lemma bit_set_flag: "bit (set_flag b flag bits) n \<longleftrightarrow> bit bits n \<or> b \<and> bit flag n"
  by (simp add: set_flag_def bit_or_iff)

lemma has_flag_push_bit: "has_flag bits (push_bit n 1) \<longleftrightarrow> bit bits n"
  by (simp add: has_flag_def push_bit_eq_mult and_exp_eq_0_iff_not_bit)

lemma bit_push_one: "bit (push_bit k (1 :: 'a::len word)) n \<longleftrightarrow> n = k \<and> k < LENGTH('a)"
  by (auto simp: push_bit_eq_mult bit_exp_iff)

section \<open>Events\<close>

record latencies =
  ttft_ms :: "u32 option"
  total_ms :: u32
  time_to_close_ms :: "u32 option"

definition latencies_default :: latencies where
  "latencies_default = \<lparr> ttft_ms = None, total_ms = 0, time_to_close_ms = None \<rparr>"

datatype ip_addr = V4 u32 | V6 "128 word"

text \<open>An \<open>http::Method\<close> is its token.\<close>

type_synonym http_method = str

record llm_event =
  ev_id :: event_id
  ev_ts_ns :: i64
  ev_user_id :: "user_id option"
  ev_api_key_id :: "api_key_id option"
  ev_org_id :: "org_id option"
  ev_project_id :: "project_id option"
  ev_route_id :: route_id
  ev_provider :: provider
  ev_model :: str
  ev_model_family :: "str option"
  ev_endpoint :: str
  ev_method :: http_method
  ev_http_status :: "u16 option"
  ev_usage :: usage
  ev_cost_nanodollars :: i64
  ev_latency :: latencies
  ev_flags :: u32
  ev_error :: "provider_error option"
  ev_request_sha256 :: "u8 list"
  ev_response_sha256 :: "u8 list"
  ev_client_ip :: "ip_addr option"
  ev_user_agent :: "str option"
  ev_request_id :: "str option"
  ev_trace_id :: "trace_id option"
  ev_source :: "str option"
  ev_ingested_at :: i64
  ev_metadata :: "json option"
  ev_tier :: str

section \<open>Other packages\<close>

text \<open>
  What the code calls outside the repository on these values: the text form of a ULID
  (\<open>ulid\<close>), JSON text (\<open>serde_json\<close>), HTTP method tokens (\<open>http\<close>), and the text form of
  an IP address. They are fields of one record, an argument of every definition that uses one.
\<close>

record externals =
  ulid_to_string :: "nat \<Rightarrow> str"
  ulid_from_string :: "str \<Rightarrow> nat option"
  json_to_string :: "json \<Rightarrow> str option"
  json_from_str :: "str \<Rightarrow> str + json"
  method_from_bytes :: "str \<Rightarrow> http_method option"
  ip_to_string :: "ip_addr \<Rightarrow> str"
  ip_from_str :: "str \<Rightarrow> ip_addr option"

end
