(* ===== verification/Row_Mapping.thy ===== *)
theory Row_Mapping
  imports Event
begin

text \<open>
  The stored row: \<open>crates/keplor-store/src/mapping.rs\<close>. An event becomes a KeplorDB row of
  fourteen dimensions, thirteen counters, eight labels and sixteen flag bits, and is read back.
\<close>

section \<open>Layout\<close>

definition dim_count :: usize where "dim_count = 14"
definition counter_count :: usize where "counter_count = 13"
definition label_count :: usize where "label_count = 8"
definition SCHEMA_ID :: u8 where "SCHEMA_ID = 1"

definition DIM_USER_ID :: usize where "DIM_USER_ID = 0"
definition DIM_API_KEY_ID :: usize where "DIM_API_KEY_ID = 1"
definition DIM_MODEL :: usize where "DIM_MODEL = 2"
definition DIM_PROVIDER :: usize where "DIM_PROVIDER = 3"
definition DIM_SOURCE :: usize where "DIM_SOURCE = 4"
definition DIM_ORG_ID :: usize where "DIM_ORG_ID = 5"
definition DIM_PROJECT_ID :: usize where "DIM_PROJECT_ID = 6"
definition DIM_ROUTE_ID :: usize where "DIM_ROUTE_ID = 7"
definition DIM_MODEL_FAMILY :: usize where "DIM_MODEL_FAMILY = 8"
definition DIM_ENDPOINT :: usize where "DIM_ENDPOINT = 9"
definition DIM_TIER :: usize where "DIM_TIER = 10"
definition DIM_ERROR_TYPE :: usize where "DIM_ERROR_TYPE = 11"
definition DIM_USER_TAG :: usize where "DIM_USER_TAG = 12"
definition DIM_SESSION_TAG :: usize where "DIM_SESSION_TAG = 13"

definition COUNTER_INPUT_TOKENS :: usize where "COUNTER_INPUT_TOKENS = 0"
definition COUNTER_OUTPUT_TOKENS :: usize where "COUNTER_OUTPUT_TOKENS = 1"
definition COUNTER_CACHE_READ :: usize where "COUNTER_CACHE_READ = 2"
definition COUNTER_CACHE_CREATION :: usize where "COUNTER_CACHE_CREATION = 3"
definition COUNTER_REASONING :: usize where "COUNTER_REASONING = 4"
definition COUNTER_AUDIO_IN :: usize where "COUNTER_AUDIO_IN = 5"
definition COUNTER_AUDIO_OUT :: usize where "COUNTER_AUDIO_OUT = 6"
definition COUNTER_IMAGE :: usize where "COUNTER_IMAGE = 7"
definition COUNTER_VIDEO_SECONDS :: usize where "COUNTER_VIDEO_SECONDS = 8"
definition COUNTER_TOOL_USE :: usize where "COUNTER_TOOL_USE = 9"
definition COUNTER_SEARCH_QUERIES :: usize where "COUNTER_SEARCH_QUERIES = 10"
definition COUNTER_CLOSE_MS :: usize where "COUNTER_CLOSE_MS = 11"
definition COUNTER_IS_ERROR :: usize where "COUNTER_IS_ERROR = 12"

definition LABEL_ERROR_JSON :: usize where "LABEL_ERROR_JSON = 0"
definition LABEL_REQUEST_ID :: usize where "LABEL_REQUEST_ID = 1"
definition LABEL_TRACE_ID :: usize where "LABEL_TRACE_ID = 2"
definition LABEL_CLIENT_IP :: usize where "LABEL_CLIENT_IP = 3"
definition LABEL_USER_AGENT :: usize where "LABEL_USER_AGENT = 4"
definition LABEL_METADATA_JSON :: usize where "LABEL_METADATA_JSON = 5"
definition LABEL_METHOD :: usize where "LABEL_METHOD = 6"
definition LABEL_PROVIDER_VARIANT :: usize where "LABEL_PROVIDER_VARIANT = 7"

definition FLAG_STREAMING :: u16 where "FLAG_STREAMING = push_bit 0 1"
definition FLAG_TOOL_CALLS :: u16 where "FLAG_TOOL_CALLS = push_bit 1 1"
definition FLAG_REASONING :: u16 where "FLAG_REASONING = push_bit 2 1"
definition FLAG_STREAM_INCOMPLETE :: u16 where "FLAG_STREAM_INCOMPLETE = push_bit 3 1"
definition FLAG_CACHED_USED :: u16 where "FLAG_CACHED_USED = push_bit 4 1"
definition FLAG_BUDGET_BLOCKED :: u16 where "FLAG_BUDGET_BLOCKED = push_bit 5 1"
definition FLAG_HAS_TTFT :: u16 where "FLAG_HAS_TTFT = push_bit 8 1"
definition FLAG_HAS_HTTP_STATUS :: u16 where "FLAG_HAS_HTTP_STATUS = push_bit 9 1"
definition FLAG_HAS_ERROR :: u16 where "FLAG_HAS_ERROR = push_bit 10 1"
definition FLAG_HAS_CLOSE_MS :: u16 where "FLAG_HAS_CLOSE_MS = push_bit 11 1"

lemmas dim_defs = DIM_USER_ID_def DIM_API_KEY_ID_def DIM_MODEL_def DIM_PROVIDER_def DIM_SOURCE_def
  DIM_ORG_ID_def DIM_PROJECT_ID_def DIM_ROUTE_ID_def DIM_MODEL_FAMILY_def DIM_ENDPOINT_def
  DIM_TIER_def DIM_ERROR_TYPE_def DIM_USER_TAG_def DIM_SESSION_TAG_def

lemmas counter_defs = COUNTER_INPUT_TOKENS_def COUNTER_OUTPUT_TOKENS_def COUNTER_CACHE_READ_def
  COUNTER_CACHE_CREATION_def COUNTER_REASONING_def COUNTER_AUDIO_IN_def COUNTER_AUDIO_OUT_def
  COUNTER_IMAGE_def COUNTER_VIDEO_SECONDS_def COUNTER_TOOL_USE_def COUNTER_SEARCH_QUERIES_def
  COUNTER_CLOSE_MS_def COUNTER_IS_ERROR_def

lemmas label_defs = LABEL_ERROR_JSON_def LABEL_REQUEST_ID_def LABEL_TRACE_ID_def
  LABEL_CLIENT_IP_def LABEL_USER_AGENT_def LABEL_METADATA_JSON_def LABEL_METHOD_def
  LABEL_PROVIDER_VARIANT_def

lemmas flag_defs = FLAG_STREAMING_def FLAG_TOOL_CALLS_def FLAG_REASONING_def
  FLAG_STREAM_INCOMPLETE_def FLAG_CACHED_USED_def FLAG_BUDGET_BLOCKED_def FLAG_HAS_TTFT_def
  FLAG_HAS_HTTP_STATUS_def FLAG_HAS_ERROR_def FLAG_HAS_CLOSE_MS_def STREAMING_def TOOL_CALLS_def
  REASONING_def STREAM_INCOMPLETE_def CACHED_USED_def BUDGET_BLOCKED_def

record log_event =
  le_id :: str
  le_ts_ns :: i64
  le_metric :: i64
  le_counters :: "u32 list"
  le_latency_ms :: u32
  le_latency_detail_ms :: u32
  le_status :: u16
  le_flags :: u16
  le_dims :: "str list"
  le_labels :: "str list"

datatype mapping_error =
    InvalidEventId str | InvalidTraceIdLabel str | InvalidIp str | InvalidErrorPayload str
  | InvalidMetadata str | InvalidMethod str

section \<open>Flags\<close>

definition pack_flags :: "llm_event \<Rightarrow> u16" where
  "pack_flags event =
     (let src = ev_flags event; bits = 0;
          bits = set_flag (has_flag src STREAMING) FLAG_STREAMING bits;
          bits = set_flag (has_flag src TOOL_CALLS) FLAG_TOOL_CALLS bits;
          bits = set_flag (has_flag src REASONING) FLAG_REASONING bits;
          bits = set_flag (has_flag src STREAM_INCOMPLETE) FLAG_STREAM_INCOMPLETE bits;
          bits = set_flag (has_flag src CACHED_USED) FLAG_CACHED_USED bits;
          bits = set_flag (has_flag src BUDGET_BLOCKED) FLAG_BUDGET_BLOCKED bits;
          bits = set_flag (ttft_ms (ev_latency event) \<noteq> None) FLAG_HAS_TTFT bits;
          bits = set_flag (ev_http_status event \<noteq> None) FLAG_HAS_HTTP_STATUS bits;
          bits = set_flag (ev_error event \<noteq> None) FLAG_HAS_ERROR bits;
          bits = set_flag (time_to_close_ms (ev_latency event) \<noteq> None) FLAG_HAS_CLOSE_MS bits
      in bits)"

definition unpack_event_flags :: "u16 \<Rightarrow> u32" where
  "unpack_event_flags bits =
     (let out = 0;
          out = set_flag (has_flag bits FLAG_STREAMING) STREAMING out;
          out = set_flag (has_flag bits FLAG_TOOL_CALLS) TOOL_CALLS out;
          out = set_flag (has_flag bits FLAG_REASONING) REASONING out;
          out = set_flag (has_flag bits FLAG_STREAM_INCOMPLETE) STREAM_INCOMPLETE out;
          out = set_flag (has_flag bits FLAG_CACHED_USED) CACHED_USED out;
          out = set_flag (has_flag bits FLAG_BUDGET_BLOCKED) BUDGET_BLOCKED out
      in out)"

lemma less_6: "(n :: nat) < 6 \<longleftrightarrow> n = 0 \<or> n = 1 \<or> n = 2 \<or> n = 3 \<or> n = 4 \<or> n = 5"
  by linarith

lemma bit_pack_flags:
  "bit (pack_flags e) n \<longleftrightarrow>
     n < 6 \<and> bit (ev_flags e) n \<or> n = 8 \<and> ttft_ms (ev_latency e) \<noteq> None \<or>
     n = 9 \<and> ev_http_status e \<noteq> None \<or> n = 10 \<and> ev_error e \<noteq> None \<or>
     n = 11 \<and> time_to_close_ms (ev_latency e) \<noteq> None"
  unfolding pack_flags_def Let_def flag_defs has_flag_push_bit bit_set_flag bit_push_one less_6
  by (simp add: conj_disj_distribR cong: conj_cong) blast

lemma bit_unpack_event_flags: "bit (unpack_event_flags b) n \<longleftrightarrow> n < 6 \<and> bit b n"
  unfolding unpack_event_flags_def Let_def flag_defs has_flag_push_bit bit_set_flag bit_push_one less_6
  by (simp add: conj_disj_distribR cong: conj_cong) blast

lemma unpack_pack_flags: "unpack_event_flags (pack_flags e) = ev_flags e AND mask 6"
  by (rule bit_word_eqI) (auto simp: bit_unpack_event_flags bit_pack_flags bit_and_iff bit_mask_iff)

lemma has_flag_pack:
  "has_flag (pack_flags e) FLAG_HAS_TTFT \<longleftrightarrow> ttft_ms (ev_latency e) \<noteq> None"
  "has_flag (pack_flags e) FLAG_HAS_HTTP_STATUS \<longleftrightarrow> ev_http_status e \<noteq> None"
  "has_flag (pack_flags e) FLAG_HAS_ERROR \<longleftrightarrow> ev_error e \<noteq> None"
  "has_flag (pack_flags e) FLAG_HAS_CLOSE_MS \<longleftrightarrow> time_to_close_ms (ev_latency e) \<noteq> None"
  unfolding flag_defs has_flag_push_bit by (simp_all add: bit_pack_flags)

section \<open>Helpers\<close>

definition read_provider :: "str \<Rightarrow> str \<Rightarrow> provider" where
  "read_provider key variant_label =
     (if key = ''openai_compatible'' then OpenAICompatible variant_label else from_id_key key)"

fun provider_error_type_key :: "provider_error \<Rightarrow> str" where
  "provider_error_type_key (RateLimited _) = ''rate_limited''"
| "provider_error_type_key (InvalidRequest _) = ''invalid_request''"
| "provider_error_type_key AuthFailed = ''auth_failed''"
| "provider_error_type_key (ContextLengthExceeded _) = ''context_length_exceeded''"
| "provider_error_type_key (ContentFiltered _) = ''content_filtered''"
| "provider_error_type_key UpstreamTimeout = ''upstream_timeout''"
| "provider_error_type_key UpstreamUnavailable = ''upstream_unavailable''"
| "provider_error_type_key (OtherError _ _) = ''other''"

definition trace_id_to_hex :: "trace_id \<Rightarrow> str" where
  "trace_id_to_hex t = concat (map hex02 (trace_bytes t))"

text \<open>\<open>char::to_digit(16)\<close> and \<open>u8::from_str_radix(_, 16)\<close> on a string of two bytes.\<close>

definition hex_value :: "char \<Rightarrow> nat option" where
  "hex_value c =
     (let n = (of_char c :: nat) in
      if 48 \<le> n \<and> n \<le> 57 then Some (n - 48)
      else if 97 \<le> n \<and> n \<le> 102 then Some (n - 87)
      else if 65 \<le> n \<and> n \<le> 70 then Some (n - 55)
      else None)"

fun u8_from_hex2 :: "str \<Rightarrow> u8 option" where
  "u8_from_hex2 [a, b] =
     (if a = CHR ''+'' then map_option of_nat (hex_value b)
      else case (hex_value a, hex_value b) of
        (Some x, Some y) \<Rightarrow> Some (of_nat (16 * x + y))
      | _ \<Rightarrow> None)"
| "u8_from_hex2 _ = None"

text \<open>The loop over the sixteen byte pairs, from pair \<open>i\<close> on.\<close>

fun hex_pairs :: "str \<Rightarrow> nat \<Rightarrow> nat \<Rightarrow> (mapping_error + u8 list) run" where
  "hex_pairs s i 0 = Ret (Inr [])"
| "hex_pairs s i (Suc n) =
     run_bind (str_slice s (i * 2) (i * 2 + 2)) (\<lambda>hex.
       case u8_from_hex2 hex of
         None \<Rightarrow> Ret (Inl (InvalidTraceIdLabel s))
       | Some b \<Rightarrow> try_bind (hex_pairs s (Suc i) n) (\<lambda>bs. Ret (Inr (b # bs))))"

definition hex_to_trace_id :: "str \<Rightarrow> (mapping_error + trace_id) run" where
  "hex_to_trace_id s =
     (if length s \<noteq> 32 then Ret (Inl (InvalidTraceIdLabel s))
      else try_bind (hex_pairs s 0 16) (\<lambda>bytes. Ret (Inr (TraceId bytes))))"

definition or_empty :: "str option \<Rightarrow> str" where
  "or_empty s = (case s of None \<Rightarrow> [] | Some t \<Rightarrow> t)"

definition extract_tags :: "json option \<Rightarrow> str \<times> str" where
  "extract_tags metadata =
     (case metadata of
        Some (JObject m) \<Rightarrow>
          (or_empty (Option.bind (map_of m ''user_tag'') json_as_str),
           or_empty (Option.bind (map_of m ''session_tag'') json_as_str))
      | _ \<Rightarrow> ([], []))"

definition opt_smol :: "str \<Rightarrow> str option" where
  "opt_smol s = (if s = [] then None else Some s)"

definition opt_id :: "(str \<Rightarrow> 'id) \<Rightarrow> str \<Rightarrow> 'id option" where
  "opt_id mk s = (if s = [] then None else Some (mk s))"

definition json_quote :: "externals \<Rightarrow> str \<Rightarrow> str" where
  "json_quote ext s = (case json_to_string ext (JString s) of Some q \<Rightarrow> q | None \<Rightarrow> [CHR 0x22, CHR 0x22])"

fun encode_error :: "externals \<Rightarrow> provider_error \<Rightarrow> str" where
  \<open>encode_error ext (RateLimited (Some d)) =
     ''{"t":"rate_limited","r":'' @ nat_to_string (duration_as_secs d) @ ''}''\<close>
| \<open>encode_error ext (RateLimited None) = ''{"t":"rate_limited"}''\<close>
| \<open>encode_error ext (InvalidRequest m) = ''{"t":"invalid_request","m":'' @ json_quote ext m @ ''}''\<close>
| \<open>encode_error ext AuthFailed = ''{"t":"auth_failed"}''\<close>
| \<open>encode_error ext (ContextLengthExceeded l) =
     ''{"t":"context_length_exceeded","l":'' @ nat_to_string (unat l) @ ''}''\<close>
| \<open>encode_error ext (ContentFiltered r) = ''{"t":"content_filtered","m":'' @ json_quote ext r @ ''}''\<close>
| \<open>encode_error ext UpstreamTimeout = ''{"t":"upstream_timeout"}''\<close>
| \<open>encode_error ext UpstreamUnavailable = ''{"t":"upstream_unavailable"}''\<close>
| \<open>encode_error ext (OtherError s m) =
     ''{"t":"other","s":'' @ nat_to_string (unat s) @ '',"m":'' @ json_quote ext m @ ''}''\<close>

definition decode_error :: "externals \<Rightarrow> str \<Rightarrow> mapping_error + provider_error" where
  "decode_error ext s =
     res_bind (case json_from_str ext s of Inl e \<Rightarrow> Inl (InvalidErrorPayload e) | Inr v \<Rightarrow> Inr v)
     (\<lambda>v. case json_as_object v of
        None \<Rightarrow> Inl (InvalidErrorPayload ''not an object'')
      | Some obj \<Rightarrow>
        (case Option.bind (map_of obj ''t'') json_as_str of
           None \<Rightarrow> Inl (InvalidErrorPayload ''missing discriminator'')
         | Some t \<Rightarrow>
           (let msg = or_empty (Option.bind (map_of obj ''m'') json_as_str);
                num = (\<lambda>k. Option.bind (map_of obj k) json_as_u64)
            in
            if t = ''rate_limited'' then Inr (RateLimited (map_option duration_from_secs (num ''r'')))
            else if t = ''invalid_request'' then Inr (InvalidRequest msg)
            else if t = ''auth_failed'' then Inr AuthFailed
            else if t = ''context_length_exceeded''
              then Inr (ContextLengthExceeded (of_nat (case num ''l'' of Some n \<Rightarrow> n | None \<Rightarrow> 0)))
            else if t = ''content_filtered'' then Inr (ContentFiltered msg)
            else if t = ''upstream_timeout'' then Inr UpstreamTimeout
            else if t = ''upstream_unavailable'' then Inr UpstreamUnavailable
            else if t = ''other''
              then Inr (OtherError (of_nat (case num ''s'' of Some n \<Rightarrow> n | None \<Rightarrow> 0)) msg)
            else Inl (InvalidErrorPayload (''unknown discriminator: '' @ t)))))"

section \<open>Event to row\<close>

definition event_dims :: "llm_event \<Rightarrow> str list" where
  "event_dims event =
     (let dims = replicate dim_count [];
          dims = dims[DIM_USER_ID := or_empty (map_option user_str (ev_user_id event))];
          dims = dims[DIM_API_KEY_ID := or_empty (map_option api_key_str (ev_api_key_id event))];
          dims = dims[DIM_MODEL := ev_model event];
          dims = dims[DIM_PROVIDER := id_key (ev_provider event)];
          dims = dims[DIM_SOURCE := or_empty (ev_source event)];
          dims = dims[DIM_ORG_ID := or_empty (map_option org_str (ev_org_id event))];
          dims = dims[DIM_PROJECT_ID := or_empty (map_option project_str (ev_project_id event))];
          dims = dims[DIM_ROUTE_ID := route_str (ev_route_id event)];
          dims = dims[DIM_MODEL_FAMILY := or_empty (ev_model_family event)];
          dims = dims[DIM_ENDPOINT := ev_endpoint event];
          dims = dims[DIM_TIER := ev_tier event];
          dims = dims[DIM_ERROR_TYPE := or_empty (map_option provider_error_type_key (ev_error event))];
          (user_tag, session_tag) = extract_tags (ev_metadata event);
          dims = dims[DIM_USER_TAG := user_tag];
          dims = dims[DIM_SESSION_TAG := session_tag]
      in dims)"

definition event_counters :: "llm_event \<Rightarrow> u32 list" where
  "event_counters event =
     (let u = ev_usage event;
          cs = replicate counter_count 0;
          cs = cs[COUNTER_INPUT_TOKENS := input_tokens u];
          cs = cs[COUNTER_OUTPUT_TOKENS := output_tokens u];
          cs = cs[COUNTER_CACHE_READ := cache_read_input_tokens u];
          cs = cs[COUNTER_CACHE_CREATION := cache_creation_input_tokens u];
          cs = cs[COUNTER_REASONING := reasoning_tokens u];
          cs = cs[COUNTER_AUDIO_IN := audio_input_tokens u];
          cs = cs[COUNTER_AUDIO_OUT := audio_output_tokens u];
          cs = cs[COUNTER_IMAGE := image_tokens u];
          cs = cs[COUNTER_VIDEO_SECONDS := video_seconds u];
          cs = cs[COUNTER_TOOL_USE := tool_use_tokens u];
          cs = cs[COUNTER_SEARCH_QUERIES := search_queries u];
          cs = cs[COUNTER_CLOSE_MS := (case time_to_close_ms (ev_latency event) of
                 Some n \<Rightarrow> n | None \<Rightarrow> 0)];
          cs = cs[COUNTER_IS_ERROR := (if ev_error event \<noteq> None then 1 else 0)]
      in cs)"

definition event_labels :: "externals \<Rightarrow> llm_event \<Rightarrow> str list" where
  "event_labels ext event =
     (let labels = replicate label_count [];
          labels = labels[LABEL_ERROR_JSON :=
            (case ev_error event of Some e \<Rightarrow> encode_error ext e | None \<Rightarrow> [])];
          labels = labels[LABEL_REQUEST_ID := or_empty (ev_request_id event)];
          labels = labels[LABEL_TRACE_ID := or_empty (map_option trace_id_to_hex (ev_trace_id event))];
          labels = labels[LABEL_CLIENT_IP := or_empty (map_option (ip_to_string ext) (ev_client_ip event))];
          labels = labels[LABEL_USER_AGENT := or_empty (ev_user_agent event)];
          labels = labels[LABEL_METADATA_JSON :=
            (case ev_metadata event of Some v \<Rightarrow> or_empty (json_to_string ext v) | None \<Rightarrow> [])];
          labels = labels[LABEL_METHOD := ev_method event];
          labels = labels[LABEL_PROVIDER_VARIANT :=
            (case ev_provider event of OpenAICompatible url \<Rightarrow> url | _ \<Rightarrow> [])]
      in labels)"

definition to_log_event :: "externals \<Rightarrow> llm_event \<Rightarrow> log_event" where
  "to_log_event ext event = \<lparr>
     le_id = event_id_fmt (ulid_to_string ext) (ev_id event),
     le_ts_ns = ev_ts_ns event,
     le_metric = ev_cost_nanodollars event,
     le_counters = event_counters event,
     le_latency_ms = total_ms (ev_latency event),
     le_latency_detail_ms = (case ttft_ms (ev_latency event) of Some n \<Rightarrow> n | None \<Rightarrow> 0),
     le_status = (case ev_http_status event of Some n \<Rightarrow> n | None \<Rightarrow> 0),
     le_flags = pack_flags event,
     le_dims = event_dims event,
     le_labels = event_labels ext event \<rparr>"

section \<open>Row to event\<close>

definition read_error :: "externals \<Rightarrow> bool \<Rightarrow> str \<Rightarrow> mapping_error + provider_error option" where
  "read_error ext has_error label =
     (if has_error \<and> label \<noteq> [] then res_bind (decode_error ext label) (\<lambda>e. Inr (Some e))
      else Inr None)"

definition read_metadata :: "externals \<Rightarrow> str \<Rightarrow> mapping_error + json option" where
  "read_metadata ext label =
     (if label = [] then Inr None
      else case json_from_str ext label of
        Inl e \<Rightarrow> Inl (InvalidMetadata e)
      | Inr v \<Rightarrow> Inr (Some v))"

definition read_trace_id :: "str \<Rightarrow> (mapping_error + trace_id option) run" where
  "read_trace_id label =
     (if label = [] then Ret (Inr None)
      else try_bind (hex_to_trace_id label) (\<lambda>t. Ret (Inr (Some t))))"

definition read_client_ip :: "externals \<Rightarrow> str \<Rightarrow> mapping_error + ip_addr option" where
  "read_client_ip ext label =
     (if label = [] then Inr None
      else case ip_from_str ext label of
        None \<Rightarrow> Inl (InvalidIp label)
      | Some ip \<Rightarrow> Inr (Some ip))"

definition read_method :: "externals \<Rightarrow> str \<Rightarrow> mapping_error + http_method" where
  "read_method ext label =
     (if label = [] then Inr ''POST''
      else case method_from_bytes ext label of
        None \<Rightarrow> Inl (InvalidMethod label)
      | Some m \<Rightarrow> Inr m)"

definition read_usage :: "u32 list \<Rightarrow> usage" where
  "read_usage cs = \<lparr>
     input_tokens = cs ! COUNTER_INPUT_TOKENS,
     output_tokens = cs ! COUNTER_OUTPUT_TOKENS,
     cache_read_input_tokens = cs ! COUNTER_CACHE_READ,
     cache_creation_input_tokens = cs ! COUNTER_CACHE_CREATION,
     reasoning_tokens = cs ! COUNTER_REASONING,
     audio_input_tokens = cs ! COUNTER_AUDIO_IN,
     audio_output_tokens = cs ! COUNTER_AUDIO_OUT,
     image_tokens = cs ! COUNTER_IMAGE,
     video_seconds = cs ! COUNTER_VIDEO_SECONDS,
     tool_use_tokens = cs ! COUNTER_TOOL_USE,
     search_queries = cs ! COUNTER_SEARCH_QUERIES \<rparr>"

definition from_event_ref :: "externals \<Rightarrow> log_event \<Rightarrow> (mapping_error + llm_event) run" where
  "from_event_ref ext r =
     (let dims = le_dims r; labels = le_labels r; flags = le_flags r in
      case event_id_from_str (ulid_from_string ext) (le_id r) of
        Inl _ \<Rightarrow> Ret (Inl (InvalidEventId (le_id r)))
      | Inr ident \<Rightarrow>
        try_bind (Ret (read_error ext (has_flag flags FLAG_HAS_ERROR) (labels ! LABEL_ERROR_JSON)))
        (\<lambda>error.
        try_bind (Ret (read_metadata ext (labels ! LABEL_METADATA_JSON))) (\<lambda>metadata.
        try_bind (read_trace_id (labels ! LABEL_TRACE_ID)) (\<lambda>trace_id.
        try_bind (Ret (read_client_ip ext (labels ! LABEL_CLIENT_IP))) (\<lambda>client_ip.
        try_bind (Ret (read_method ext (labels ! LABEL_METHOD))) (\<lambda>verb.
        Ret (Inr \<lparr>
          ev_id = ident,
          ev_ts_ns = le_ts_ns r,
          ev_user_id = opt_id UserId (dims ! DIM_USER_ID),
          ev_api_key_id = opt_id ApiKeyId (dims ! DIM_API_KEY_ID),
          ev_org_id = opt_id OrgId (dims ! DIM_ORG_ID),
          ev_project_id = opt_id ProjectId (dims ! DIM_PROJECT_ID),
          ev_route_id = RouteId (dims ! DIM_ROUTE_ID),
          ev_provider = read_provider (dims ! DIM_PROVIDER) (labels ! LABEL_PROVIDER_VARIANT),
          ev_model = dims ! DIM_MODEL,
          ev_model_family = opt_smol (dims ! DIM_MODEL_FAMILY),
          ev_endpoint = dims ! DIM_ENDPOINT,
          ev_method = verb,
          ev_http_status = (if has_flag flags FLAG_HAS_HTTP_STATUS then Some (le_status r) else None),
          ev_usage = read_usage (le_counters r),
          ev_cost_nanodollars = le_metric r,
          ev_latency = \<lparr>
            ttft_ms = (if has_flag flags FLAG_HAS_TTFT then Some (le_latency_detail_ms r) else None),
            total_ms = le_latency_ms r,
            time_to_close_ms = (if has_flag flags FLAG_HAS_CLOSE_MS
              then Some (le_counters r ! COUNTER_CLOSE_MS) else None) \<rparr>,
          ev_flags = unpack_event_flags flags,
          ev_error = error,
          ev_request_sha256 = replicate 32 0,
          ev_response_sha256 = replicate 32 0,
          ev_client_ip = client_ip,
          ev_user_agent = opt_smol (labels ! LABEL_USER_AGENT),
          ev_request_id = opt_smol (labels ! LABEL_REQUEST_ID),
          ev_trace_id = trace_id,
          ev_source = opt_smol (dims ! DIM_SOURCE),
          ev_ingested_at = le_ts_ns r,
          ev_metadata = metadata,
          ev_tier = dims ! DIM_TIER \<rparr>)))))))"

section \<open>Trace ids survive\<close>

lemma hex_value_hex_digit: "n < 16 \<Longrightarrow> hex_value (hex_digit n) = Some n"
  by (auto simp: hex_value_def Let_def of_char_hex_digit)

lemma hex_digit_not_plus: "n < 16 \<Longrightarrow> hex_digit n \<noteq> CHR ''+''"
proof
  assume "n < 16" "hex_digit n = CHR ''+''"
  then have "hex_value (CHR ''+'') = Some n" using hex_value_hex_digit [of n] by simp
  then show False by (simp add: hex_value_def)
qed

lemma u8_from_hex2_hex02: "u8_from_hex2 (hex02 b) = Some b"
proof -
  have "unat b div 16 < 16"
    using unat_u8_less [of b] by (simp add: less_mult_imp_div_less)
  then show ?thesis
    by (simp add: hex02_def hex_digit_not_plus hex_value_hex_digit flip: of_nat_mult of_nat_add)
qed

lemma drop_concat_hex02: "drop (i * 2) (concat (map hex02 bs)) = concat (map hex02 (drop i bs))"
proof (induction i arbitrary: bs)
  case (Suc i)
  then show ?case by (cases bs) (simp_all add: hex02_def)
qed simp

lemma is_ascii_hex: "is_ascii (concat (map hex02 bs))"
proof -
  have "(of_char c :: nat) < 128" if "c \<in> set (hex02 b)" for c b
    using that unat_u8_less [of b]
    by (auto simp: hex02_def of_char_hex_digit less_mult_imp_div_less)
  then show ?thesis by (auto simp: is_ascii_def)
qed

lemma hex_pairs_hex02:
  "i + n \<le> length bs \<Longrightarrow> hex_pairs (concat (map hex02 bs)) i n = Ret (Inr (take n (drop i bs)))"
proof (induction n arbitrary: i)
  case (Suc n)
  then obtain b rest where d: "drop i bs = b # rest"
    by (cases "drop i bs") auto
  then have rest: "drop (Suc i) bs = rest"
    by (metis drop_Suc drop_tl list.sel(3))
  have "str_slice (concat (map hex02 bs)) (i * 2) (i * 2 + 2) = Ret (hex02 b)"
    using Suc.prems str_slice_ascii [OF is_ascii_hex [of bs], of "i * 2" "i * 2 + 2"]
    by (simp add: length_concat_hex02 drop_concat_hex02 d) (simp add: hex02_def)
  then show ?case
    using Suc.IH [of "Suc i"] Suc.prems by (simp add: u8_from_hex2_hex02 d rest)
qed simp

lemma hex_to_trace_id_to_hex: "is_trace_id t \<Longrightarrow> hex_to_trace_id (trace_id_to_hex t) = Ret (Inr t)"
  using hex_pairs_hex02 [of 0 16 "trace_bytes t"]
  by (simp add: hex_to_trace_id_def trace_id_to_hex_def is_trace_id_def length_concat_hex02)

interpretation trace_codec: codec trace_id_to_hex hex_to_trace_id "\<lambda>t. Ret (Inr t)" is_trace_id
  by unfold_locales (simp_all add: hex_to_trace_id_to_hex)

section \<open>Errors survive\<close>

text \<open>The JSON object \<open>encode_error\<close> writes out, and the part of an error it keeps.\<close>

fun error_object :: "provider_error \<Rightarrow> json" where
  "error_object (RateLimited (Some d)) =
     JObject [(''t'', JString ''rate_limited''), (''r'', JNumber (PosInt (duration_as_secs d)))]"
| "error_object (RateLimited None) = JObject [(''t'', JString ''rate_limited'')]"
| "error_object (InvalidRequest m) =
     JObject [(''t'', JString ''invalid_request''), (''m'', JString m)]"
| "error_object AuthFailed = JObject [(''t'', JString ''auth_failed'')]"
| "error_object (ContextLengthExceeded l) =
     JObject [(''t'', JString ''context_length_exceeded''), (''l'', JNumber (PosInt (unat l)))]"
| "error_object (ContentFiltered r) =
     JObject [(''t'', JString ''content_filtered''), (''m'', JString r)]"
| "error_object UpstreamTimeout = JObject [(''t'', JString ''upstream_timeout'')]"
| "error_object UpstreamUnavailable = JObject [(''t'', JString ''upstream_unavailable'')]"
| "error_object (OtherError s m) =
     JObject [(''t'', JString ''other''), (''s'', JNumber (PosInt (unat s))), (''m'', JString m)]"

fun persisted_error :: "provider_error \<Rightarrow> provider_error" where
  "persisted_error (RateLimited d) =
     RateLimited (map_option (\<lambda>d. duration_from_secs (duration_as_secs d)) d)"
| "persisted_error e = e"

lemma decode_encode_error:
  assumes "json_from_str ext (encode_error ext e) = Inr (error_object e)"
  shows "decode_error ext (encode_error ext e) = Inr (persisted_error e)"
proof (cases e)
  case (RateLimited d)
  with assms show ?thesis by (cases d) (simp_all add: decode_error_def)
qed (use assms in \<open>simp_all add: decode_error_def or_empty_def\<close>)

lemma encode_error_not_Nil: "encode_error ext e \<noteq> []"
  by (cases "(ext, e)" rule: encode_error.cases) simp_all

section \<open>Events survive\<close>

text \<open>
  What the other packages have to do for this event: the ULID, the JSON texts, the address and
  the method token each parse back to the value they were printed from.
\<close>

definition texts_parse_back :: "externals \<Rightarrow> llm_event \<Rightarrow> bool" where
  "texts_parse_back ext e \<longleftrightarrow>
     ulid_from_string ext (ulid_to_string ext (as_ulid (ev_id e))) = Some (as_ulid (ev_id e)) \<and>
     (case ev_error e of None \<Rightarrow> True
      | Some er \<Rightarrow> json_from_str ext (encode_error ext er) = Inr (error_object er)) \<and>
     (case ev_metadata e of None \<Rightarrow> True
      | Some v \<Rightarrow> (case json_to_string ext v of None \<Rightarrow> False
          | Some t \<Rightarrow> t \<noteq> [] \<and> json_from_str ext t = Inr v)) \<and>
     (case ev_client_ip e of None \<Rightarrow> True
      | Some ip \<Rightarrow> ip_to_string ext ip \<noteq> [] \<and> ip_from_str ext (ip_to_string ext ip) = Some ip) \<and>
     ev_method e \<noteq> [] \<and> method_from_bytes ext (ev_method e) = Some (ev_method e)"

definition non_empty :: "('a \<Rightarrow> str) \<Rightarrow> 'a option \<Rightarrow> 'a option" where
  "non_empty f x = Option.bind x (\<lambda>a. if f a = [] then None else Some a)"

text \<open>
  The part of an event the row keeps: an empty optional string is absent, retry hints are whole
  seconds, the two hashes are zero, only the six known flag bits stay and the ingestion time is
  the event time.
\<close>

definition persisted :: "llm_event \<Rightarrow> llm_event" where
  "persisted e = e \<lparr>
     ev_user_id := non_empty user_str (ev_user_id e),
     ev_api_key_id := non_empty api_key_str (ev_api_key_id e),
     ev_org_id := non_empty org_str (ev_org_id e),
     ev_project_id := non_empty project_str (ev_project_id e),
     ev_model_family := non_empty (\<lambda>s. s) (ev_model_family e),
     ev_flags := ev_flags e AND mask 6,
     ev_error := map_option persisted_error (ev_error e),
     ev_request_sha256 := replicate 32 0,
     ev_response_sha256 := replicate 32 0,
     ev_user_agent := non_empty (\<lambda>s. s) (ev_user_agent e),
     ev_request_id := non_empty (\<lambda>s. s) (ev_request_id e),
     ev_source := non_empty (\<lambda>s. s) (ev_source e),
     ev_ingested_at := ev_ts_ns e \<rparr>"

lemma event_dims_nth:
  "event_dims e ! DIM_USER_ID = or_empty (map_option user_str (ev_user_id e))"
  "event_dims e ! DIM_API_KEY_ID = or_empty (map_option api_key_str (ev_api_key_id e))"
  "event_dims e ! DIM_MODEL = ev_model e"
  "event_dims e ! DIM_PROVIDER = id_key (ev_provider e)"
  "event_dims e ! DIM_SOURCE = or_empty (ev_source e)"
  "event_dims e ! DIM_ORG_ID = or_empty (map_option org_str (ev_org_id e))"
  "event_dims e ! DIM_PROJECT_ID = or_empty (map_option project_str (ev_project_id e))"
  "event_dims e ! DIM_ROUTE_ID = route_str (ev_route_id e)"
  "event_dims e ! DIM_MODEL_FAMILY = or_empty (ev_model_family e)"
  "event_dims e ! DIM_ENDPOINT = ev_endpoint e"
  "event_dims e ! DIM_TIER = ev_tier e"
  "event_dims e ! DIM_USER_TAG = fst (extract_tags (ev_metadata e))"
  "event_dims e ! DIM_SESSION_TAG = snd (extract_tags (ev_metadata e))"
  by (simp_all add: event_dims_def Let_def dim_defs dim_count_def case_prod_unfold)

lemma read_usage_event_counters: "read_usage (event_counters e) = ev_usage e"
  by (simp add: read_usage_def event_counters_def Let_def counter_defs counter_count_def)

lemma event_counters_close:
  "event_counters e ! COUNTER_CLOSE_MS = (case time_to_close_ms (ev_latency e) of Some n \<Rightarrow> n | None \<Rightarrow> 0)"
  by (simp add: event_counters_def Let_def counter_defs counter_count_def)

lemma event_labels_nth:
  "event_labels ext e ! LABEL_ERROR_JSON =
     (case ev_error e of Some e \<Rightarrow> encode_error ext e | None \<Rightarrow> [])"
  "event_labels ext e ! LABEL_REQUEST_ID = or_empty (ev_request_id e)"
  "event_labels ext e ! LABEL_TRACE_ID = or_empty (map_option trace_id_to_hex (ev_trace_id e))"
  "event_labels ext e ! LABEL_CLIENT_IP = or_empty (map_option (ip_to_string ext) (ev_client_ip e))"
  "event_labels ext e ! LABEL_USER_AGENT = or_empty (ev_user_agent e)"
  "event_labels ext e ! LABEL_METADATA_JSON =
     (case ev_metadata e of Some v \<Rightarrow> or_empty (json_to_string ext v) | None \<Rightarrow> [])"
  "event_labels ext e ! LABEL_METHOD = ev_method e"
  "event_labels ext e ! LABEL_PROVIDER_VARIANT =
     (case ev_provider e of OpenAICompatible url \<Rightarrow> url | _ \<Rightarrow> [])"
  by (simp_all add: event_labels_def Let_def label_defs label_count_def)

lemma opt_id_or_empty:
  "(\<And>i. mk (f i) = i) \<Longrightarrow> opt_id mk (or_empty (map_option f x)) = non_empty f x"
  by (cases x) (simp_all add: opt_id_def or_empty_def non_empty_def)

lemma opt_smol_or_empty: "opt_smol (or_empty x) = non_empty (\<lambda>s. s) x"
  by (cases x) (simp_all add: opt_smol_def or_empty_def non_empty_def)

lemma read_provider_id_key:
  "read_provider (id_key p) (case p of OpenAICompatible url \<Rightarrow> url | _ \<Rightarrow> []) = p"
  by (cases p) (simp_all add: read_provider_def from_id_key_def)


lemma read_back_parts:
  assumes "texts_parse_back ext e"
  shows "read_error ext (ev_error e \<noteq> None)
      (case ev_error e of Some er \<Rightarrow> encode_error ext er | None \<Rightarrow> []) =
      Inr (map_option persisted_error (ev_error e))"
    and "read_metadata ext
      (case ev_metadata e of Some v \<Rightarrow> or_empty (json_to_string ext v) | None \<Rightarrow> []) = Inr (ev_metadata e)"
    and "read_client_ip ext (or_empty (map_option (ip_to_string ext) (ev_client_ip e))) =
      Inr (ev_client_ip e)"
    and "read_method ext (ev_method e) = Inr (ev_method e)"
proof -
  show "read_error ext (ev_error e \<noteq> None)
      (case ev_error e of Some er \<Rightarrow> encode_error ext er | None \<Rightarrow> []) =
      Inr (map_option persisted_error (ev_error e))"
    using assms by (cases "ev_error e")
      (simp_all add: texts_parse_back_def read_error_def decode_encode_error encode_error_not_Nil)
  show "read_metadata ext
      (case ev_metadata e of Some v \<Rightarrow> or_empty (json_to_string ext v) | None \<Rightarrow> []) = Inr (ev_metadata e)"
    using assms by (cases "ev_metadata e")
      (auto simp: texts_parse_back_def read_metadata_def or_empty_def split: option.splits)
  show "read_client_ip ext (or_empty (map_option (ip_to_string ext) (ev_client_ip e))) =
      Inr (ev_client_ip e)"
    using assms by (cases "ev_client_ip e")
      (simp_all add: texts_parse_back_def read_client_ip_def or_empty_def)
  show "read_method ext (ev_method e) = Inr (ev_method e)"
    using assms by (simp add: texts_parse_back_def read_method_def)
qed

lemma read_trace_id_back:
  "(\<forall>t. ev_trace_id e = Some t \<longrightarrow> is_trace_id t) \<Longrightarrow>
     read_trace_id (or_empty (map_option trace_id_to_hex (ev_trace_id e))) = Ret (Inr (ev_trace_id e))"
proof (cases "ev_trace_id e")
  case (Some t)
  assume "\<forall>t. ev_trace_id e = Some t \<longrightarrow> is_trace_id t"
  with Some have t: "is_trace_id t" by simp
  then have "length (trace_id_to_hex t) = 32"
    by (simp add: trace_id_to_hex_def is_trace_id_def length_concat_hex02 del: length_concat)
  then have "trace_id_to_hex t \<noteq> []" by auto
  with Some t show ?thesis
    by (simp add: read_trace_id_def or_empty_def trace_codec.dec_enc)
qed (simp add: read_trace_id_def or_empty_def)

lemma from_event_ref_to_log_event:
  assumes "texts_parse_back ext e" and "\<forall>t. ev_trace_id e = Some t \<longrightarrow> is_trace_id t"
  shows "from_event_ref ext (to_log_event ext e) = Ret (Inr (persisted e))"
proof -
  have id_ok: "event_id_from_str (ulid_from_string ext) (event_id_fmt (ulid_to_string ext) (ev_id e)) =
      Inr (ev_id e)"
    using assms(1) by (simp add: texts_parse_back_def event_id_from_str_def event_id_fmt_def)
  have lat: "\<lparr> ttft_ms = (if ttft_ms (ev_latency e) \<noteq> None
        then Some (case ttft_ms (ev_latency e) of Some n \<Rightarrow> n | None \<Rightarrow> 0) else None),
      total_ms = total_ms (ev_latency e),
      time_to_close_ms = (if time_to_close_ms (ev_latency e) \<noteq> None
        then Some (case time_to_close_ms (ev_latency e) of Some n \<Rightarrow> n | None \<Rightarrow> 0) else None) \<rparr>
      = ev_latency e"
    by (auto intro!: latencies.equality split: option.splits)
  have st: "(if ev_http_status e \<noteq> None
      then Some (case ev_http_status e of Some n \<Rightarrow> n | None \<Rightarrow> 0) else None) = ev_http_status e"
    by (cases "ev_http_status e") simp_all
  show ?thesis
    unfolding from_event_ref_def to_log_event_def Let_def log_event.select_convs
      id_ok sum.case has_flag_pack event_labels_nth read_back_parts [OF assms(1)]
      read_trace_id_back [OF assms(2)] try_bind_simps event_dims_nth read_provider_id_key
      read_usage_event_counters event_counters_close unpack_pack_flags lat st opt_smol_or_empty
    by (simp add: persisted_def opt_id_or_empty)
qed

text \<open>
  C10: reading back the row of an event gives the event, up to the documented losses of
  \<open>persisted\<close>, for every event whose trace id has sixteen bytes and whose ULID, JSON texts,
  address and method token parse back in the packages that print them. In particular absent and
  zero values of the optional numbers stay distinct and the base URL of an OpenAI-compatible
  provider is kept.
\<close>

theorem row_roundtrip:
  assumes "texts_parse_back ext e" and "\<forall>t. ev_trace_id e = Some t \<longrightarrow> is_trace_id t"
  shows "from_event_ref ext (to_log_event ext e) = Ret (Inr (persisted e))"
  by (rule from_event_ref_to_log_event [OF assms])

definition sample_event :: llm_event where
  "sample_event = \<lparr>
     ev_id = EventId 7, ev_ts_ns = 1700000000000000000, ev_user_id = Some (UserId ''u1''),
     ev_api_key_id = Some (ApiKeyId ''k1''), ev_org_id = None, ev_project_id = None,
     ev_route_id = RouteId ''chat'', ev_provider = OpenAICompatible ''https://llm.local'',
     ev_model = ''m'', ev_model_family = None, ev_endpoint = ''/v1/chat/completions'',
     ev_method = ''POST'', ev_http_status = Some 429, ev_usage = usage_default,
     ev_cost_nanodollars = 5, ev_latency = latencies_default \<lparr> ttft_ms := Some 0 \<rparr>,
     ev_flags = 5, ev_error = Some (RateLimited (Some 1500000000)),
     ev_request_sha256 = replicate 32 0, ev_response_sha256 = replicate 32 0,
     ev_client_ip = None, ev_user_agent = None, ev_request_id = None,
     ev_trace_id = Some (TraceId (replicate 16 171)), ev_source = None, ev_ingested_at = 9,
     ev_metadata = None, ev_tier = ''free'' \<rparr>"

definition sample_ext :: externals where
  "sample_ext = \<lparr>
     ulid_to_string = (\<lambda>u. replicate u (CHR ''0'')),
     ulid_from_string = (\<lambda>s. Some (length s)),
     json_to_string = (\<lambda>_. None),
     json_from_str = (\<lambda>_. Inr (JObject [(''t'', JString ''rate_limited''), (''r'', JNumber (PosInt 1))])),
     method_from_bytes = (\<lambda>s. Some s),
     ip_to_string = (\<lambda>_. ''127.0.0.1''),
     ip_from_str = (\<lambda>_. None) \<rparr>"

lemma sample_row_decodes:
  "from_event_ref sample_ext (to_log_event sample_ext sample_event) = Ret (Inr (persisted sample_event))"
  by (rule from_event_ref_to_log_event)
    (simp_all add: texts_parse_back_def sample_event_def sample_ext_def is_trace_id_def duration_as_secs_def)

theorem row_roundtrip_witness:
  "from_event_ref sample_ext (to_log_event sample_ext sample_event) = Ret (Inr (persisted sample_event))"
  by (rule row_roundtrip)
    (simp_all add: texts_parse_back_def sample_event_def sample_ext_def is_trace_id_def
      duration_as_secs_def)

section \<open>Query filters\<close>

datatype cursor = Cursor i64

record event_filter =
  f_user_id :: "str option"
  f_api_key_id :: "str option"
  f_model :: "str option"
  f_provider :: "str option"
  f_source :: "str option"
  f_from_ts_ns :: "i64 option"
  f_to_ts_ns :: "i64 option"
  f_http_status_min :: "u16 option"
  f_http_status_max :: "u16 option"
  f_meta_user_tag :: "str option"
  f_meta_session_tag :: "str option"

definition event_filter_default :: event_filter where
  "event_filter_default = \<lparr> f_user_id = None, f_api_key_id = None, f_model = None,
     f_provider = None, f_source = None, f_from_ts_ns = None, f_to_ts_ns = None,
     f_http_status_min = None, f_http_status_max = None, f_meta_user_tag = None,
     f_meta_session_tag = None \<rparr>"

record query_filter =
  qf_dims :: "str option list"
  qf_from_ts_ns :: "i64 option"
  qf_to_ts_ns :: "i64 option"
  qf_status_min :: "u16 option"
  qf_status_max :: "u16 option"
  qf_cursor :: "i64 option"

definition to_query_filter :: "event_filter \<Rightarrow> query_filter" where
  "to_query_filter f =
     (let dims = replicate dim_count None;
          dims = dims[DIM_USER_ID := f_user_id f];
          dims = dims[DIM_API_KEY_ID := f_api_key_id f];
          dims = dims[DIM_MODEL := f_model f];
          dims = dims[DIM_PROVIDER := f_provider f];
          dims = dims[DIM_SOURCE := f_source f];
          dims = dims[DIM_USER_TAG := f_meta_user_tag f];
          dims = dims[DIM_SESSION_TAG := f_meta_session_tag f]
      in \<lparr> qf_dims = dims, qf_from_ts_ns = f_from_ts_ns f, qf_to_ts_ns = f_to_ts_ns f,
           qf_status_min = f_http_status_min f, qf_status_max = f_http_status_max f,
           qf_cursor = None \<rparr>)"

definition with_cursor :: "query_filter \<Rightarrow> cursor option \<Rightarrow> query_filter" where
  "with_cursor qf c = qf \<lparr> qf_cursor := map_option (\<lambda>c. case c of Cursor n \<Rightarrow> n) c \<rparr>"

end
