(* ===== verification/Schema.thy ===== *)
theory Schema
  imports Event
begin

text \<open>
  The wire format and the errors of the server: \<open>crates/keplor-server/src/schema.rs\<close>,
  \<open>error.rs\<close> and \<open>metrics.rs\<close>, with the storage errors of
  \<open>crates/keplor-store/src/error.rs\<close>.
\<close>

section \<open>Errors\<close>

datatype store_error =
    Migration u32 str | StoreInternal str | Io str | StoreOther str | ChannelFull | ChannelClosed
  | LockPoisoned str | ArchiveS3 str

datatype server_error =
    Validation str | UnknownProvider str | InvalidTimestamp str | StoreErr store_error
  | JsonErr str | StorageFull str | Internal str

fun store_error_fmt :: "store_error \<Rightarrow> str" where
  "store_error_fmt (Migration v reason) =
     ''migration v'' @ nat_to_string (unat v) @ '' failed: '' @ reason"
| "store_error_fmt (StoreInternal m) = ''internal: '' @ m"
| "store_error_fmt (Io m) = ''io: '' @ m"
| "store_error_fmt (StoreOther m) = m"
| "store_error_fmt ChannelFull = ''batch writer channel full''"
| "store_error_fmt ChannelClosed = ''batch writer channel closed''"
| "store_error_fmt (LockPoisoned m) = ''lock poisoned: '' @ m"
| "store_error_fmt (ArchiveS3 m) = ''archive (s3): '' @ m"

fun server_error_fmt :: "server_error \<Rightarrow> str" where
  "server_error_fmt (Validation m) = ''validation: '' @ m"
| "server_error_fmt (UnknownProvider m) = ''unknown provider: '' @ m"
| "server_error_fmt (InvalidTimestamp m) = ''invalid timestamp: '' @ m"
| "server_error_fmt (StoreErr e) = ''store: '' @ store_error_fmt e"
| "server_error_fmt (JsonErr m) = ''json: '' @ m"
| "server_error_fmt (StorageFull m) = ''storage full: '' @ m"
| "server_error_fmt (Internal m) = ''internal: '' @ m"

text \<open>Status code and message of the HTTP response.\<close>

fun into_response :: "server_error \<Rightarrow> u16 \<times> str" where
  "into_response (Validation m) = (400, server_error_fmt (Validation m))"
| "into_response (InvalidTimestamp m) = (400, server_error_fmt (InvalidTimestamp m))"
| "into_response (JsonErr m) = (400, server_error_fmt (JsonErr m))"
| "into_response (UnknownProvider m) = (422, server_error_fmt (UnknownProvider m))"
| "into_response (StorageFull m) = (507, server_error_fmt (StorageFull m))"
| "into_response (StoreErr ChannelFull) = (503, server_error_fmt (StoreErr ChannelFull))"
| "into_response (StoreErr ChannelClosed) = (503, server_error_fmt (StoreErr ChannelClosed))"
| "into_response (StoreErr _) = (500, ''internal error'')"
| "into_response (Internal _) = (500, ''internal error'')"

fun error_type_label :: "server_error \<Rightarrow> str" where
  "error_type_label (Validation _) = ''validation''"
| "error_type_label (UnknownProvider _) = ''unknown_provider''"
| "error_type_label (InvalidTimestamp _) = ''invalid_timestamp''"
| "error_type_label (StoreErr _) = ''store''"
| "error_type_label (JsonErr _) = ''json''"
| "error_type_label (StorageFull _) = ''storage_full''"
| "error_type_label (Internal _) = ''internal''"

section \<open>Requests\<close>

record ingest_usage =
  iu_input_tokens :: u32
  iu_output_tokens :: u32
  iu_cache_read_input_tokens :: u32
  iu_cache_creation_input_tokens :: u32
  iu_reasoning_tokens :: u32
  iu_audio_input_tokens :: u32
  iu_audio_output_tokens :: u32
  iu_image_tokens :: u32
  iu_tool_use_tokens :: u32

definition ingest_usage_default :: ingest_usage where
  "ingest_usage_default = \<lparr> iu_input_tokens = 0, iu_output_tokens = 0,
     iu_cache_read_input_tokens = 0, iu_cache_creation_input_tokens = 0, iu_reasoning_tokens = 0,
     iu_audio_input_tokens = 0, iu_audio_output_tokens = 0, iu_image_tokens = 0,
     iu_tool_use_tokens = 0 \<rparr>"

record ingest_latency =
  il_ttft_ms :: "u32 option"
  il_total_ms :: u32
  il_time_to_close_ms :: "u32 option"

definition ingest_latency_default :: ingest_latency where
  "ingest_latency_default = \<lparr> il_ttft_ms = None, il_total_ms = 0, il_time_to_close_ms = None \<rparr>"

record ingest_flags =
  if_streaming :: bool
  if_tool_calls :: bool
  if_reasoning :: bool
  if_stream_incomplete :: bool
  if_cache_used :: bool

definition ingest_flags_default :: ingest_flags where
  "ingest_flags_default = \<lparr> if_streaming = False, if_tool_calls = False, if_reasoning = False,
     if_stream_incomplete = False, if_cache_used = False \<rparr>"

record ingest_error =
  ie_kind :: str
  ie_message :: "str option"
  ie_status :: "u16 option"

datatype timestamp_input = EpochNanos i64 | Iso8601 str

record ingest_event =
  in_model :: str
  in_provider :: str
  in_cost_nanodollars :: "i64 option"
  in_usage :: ingest_usage
  in_latency :: ingest_latency
  in_timestamp :: "timestamp_input option"
  in_method :: str
  in_endpoint :: str
  in_http_status :: "u16 option"
  in_source :: "str option"
  in_user_id :: "str option"
  in_api_key_id :: "str option"
  in_org_id :: "str option"
  in_project_id :: "str option"
  in_route_id :: "str option"
  in_flags :: ingest_flags
  in_error :: "ingest_error option"
  in_trace_id :: "str option"
  in_request_id :: "str option"
  in_client_ip :: "str option"
  in_user_agent :: "str option"
  in_metadata :: "json option"

definition default_method :: str where
  "default_method = ''POST''"

text \<open>The event a request with only a model and a provider deserialises to.\<close>

definition minimal_event :: "str \<Rightarrow> str \<Rightarrow> ingest_event" where
  "minimal_event m p = \<lparr> in_model = m, in_provider = p,
     in_cost_nanodollars = None, in_usage = ingest_usage_default,
     in_latency = ingest_latency_default, in_timestamp = None, in_method = default_method,
     in_endpoint = [], in_http_status = None, in_source = None, in_user_id = None,
     in_api_key_id = None, in_org_id = None, in_project_id = None, in_route_id = None,
     in_flags = ingest_flags_default, in_error = None, in_trace_id = None, in_request_id = None,
     in_client_ip = None, in_user_agent = None, in_metadata = None \<rparr>"

section \<open>Responses\<close>

record ingest_response =
  resp_id :: str
  resp_cost_nanodollars :: i64
  resp_model :: str
  resp_provider :: str

datatype batch_item_result = ItemOk ingest_response | ItemErr str

record batch_response =
  batch_results :: "batch_item_result list"
  batch_accepted :: usize
  batch_rejected :: usize

end
