(* ===== verification/Validate.thy ===== *)
theory Validate
  imports Schema
begin

text \<open>
  Input validation: \<open>crates/keplor-server/src/validate.rs\<close>. The wall clock is the argument
  \<open>now_ns\<close>.
\<close>

definition MAX_TOKENS :: u32 where "MAX_TOKENS = 10000000"
definition MAX_COST_NANODOLLARS :: i64 where "MAX_COST_NANODOLLARS = 1000000000000"
definition MAX_ATTR_LEN :: usize where "MAX_ATTR_LEN = 256"
definition MAX_ENDPOINT_LEN :: usize where "MAX_ENDPOINT_LEN = 512"
definition MAX_METADATA_BYTES :: usize where "MAX_METADATA_BYTES = 65536"
definition MIN_TS_NS :: i64 where "MIN_TS_NS = 1577836800000000000"

definition token_fields :: "ingest_usage \<Rightarrow> (str \<times> u32) list" where
  "token_fields u =
     [(''input_tokens'', iu_input_tokens u),
      (''output_tokens'', iu_output_tokens u),
      (''cache_read_input_tokens'', iu_cache_read_input_tokens u),
      (''cache_creation_input_tokens'', iu_cache_creation_input_tokens u),
      (''reasoning_tokens'', iu_reasoning_tokens u),
      (''audio_input_tokens'', iu_audio_input_tokens u),
      (''audio_output_tokens'', iu_audio_output_tokens u),
      (''image_tokens'', iu_image_tokens u),
      (''tool_use_tokens'', iu_tool_use_tokens u)]"

fun check_tokens :: "(str \<times> u32) list \<Rightarrow> server_error + unit" where
  "check_tokens [] = Inr ()"
| "check_tokens ((name, val) # rest) =
     (if MAX_TOKENS < val
      then Inl (Validation (name @ '' = '' @ nat_to_string (unat val) @ '' exceeds maximum '' @
        nat_to_string (unat MAX_TOKENS)))
      else check_tokens rest)"

definition validate_tokens :: "ingest_usage \<Rightarrow> server_error + unit" where
  "validate_tokens u = check_tokens (token_fields u)"

definition check_len :: "str option \<Rightarrow> str \<Rightarrow> usize \<Rightarrow> server_error + unit" where
  "check_len v name max_len =
     (case v of
        None \<Rightarrow> Inr ()
      | Some s \<Rightarrow> if max_len < length s
          then Inl (Validation (name @ '' exceeds '' @ nat_to_string max_len @ '' characters''))
          else Inr ())"

definition guard :: "bool \<Rightarrow> str \<Rightarrow> server_error + unit" where
  "guard bad msg = (if bad then Inl (Validation msg) else Inr ())"

definition check_cost :: "i64 option \<Rightarrow> server_error + unit" where
  "check_cost c =
     (case c of
        None \<Rightarrow> Inr ()
      | Some cost \<Rightarrow>
          res_bind (guard (cost < 0) ''cost_nanodollars must not be negative'') (\<lambda>_.
          guard (MAX_COST_NANODOLLARS < cost)
            (''cost_nanodollars '' @ int_to_string cost @ '' exceeds maximum '' @
             int_to_string MAX_COST_NANODOLLARS)))"

definition check_timestamp :: "i64 \<Rightarrow> timestamp_input option \<Rightarrow> server_error + unit" where
  "check_timestamp now_ns ts =
     (case ts of
        Some (EpochNanos ns) \<Rightarrow>
          res_bind (guard (ns < MIN_TS_NS) ''timestamp is before 2020-01-01'') (\<lambda>_.
          let future_limit = wrap_i64 (now_ns + 86400 * 1000000000) in
          guard (future_limit < ns) ''timestamp is more than 24 hours in the future'')
      | _ \<Rightarrow> Inr ())"

definition metadata_size :: "externals \<Rightarrow> json \<Rightarrow> usize" where
  "metadata_size ext v = (case json_to_string ext v of Some s \<Rightarrow> length s | None \<Rightarrow> 0)"

definition check_metadata :: "externals \<Rightarrow> json option \<Rightarrow> server_error + unit" where
  "check_metadata ext md =
     (case md of
        None \<Rightarrow> Inr ()
      | Some v \<Rightarrow>
          (let size = metadata_size ext v in
           guard (MAX_METADATA_BYTES < size)
             (''metadata JSON exceeds '' @ nat_to_string MAX_METADATA_BYTES @ '' bytes ('' @
              nat_to_string size @ '' bytes)'')))"

definition validate :: "externals \<Rightarrow> i64 \<Rightarrow> ingest_event \<Rightarrow> server_error + unit" where
  "validate ext now_ns event =
     res_bind (guard (in_model event = []) ''model is required'') (\<lambda>_.
     res_bind (guard (in_provider event = []) ''provider is required'') (\<lambda>_.
     res_bind (guard (256 < length (in_model event)) ''model exceeds 256 characters'') (\<lambda>_.
     res_bind (guard (128 < length (in_provider event)) ''provider exceeds 128 characters'') (\<lambda>_.
     res_bind (validate_tokens (in_usage event)) (\<lambda>_.
     res_bind (check_cost (in_cost_nanodollars event)) (\<lambda>_.
     res_bind (check_timestamp now_ns (in_timestamp event)) (\<lambda>_.
     res_bind (check_len (in_user_id event) ''user_id'' MAX_ATTR_LEN) (\<lambda>_.
     res_bind (check_len (in_api_key_id event) ''api_key_id'' MAX_ATTR_LEN) (\<lambda>_.
     res_bind (check_len (in_org_id event) ''org_id'' MAX_ATTR_LEN) (\<lambda>_.
     res_bind (check_len (in_project_id event) ''project_id'' MAX_ATTR_LEN) (\<lambda>_.
     res_bind (check_len (in_route_id event) ''route_id'' MAX_ATTR_LEN) (\<lambda>_.
     res_bind (guard (MAX_ENDPOINT_LEN < length (in_endpoint event))
       (''endpoint exceeds '' @ nat_to_string MAX_ENDPOINT_LEN @ '' characters'')) (\<lambda>_.
     check_metadata ext (in_metadata event))))))))))))))"

section \<open>What an accepted event satisfies\<close>

lemma guard_Inr: "guard b m = Inr () \<longleftrightarrow> \<not> b"
  by (simp add: guard_def)

lemma check_tokens_Inr: "check_tokens fs = Inr () \<longleftrightarrow> (\<forall>(n, v) \<in> set fs. v \<le> MAX_TOKENS)"
  by (induction fs rule: check_tokens.induct) (auto simp: not_less)

lemma check_len_Inr: "check_len v n m = Inr () \<longleftrightarrow> (\<forall>s. v = Some s \<longrightarrow> length s \<le> m)"
  by (auto simp: check_len_def split: option.splits)

lemma check_cost_Inr:
  "check_cost c = Inr () \<longleftrightarrow> (\<forall>n. c = Some n \<longrightarrow> 0 \<le> n \<and> n \<le> MAX_COST_NANODOLLARS)"
  by (auto simp: check_cost_def res_bind_Inr_iff guard_Inr split: option.splits)

lemma check_timestamp_Inr:
  "check_timestamp now ts = Inr () \<longleftrightarrow>
     (\<forall>ns. ts = Some (EpochNanos ns) \<longrightarrow> MIN_TS_NS \<le> ns \<and> ns \<le> wrap_i64 (now + 86400 * 1000000000))"
  by (auto simp: check_timestamp_def res_bind_Inr_iff guard_Inr Let_def
      split: option.splits timestamp_input.splits)

lemma check_metadata_Inr:
  "check_metadata ext md = Inr () \<longleftrightarrow> (\<forall>v. md = Some v \<longrightarrow> metadata_size ext v \<le> MAX_METADATA_BYTES)"
  by (auto simp: check_metadata_def guard_Inr Let_def split: option.splits)

lemmas check_Inrs = guard_Inr check_len_Inr check_cost_Inr check_timestamp_Inr check_metadata_Inr

definition well_formed :: "externals \<Rightarrow> i64 \<Rightarrow> ingest_event \<Rightarrow> bool" where
  "well_formed ext now e \<longleftrightarrow>
     in_model e \<noteq> [] \<and> length (in_model e) \<le> 256 \<and>
     in_provider e \<noteq> [] \<and> length (in_provider e) \<le> 128 \<and>
     list_all (\<lambda>(_, n). n \<le> MAX_TOKENS) (token_fields (in_usage e)) \<and>
     (\<forall>n. in_cost_nanodollars e = Some n \<longrightarrow> 0 \<le> n \<and> n \<le> MAX_COST_NANODOLLARS) \<and>
     (\<forall>ns. in_timestamp e = Some (EpochNanos ns) \<longrightarrow>
        MIN_TS_NS \<le> ns \<and> ns \<le> wrap_i64 (now + 86400 * 1000000000)) \<and>
     list_all (\<lambda>v. \<forall>s. v = Some s \<longrightarrow> length s \<le> MAX_ATTR_LEN)
       [in_user_id e, in_api_key_id e, in_org_id e, in_project_id e, in_route_id e] \<and>
     length (in_endpoint e) \<le> MAX_ENDPOINT_LEN \<and>
     (\<forall>v. in_metadata e = Some v \<longrightarrow> metadata_size ext v \<le> MAX_METADATA_BYTES)"


end
