(* ===== verification/Normalize.thy ===== *)
theory Normalize
  imports Catalog Provider
begin

text \<open>
  Normalisation of provider and model names: \<open>crates/keplor-server/src/normalize.rs\<close>.
\<close>

text \<open>
  The UTF-8 encodings of the characters \<open>str::trim\<close> removes (Unicode \<open>White_Space\<close>):
  U+0009 to U+000D, U+0020, U+0085, U+00A0, U+1680, U+2000 to U+200A, U+2028, U+2029, U+202F,
  U+205F and U+3000.
\<close>

definition white_space :: "str list" where
  "white_space =
     map (map char_of)
       ([[9 :: nat], [10], [11], [12], [13], [32], [194, 133], [194, 160], [225, 154, 128]] @
        map (\<lambda>b. [226, 128, b]) [128, 129, 130, 131, 132, 133, 134, 135, 136, 137, 138, 168, 169, 175] @
        [[226, 129, 159], [227, 128, 128]])"

lemma white_space_not_Nil: "w \<in> set white_space \<Longrightarrow> w \<noteq> []"
  by (auto simp: white_space_def)

lemma find_white_space_not_Nil: "find P white_space = Some w \<Longrightarrow> w \<noteq> []"
  by (metis find_Some_iff nth_mem white_space_not_Nil)

function trim_start :: "str \<Rightarrow> str" where
  "trim_start s =
     (case find (starts_with s) white_space of
        Some w \<Rightarrow> if s = [] then s else trim_start (drop (length w) s)
      | None \<Rightarrow> s)"
  by pat_completeness auto
termination
  by (relation "measure length") (auto dest: find_white_space_not_Nil)

function trim_end :: "str \<Rightarrow> str" where
  "trim_end s =
     (case find (ends_with s) white_space of
        Some w \<Rightarrow> if s = [] then s else trim_end (take (length s - length w) s)
      | None \<Rightarrow> s)"
  by pat_completeness auto
termination
  by (relation "measure length") (auto dest: find_white_space_not_Nil simp: diff_less)

declare trim_start.simps [simp del] trim_end.simps [simp del]

definition trim :: "str \<Rightarrow> str" where
  "trim s = trim_end (trim_start s)"

definition normalize_provider :: "str \<Rightarrow> provider" where
  "normalize_provider raw = from_id_key_ignore_case raw"

definition normalize_model :: "str \<Rightarrow> str" where
  "normalize_model raw =
     (let trimmed = trim raw in
      if list_all (\<lambda>b. \<not> is_ascii_uppercase b) trimmed then trimmed
      else to_ascii_lowercase trimmed)"

section \<open>The fast path is the reference\<close>

lemma normalize_model_eq: "normalize_model raw = to_ascii_lowercase (trim raw)"
  by (simp add: normalize_model_def Let_def to_ascii_lowercase_id list_all_iff)

text \<open>White space is free of letters, so lower-casing and trimming commute.\<close>

definition not_letter :: "char \<Rightarrow> bool" where
  "not_letter c \<longleftrightarrow> \<not> is_ascii_uppercase c \<and>
     \<not> (97 \<le> (of_char c :: nat) \<and> (of_char c :: nat) \<le> 122)"

lemma white_space_not_letter: "w \<in> set white_space \<Longrightarrow> list_all not_letter w"
  by (auto simp: white_space_def not_letter_def is_ascii_uppercase_def)

lemma lower_char_eq: "not_letter b \<Longrightarrow> to_ascii_lower_char c = b \<longleftrightarrow> c = b"
proof -
  assume b: "not_letter b"
  have "to_ascii_lower_char b = b"
    using b by (simp add: to_ascii_lower_char_def not_letter_def)
  moreover have "\<not> is_ascii_uppercase c" if "to_ascii_lower_char c = b"
  proof
    assume up: "is_ascii_uppercase c"
    then have "(of_char b :: nat) = of_char c + 32"
      using of_char_lower [of c] that by simp
    with up b show False
      by (auto simp: not_letter_def is_ascii_uppercase_def)
  qed
  ultimately show ?thesis
    by (auto simp: to_ascii_lower_char_def)
qed

lemma map_lower_eq: "list_all not_letter w \<Longrightarrow> map to_ascii_lower_char s = w \<longleftrightarrow> s = w"
  by (induction w arbitrary: s) (auto simp: lower_char_eq map_eq_Cons_conv)

lemma find_cong: "(\<And>x. x \<in> set xs \<Longrightarrow> P x = Q x) \<Longrightarrow> find P xs = find Q xs"
  by (induction xs) auto

lemma find_starts_lower:
  "find (starts_with (to_ascii_lowercase s)) white_space = find (starts_with s) white_space"
  by (rule find_cong) (simp add: starts_with_def to_ascii_lowercase_def take_map map_lower_eq
      white_space_not_letter)

lemma find_ends_lower:
  "find (ends_with (to_ascii_lowercase s)) white_space = find (ends_with s) white_space"
  by (rule find_cong) (simp add: ends_with_def to_ascii_lowercase_def drop_map map_lower_eq
      white_space_not_letter)

lemma trim_start_lower: "trim_start (to_ascii_lowercase s) = to_ascii_lowercase (trim_start s)"
proof (induction s rule: trim_start.induct)
  case (1 s)
  then show ?case
    unfolding trim_start.simps [of s] trim_start.simps [of "to_ascii_lowercase s"] find_starts_lower
    by (auto simp: to_ascii_lowercase_def drop_map split: option.splits)
qed

lemma trim_end_lower: "trim_end (to_ascii_lowercase s) = to_ascii_lowercase (trim_end s)"
proof (induction s rule: trim_end.induct)
  case (1 s)
  then show ?case
    unfolding trim_end.simps [of s] trim_end.simps [of "to_ascii_lowercase s"] find_ends_lower
    by (auto simp: to_ascii_lowercase_def take_map split: option.splits)
qed

lemma trim_lower: "trim (to_ascii_lowercase s) = to_ascii_lowercase (trim s)"
  by (simp add: trim_def trim_start_lower trim_end_lower)

lemma find_Nil_None:
  "find (starts_with []) white_space = None" "find (ends_with []) white_space = None"
  by (auto simp: find_None_iff starts_with_def ends_with_def dest: white_space_not_Nil)

lemma trim_Nil [simp]: "trim_start [] = []" "trim_end [] = []"
  by (simp_all add: trim_start.simps [of "[]"] trim_end.simps [of "[]"] find_Nil_None)

lemma trim_start_done: "find (starts_with (trim_start s)) white_space = None"
proof (induction s rule: trim_start.induct)
  case (1 s)
  then show ?case
    by (cases "s = []") (simp_all add: trim_start.simps [of s] find_Nil_None split: option.splits)
qed

lemma trim_end_done: "find (ends_with (trim_end s)) white_space = None"
proof (induction s rule: trim_end.induct)
  case (1 s)
  then show ?case
    by (cases "s = []") (simp_all add: trim_end.simps [of s] find_Nil_None split: option.splits)
qed

lemma trim_end_prefix: "\<exists>k. trim_end s = take k s"
proof (induction s rule: trim_end.induct)
  case (1 s)
  show ?case
  proof (cases "find (ends_with s) white_space")
    case None
    then show ?thesis by (intro exI [of _ "length s"]) (simp add: trim_end.simps [of s])
  next
    case (Some w)
    show ?thesis
    proof (cases "s = []")
      case False
      with Some 1 obtain k where "trim_end (take (length s - length w) s) =
          take k (take (length s - length w) s)"
        by blast
      with Some False show ?thesis
        by (auto simp: trim_end.simps [of s] take_take)
    qed simp
  qed
qed

lemma starts_with_take: "starts_with (take k s) w \<Longrightarrow> starts_with s w"
  by (metis min.cobounded1 starts_with_def take_take length_take min.absorb_iff2 min.commute)

lemma trim_idem: "trim (trim s) = trim s"
proof -
  obtain k where k: "trim s = take k (trim_start s)"
    using trim_end_prefix [of "trim_start s"] by (auto simp: trim_def)
  have "find (starts_with (trim s)) white_space = None"
    using trim_start_done [of s] starts_with_take unfolding k find_None_iff by blast
  then have "trim_start (trim s) = trim s"
    by (simp add: trim_start.simps [of "trim s"])
  moreover have "trim_end (trim s) = trim s"
    using trim_end_done [of "trim_start s"] by (simp add: trim_def trim_end.simps [of "trim_end _"])
  ultimately show ?thesis by (simp add: trim_def)
qed

text \<open>
  The model key the pipeline builds without lower-casing again is the key \<open>ModelKey::new\<close>
  would build from the trimmed name, so wrapping the pre-normalised string finds the same
  catalog entries, and normalising a stored model name again changes nothing.
\<close>

theorem normalize_model_key:
  "from_normalized (normalize_model raw) = model_key_new (trim raw) \<and>
   normalize_model (normalize_model raw) = normalize_model raw"
  by (simp add: from_normalized_def model_key_new_def normalize_model_eq trim_lower trim_idem)

end
