(* ===== verification/Auth.thy ===== *)
theory Auth
  imports Prelude
begin

text \<open>
  API keys and the bearer-token check: \<open>crates/keplor-server/src/auth.rs\<close>. SHA-256 and the
  constant-time comparison are other packages: the parameters \<open>sha256\<close> and \<open>ct_eq\<close>.
\<close>

record authenticated_key =
  key_id :: str
  key_tier :: str

record api_key_entry =
  entry_id :: str
  entry_secret :: str
  entry_tier :: str

record api_key_set =
  keys :: "(str \<times> str \<times> str) list"

definition derived_key_id :: "u8 list \<Rightarrow> str" where
  "derived_key_id hash =
     ''key_'' @ hex_min (hash ! 0) @ hex_min (hash ! 1) @ hex_min (hash ! 2) @ hex_min (hash ! 3)"

definition parse_key_entry :: "(str \<Rightarrow> u8 list) \<Rightarrow> str \<Rightarrow> str \<times> str" where
  "parse_key_entry sha256 raw =
     (let bare = (derived_key_id (sha256 raw), raw) in
      case split_once raw (CHR '':'') of
        Some (ident, secret) \<Rightarrow> if ident \<noteq> [] \<and> secret \<noteq> [] then (ident, secret) else bare
      | None \<Rightarrow> bare)"

definition simple_key :: "(str \<Rightarrow> u8 list) \<Rightarrow> str \<Rightarrow> str \<Rightarrow> str \<times> str \<times> str" where
  "simple_key sha256 tier raw =
     (let (ident, secret) = parse_key_entry sha256 raw in (secret, ident, tier))"

definition entry_key :: "api_key_entry \<Rightarrow> str \<times> str \<times> str" where
  "entry_key e = (entry_secret e, entry_id e, entry_tier e)"

definition api_key_set_new :: "(str \<Rightarrow> u8 list) \<Rightarrow> str list \<Rightarrow> str \<Rightarrow> api_key_set" where
  "api_key_set_new sha256 raws default_tier =
     \<lparr> keys = map (simple_key sha256 default_tier) raws \<rparr>"

definition from_entries :: "api_key_entry list \<Rightarrow> api_key_set" where
  "from_entries es = \<lparr> keys = map entry_key es \<rparr>"

definition from_config ::
  "(str \<Rightarrow> u8 list) \<Rightarrow> str list \<Rightarrow> api_key_entry list \<Rightarrow> str \<Rightarrow> api_key_set" where
  "from_config sha256 simple_keys es default_tier =
     \<lparr> keys = map (simple_key sha256 default_tier) simple_keys @ map entry_key es \<rparr>"

definition is_open :: "api_key_set \<Rightarrow> bool" where
  "is_open s \<longleftrightarrow> keys s = []"

text \<open>Every key is compared, and the last match wins.\<close>

fun scan_keys :: "(str \<Rightarrow> str \<Rightarrow> bool) \<Rightarrow> str \<Rightarrow> (str \<times> str \<times> str) list
    \<Rightarrow> (str \<times> str) option \<Rightarrow> (str \<times> str) option" where
  "scan_keys ct_eq candidate [] matched = matched"
| "scan_keys ct_eq candidate ((secret, ident, tier) # ks) matched =
     scan_keys ct_eq candidate ks (if ct_eq secret candidate then Some (ident, tier) else matched)"

definition matched_key :: "(str \<Rightarrow> str \<Rightarrow> bool) \<Rightarrow> api_key_set \<Rightarrow> str \<Rightarrow> (str \<times> str) option" where
  "matched_key ct_eq s candidate = scan_keys ct_eq candidate (keys s) None"

text \<open>
  The middleware, up to the handler it calls next: the request goes on without an identity, goes
  on with one, or is answered 401. The header is absent when it is missing or not readable text.
\<close>

datatype auth_outcome = Forward "authenticated_key option" | Unauthorized

definition require_api_key ::
  "(str \<Rightarrow> str \<Rightarrow> bool) \<Rightarrow> api_key_set \<Rightarrow> str option \<Rightarrow> auth_outcome" where
  "require_api_key ct_eq s header =
     (if is_open s then Forward None
      else
        (let h = (case header of Some h \<Rightarrow> h | None \<Rightarrow> []);
             token = (case strip_prefix h ''Bearer '' of Some t \<Rightarrow> t | None \<Rightarrow> [])
         in if token = [] then Unauthorized
            else case matched_key ct_eq s token of
              Some (ident, tier) \<Rightarrow> Forward (Some \<lparr> key_id = ident, key_tier = tier \<rparr>)
            | None \<Rightarrow> Unauthorized))"

section \<open>Who gets in\<close>

definition equality_test :: "(str \<Rightarrow> str \<Rightarrow> bool) \<Rightarrow> bool" where
  "equality_test ct_eq \<longleftrightarrow> (\<forall>a b. ct_eq a b \<longleftrightarrow> a = b)"

lemma scan_keys_eq:
  assumes "equality_test ct_eq"
  shows "scan_keys ct_eq c ks m =
    (case filter (\<lambda>k. fst k = c) ks of [] \<Rightarrow> m | _ \<Rightarrow> Some (snd (last (filter (\<lambda>k. fst k = c) ks))))"
proof -
  have eq: "ct_eq = (=)"
    using assms by (intro ext) (simp add: equality_test_def)
  show ?thesis
    unfolding eq
  proof (induction ks arbitrary: m)
    case (Cons k ks)
    obtain s i t where k: "k = (s, i, t)" by (cases k)
    show ?case
      by (cases "s = c") (simp_all add: k Cons.IH split: list.split)
  qed simp
qed

definition bearer :: "str \<Rightarrow> str" where
  "bearer token = ''Bearer '' @ token"

lemma strip_bearer: "strip_prefix h ''Bearer '' = Some t \<longleftrightarrow> h = bearer t"
  by (simp only: bearer_def strip_prefix_Some)

text \<open>
  C12: with keys configured, a request goes on with an identity exactly when it carries
  \<open>Bearer\<close> and the non-empty secret of a configured key, and the identity is that of the last
  key with this secret; it never goes on without one, and every other request is answered 401.
\<close>

theorem require_api_key_spec:
  assumes "equality_test ct_eq" and "keys s \<noteq> []"
  shows "require_api_key ct_eq s header =
    (case header of
       None \<Rightarrow> Unauthorized
     | Some h \<Rightarrow>
         if \<exists>t. t \<noteq> [] \<and> h = bearer t \<and> t \<in> fst ` set (keys s)
         then (let (ident, tier) = snd (last (filter (\<lambda>k. bearer (fst k) = h) (keys s)))
               in Forward (Some \<lparr> key_id = ident, key_tier = tier \<rparr>))
         else Unauthorized)"
proof (cases header)
  case None
  then show ?thesis
    using assms(2) by (simp add: require_api_key_def is_open_def strip_prefix_def starts_with_def)
next
  case (Some h)
  show ?thesis
  proof (cases "strip_prefix h ''Bearer ''")
    case None
    then have "h \<noteq> bearer t" for t
      using strip_bearer [of h t] by simp
    then show ?thesis
      using assms(2) None Some by (simp add: require_api_key_def is_open_def)
  next
    case (Some t)
    then have h: "h = bearer t" by (simp add: strip_bearer)
    have flt: "filter (\<lambda>k. bearer (fst k) = h) (keys s) = filter (\<lambda>k. fst k = t) (keys s)"
      by (simp add: h bearer_def)
    have mem: "t \<in> fst ` set (keys s) \<longleftrightarrow> filter (\<lambda>k. fst k = t) (keys s) \<noteq> []"
      by (auto simp: filter_empty_conv)
    show ?thesis
      using assms(2) Some \<open>header = Some h\<close> unfolding flt
      by (auto simp: require_api_key_def is_open_def matched_key_def scan_keys_eq [OF assms(1)] mem
          h bearer_def Let_def split: list.splits prod.splits)
  qed
qed

theorem require_api_key_spec_witness:
  "require_api_key (=) \<lparr> keys = [(''s1'', ''a'', ''free''), (''s2'', ''b'', ''pro'')] \<rparr> (Some ''Bearer s2'')
     = Forward (Some \<lparr> key_id = ''b'', key_tier = ''pro'' \<rparr>)"
  by (subst require_api_key_spec) (simp_all add: equality_test_def bearer_def)

text \<open>
  The id derived for a bare secret is not determined by the first four hash bytes alone, as
  eight hexadecimal digits would be: leading zeros are dropped, so two different prefixes print
  to the same id.
\<close>

theorem derived_key_id_collides:
  "\<exists>h h' :: u8 list. length h = 32 \<and> length h' = 32 \<and> take 4 h \<noteq> take 4 h' \<and>
     derived_key_id h = derived_key_id h'"
proof (intro exI conjI)
  show "take 4 (1 # 17 # replicate 30 (0 :: u8)) \<noteq> take 4 (17 # 1 # replicate 30 0)"
    by simp
  show "derived_key_id (1 # 17 # replicate 30 0) = derived_key_id (17 # 1 # replicate 30 0)"
    by (simp add: derived_key_id_def hex_min_def hex02_def hex_digit_def)
qed simp_all

end
