(* ===== verification/Sharded.thy ===== *)
theory Sharded
  imports Prelude
begin

text \<open>
  Maps split over a fixed number of shards by a hash of the key, the structure the rate limiter
  and the idempotency cache share. \<open>idx\<close> picks the shard of a key and \<open>look\<close> reads a key in
  one shard; the view of the whole map reads each key in its own shard.
\<close>

locale sharded =
  fixes idx :: "'k \<Rightarrow> nat" and n :: nat
  assumes idx_less: "idx k < n"
begin

definition view :: "('s \<Rightarrow> 'k \<Rightarrow> 'v option) \<Rightarrow> 's list \<Rightarrow> 'k \<Rightarrow> 'v option" where
  "view look shards k = look (shards ! idx k) k"

text \<open>
  Replacing the shard of \<open>k\<close> by one that agrees with it on the other keys changes the view at
  \<open>k\<close> only.
\<close>

lemma view_update_same:
  "length shards = n \<Longrightarrow> view look (shards[idx k := s]) k = look s k"
  using idx_less [of k] by (simp add: view_def)

lemma view_update_other:
  assumes "length shards = n" and "k' \<noteq> k"
    and "\<And>k'. k' \<noteq> k \<Longrightarrow> look s k' = look (shards ! idx k) k'"
  shows "view look (shards[idx k := s]) k' = view look shards k'"
  using assms idx_less [of k] idx_less [of k'] by (cases "idx k' = idx k") (simp_all add: view_def)

lemma view_update:
  assumes "length shards = n" and "\<And>k'. k' \<noteq> k \<Longrightarrow> look s k' = look (shards ! idx k) k'"
  shows "view look (shards[idx k := s]) = (view look shards)(k := look s k)"
proof
  fix x
  show "view look (shards[idx k := s]) x = ((view look shards)(k := look s k)) x"
    using view_update_other [of shards x k look s] view_update_same [OF assms(1), of look k s] assms
    by (cases "x = k") simp_all
qed

lemma view_update_drop:
  assumes "length shards = n" and "k' \<noteq> k"
    and "\<And>k'. k' \<noteq> k \<Longrightarrow> look s k' = None \<or> look s k' = look (shards ! idx k) k'"
  shows "view look (shards[idx k := s]) k' = None \<or>
    view look (shards[idx k := s]) k' = view look shards k'"
  using assms idx_less [of k] idx_less [of k'] by (cases "idx k' = idx k") (simp_all add: view_def)

lemma view_replicate: "view look (replicate n s) k = look s k"
  using idx_less [of k] by (simp add: view_def)

end

end
