(* ===== verification/Rate_Limit.thy ===== *)
theory Rate_Limit
  imports Sharded F64 Auth
begin

text \<open>
  Token buckets per API key: \<open>crates/keplor-server/src/rate_limit.rs\<close>. Buckets are sharded
  sixteen ways by the standard hasher, whose 64-bit result is the parameter \<open>hash\<close>. An
  \<open>Instant\<close> is a number of nanoseconds.
\<close>

definition NUM_SHARDS :: usize where "NUM_SHARDS = 16"

record rate_limit_config =
  requests_per_second :: f64
  burst :: usize

record token_bucket =
  tokens :: f64
  last_refill :: nat

record rate_limiter =
  rl_shards :: "(str \<times> token_bucket) list list"
  rl_config :: rate_limit_config

definition rate_limiter_new :: "rate_limit_config \<Rightarrow> rate_limiter" where
  "rate_limiter_new config = \<lparr> rl_shards = replicate NUM_SHARDS [], rl_config = config \<rparr>"

definition shard_index :: "(str \<Rightarrow> u64) \<Rightarrow> str \<Rightarrow> usize" where
  "shard_index hash key = hash key mod NUM_SHARDS"

text \<open>\<open>Duration::as_secs_f64\<close> of a span in nanoseconds.\<close>

definition as_secs_f64 :: "nat \<Rightarrow> f64" where
  "as_secs_f64 d =
     f64_add (f64_of_int (int (d div 1000000000)))
       (f64_div (f64_of_int (int (d mod 1000000000))) (f64_of_int 1000000000))"

text \<open>One request on a bucket: refill, then take a token or report the wait.\<close>

definition acquire :: "rate_limit_config \<Rightarrow> nat \<Rightarrow> token_bucket \<Rightarrow> token_bucket \<times> (f64 + unit)" where
  "acquire config now bucket =
     (let cap = f64_of_int (int (burst config));
          rps = requests_per_second config;
          elapsed = as_secs_f64 (now - last_refill bucket);
          bucket = \<lparr> tokens = f64_min (f64_add (tokens bucket) (f64_mul elapsed rps)) cap,
                     last_refill = now \<rparr>
      in if f64_le (Fin 1) (tokens bucket)
         then (bucket \<lparr> tokens := f64_sub (tokens bucket) (Fin 1) \<rparr>, Inr ())
         else (bucket, Inl (f64_div (f64_sub (Fin 1) (tokens bucket)) rps)))"

definition new_bucket :: "rate_limit_config \<Rightarrow> nat \<Rightarrow> token_bucket" where
  "new_bucket config now = \<lparr> tokens = f64_of_int (int (burst config)), last_refill = now \<rparr>"

definition try_acquire :: "(str \<Rightarrow> u64) \<Rightarrow> rate_limiter \<Rightarrow> nat \<Rightarrow> str \<Rightarrow> rate_limiter \<times> (f64 + unit)" where
  "try_acquire hash limiter now key =
     (let shard_idx = shard_index hash key;
          buckets = rl_shards limiter ! shard_idx;
          bucket = (case map_of buckets key of
             Some b \<Rightarrow> b | None \<Rightarrow> new_bucket (rl_config limiter) now);
          (bucket, result) = acquire (rl_config limiter) now bucket
      in (limiter \<lparr> rl_shards := (rl_shards limiter)[shard_idx := map_put key bucket buckets] \<rparr>, result))"

text \<open>
  The middleware: an unauthenticated request passes, a limited one is answered 429 with the
  whole seconds to wait.
\<close>

datatype limit_outcome = Pass | TooManyRequests u64

definition rate_limit_middleware ::
  "(str \<Rightarrow> u64) \<Rightarrow> rate_limiter \<Rightarrow> nat \<Rightarrow> authenticated_key option \<Rightarrow> rate_limiter \<times> limit_outcome" where
  "rate_limit_middleware hash limiter now auth =
     (case auth of
        None \<Rightarrow> (limiter, Pass)
      | Some a \<Rightarrow>
          (case try_acquire hash limiter now (key_id a) of
             (limiter, Inl retry_after) \<Rightarrow> (limiter, TooManyRequests (f64_to_u64 (f64_ceil retry_after)))
           | (limiter, Inr _) \<Rightarrow> (limiter, Pass)))"

interpretation rl: sharded "shard_index hash" NUM_SHARDS for hash
  by unfold_locales (simp add: shard_index_def NUM_SHARDS_def)

definition bucket_of :: "(str \<Rightarrow> u64) \<Rightarrow> rate_limiter \<Rightarrow> str \<Rightarrow> token_bucket option" where
  "bucket_of hash limiter = rl.view hash map_of (rl_shards limiter)"

lemma try_acquire_refines:
  assumes "length (rl_shards l) = NUM_SHARDS"
  shows "bucket_of hash (fst (try_acquire hash l now key)) =
      (bucket_of hash l)(key \<mapsto> fst (acquire (rl_config l) now
        (case bucket_of hash l key of Some b \<Rightarrow> b | None \<Rightarrow> new_bucket (rl_config l) now)))"
    and "snd (try_acquire hash l now key) = snd (acquire (rl_config l) now
        (case bucket_of hash l key of Some b \<Rightarrow> b | None \<Rightarrow> new_bucket (rl_config l) now))"
    and "length (rl_shards (fst (try_acquire hash l now key))) = NUM_SHARDS"
    and "rl_config (fst (try_acquire hash l now key)) = rl_config l"
proof -
  have look: "bucket_of hash l key = map_of (rl_shards l ! shard_index hash key) key"
    by (simp add: bucket_of_def rl.view_def)
  show "bucket_of hash (fst (try_acquire hash l now key)) =
      (bucket_of hash l)(key \<mapsto> fst (acquire (rl_config l) now
        (case bucket_of hash l key of Some b \<Rightarrow> b | None \<Rightarrow> new_bucket (rl_config l) now)))"
    by (simp add: try_acquire_def Let_def case_prod_unfold bucket_of_def look [unfolded bucket_of_def])
      (subst rl.view_update, simp_all add: assms map_of_map_put)
qed (simp_all add: try_acquire_def Let_def case_prod_unfold bucket_of_def rl.view_def assms)

section \<open>Bursts\<close>

text \<open>The same key, \<open>n\<close> requests at one instant.\<close>

fun acquire_many :: "(str \<Rightarrow> u64) \<Rightarrow> rate_limiter \<Rightarrow> nat \<Rightarrow> str \<Rightarrow> nat \<Rightarrow> (f64 + unit) list" where
  "acquire_many hash l now key 0 = []"
| "acquire_many hash l now key (Suc n) =
     (let (l', r) = try_acquire hash l now key in r # acquire_many hash l' now key n)"

definition full_at :: "(str \<Rightarrow> u64) \<Rightarrow> rate_limiter \<Rightarrow> nat \<Rightarrow> str \<Rightarrow> nat \<Rightarrow> bool" where
  "full_at hash l now key t \<longleftrightarrow>
     (case bucket_of hash l key of Some b \<Rightarrow> b | None \<Rightarrow> new_bucket (rl_config l) now) =
       \<lparr> tokens = Fin (of_nat t), last_refill = now \<rparr>"

definition small_config :: "rate_limit_config \<Rightarrow> bool" where
  "small_config c \<longleftrightarrow> burst c < 2 ^ 53 \<and> is_finite (requests_per_second c)"

lemma as_secs_f64_zero: "as_secs_f64 0 = Fin 0"
  by (simp add: as_secs_f64_def f64_of_int_exact)

lemma f64_round_nat: "n < 2 ^ 53 \<Longrightarrow> f64_round (of_nat n) = Fin (of_nat n)"
  using f64_of_int_exact [of "int n"] by (simp add: f64_of_int_def)

lemma acquire_same_instant:
  assumes "small_config c" and "t \<le> burst c"
  shows "acquire c now \<lparr> tokens = Fin (of_nat t), last_refill = now \<rparr> =
    (if 0 < t then (\<lparr> tokens = Fin (of_nat (t - 1)), last_refill = now \<rparr>, Inr ())
     else (\<lparr> tokens = Fin 0, last_refill = now \<rparr>, Inl (f64_div (Fin 1) (requests_per_second c))))"
proof -
  obtain r where r: "requests_per_second c = Fin r"
    using assms(1) by (cases "requests_per_second c") (auto simp: small_config_def)
  have small: "t < 2 ^ 53" "burst c < 2 ^ 53" and one: "f64_round 1 = Fin 1"
    using assms f64_round_nat [of 1] by (simp_all add: small_config_def)
  have cap: "f64_of_int (int (burst c)) = Fin (of_nat (burst c))"
    using small f64_of_int_exact [of "int (burst c)"] by simp
  have minus: "f64_round (of_nat t - 1) = Fin (of_nat (t - 1))" if "0 < t"
    using that small f64_round_nat [of "t - 1"] by (simp add: of_nat_diff)
  have refill: "f64_min (f64_add (Fin (of_nat t)) (f64_mul (as_secs_f64 0) (Fin r)))
      (Fin (of_nat (burst c))) = Fin (of_nat t)"
    using small assms(2) by (simp add: as_secs_f64_zero f64_round_nat f64_min_def)
  show ?thesis
    using refill minus
    by (cases "t = 0") (simp_all add: acquire_def Let_def r cap f64_sub_def one)
qed

lemma acquire_many_run:
  assumes "length (rl_shards l) = NUM_SHARDS" and "small_config (rl_config l)"
    and "full_at hash l now key t" and "t \<le> burst (rl_config l)"
  shows "acquire_many hash l now key n = replicate (min n t) (Inr ()) @
    replicate (n - t) (Inl (f64_div (Fin 1) (requests_per_second (rl_config l))))"
  using assms
proof (induction n arbitrary: l t)
  case (Suc n)
  define l' where "l' = fst (try_acquire hash l now key)"
  note ref = try_acquire_refines [OF Suc.prems(1), of hash now key]
  note step = acquire_same_instant [OF Suc.prems(2,4), of now]
  have l': "length (rl_shards l') = NUM_SHARDS" "rl_config l' = rl_config l"
    using ref by (simp_all add: l'_def)
  have full: "full_at hash l' now key (t - 1)"
    using Suc.prems(3) ref(1) step by (simp add: full_at_def l'_def split: if_splits)
  have res: "snd (try_acquire hash l now key) =
      (if 0 < t then Inr () else Inl (f64_div (Fin 1) (requests_per_second (rl_config l))))"
    using Suc.prems(3) ref(2) step by (simp add: full_at_def split: if_splits)
  have "acquire_many hash l' now key n = replicate (min n (t - 1)) (Inr ()) @
      replicate (n - (t - 1)) (Inl (f64_div (Fin 1) (requests_per_second (rl_config l))))"
    using Suc.IH [OF l'(1) _ full] Suc.prems l' by simp
  moreover have "acquire_many hash l now key (Suc n) =
      snd (try_acquire hash l now key) # acquire_many hash l' now key n"
    by (simp add: l'_def Let_def case_prod_unfold)
  ultimately show ?case
    using res by (cases t) (auto simp: min_def)
qed simp

text \<open>
  C25: of \<open>n\<close> requests of one key at one instant, on a fresh limiter, exactly the first
  \<open>burst\<close> are granted and every further one is refused with the same wait, one over the
  configured rate: the double arithmetic neither leaks nor loses a token.
\<close>

theorem burst_exact:
  assumes "small_config config"
  shows "acquire_many hash (rate_limiter_new config) now key n =
    replicate (min n (burst config)) (Inr ()) @
    replicate (n - burst config) (Inl (f64_div (Fin 1) (requests_per_second config)))"
proof -
  have "bucket_of hash (rate_limiter_new config) key = None"
    by (simp add: bucket_of_def rate_limiter_new_def rl.view_replicate)
  moreover have "f64_of_int (int (burst config)) = Fin (of_nat (burst config))"
    using assms f64_of_int_exact [of "int (burst config)"] by (simp add: small_config_def)
  ultimately have "full_at hash (rate_limiter_new config) now key (burst config)"
    by (simp add: full_at_def new_bucket_def rate_limiter_new_def)
  then show ?thesis
    using acquire_many_run [of "rate_limiter_new config" hash now key "burst config" n] assms
    by (simp add: rate_limiter_new_def)
qed

theorem burst_exact_witness:
  "acquire_many length (rate_limiter_new \<lparr> requests_per_second = Fin 10, burst = 2 \<rparr>) 5 ''k'' 3 =
     [Inr (), Inr (), Inl (f64_div (Fin 1) (Fin 10))]"
proof -
  have "small_config \<lparr> requests_per_second = Fin 10, burst = 2 \<rparr>"
    by (simp add: small_config_def)
  from burst_exact [OF this, of length 5 "''k''" 3] show ?thesis
    by (simp add: numeral_2_eq_2)
qed

text \<open>
  The keys are independent although they share shards: whatever another key did before,
  the answer to a request is the answer it would have had without it.
\<close>

theorem keys_independent:
  assumes "length (rl_shards l) = NUM_SHARDS" and "key' \<noteq> key"
  shows "snd (try_acquire hash (fst (try_acquire hash l now key)) now' key') =
    snd (try_acquire hash l now' key')"
proof -
  note ref = try_acquire_refines [OF assms(1), of hash now key]
  show ?thesis
    using try_acquire_refines(2) [OF ref(3), of hash now' key'] assms(2)
    by (simp add: ref(1,4) try_acquire_refines(2) [OF assms(1)] split: option.split)
qed

theorem keys_independent_witness:
  "snd (try_acquire length (fst (try_acquire length
      (rate_limiter_new \<lparr> requests_per_second = Fin 1, burst = 1 \<rparr>) 0 ''a'')) 0 ''b'') =
   snd (try_acquire length (rate_limiter_new \<lparr> requests_per_second = Fin 1, burst = 1 \<rparr>) 0 ''b'')"
  by (rule keys_independent) (simp_all add: rate_limiter_new_def)

end
