(* ===== verification/Idempotency.thy ===== *)
theory Idempotency
  imports Sharded Schema
begin

text \<open>
  The idempotency cache: \<open>crates/keplor-server/src/idempotency.rs\<close>. The LRU map is the
  \<open>lru\<close> package: its operations are the parameter \<open>lru\<close>, over an unspecified type of cache
  states. Instants and spans are nanoseconds; \<open>hash\<close> is the standard hasher.
\<close>

definition IDEM_SHARDS :: usize where "IDEM_SHARDS = 16"

record cached_entry =
  ce_response :: ingest_response
  ce_expires_at :: nat

record 'c lru_ops =
  lru_new :: "nat \<Rightarrow> 'c"
  lru_get :: "'c \<Rightarrow> str \<Rightarrow> 'c \<times> cached_entry option"
  lru_pop :: "'c \<Rightarrow> str \<Rightarrow> 'c"
  lru_put :: "'c \<Rightarrow> str \<Rightarrow> cached_entry \<Rightarrow> 'c"

record 'c idempotency_cache =
  ic_shards :: "'c list"
  ic_ttl :: nat

definition idem_new :: "'c lru_ops \<Rightarrow> nat \<Rightarrow> nat \<Rightarrow> 'c idempotency_cache" where
  "idem_new lru max_entries ttl =
     (let per_shard = max (max_entries div IDEM_SHARDS) 1
      in \<lparr> ic_shards = replicate IDEM_SHARDS (lru_new lru per_shard), ic_ttl = ttl \<rparr>)"

definition idem_shard_index :: "(str \<Rightarrow> u64) \<Rightarrow> str \<Rightarrow> usize" where
  "idem_shard_index hash key = hash key mod IDEM_SHARDS"

definition idem_get :: "'c lru_ops \<Rightarrow> (str \<Rightarrow> u64) \<Rightarrow> 'c idempotency_cache \<Rightarrow> nat \<Rightarrow> str
    \<Rightarrow> 'c idempotency_cache \<times> ingest_response option" where
  "idem_get lru hash cache now key =
     (let i = idem_shard_index hash key;
          (shard, found) = lru_get lru (ic_shards cache ! i) key
      in case found of
           Some entry \<Rightarrow>
             if now < ce_expires_at entry
             then (cache \<lparr> ic_shards := (ic_shards cache)[i := shard] \<rparr>, Some (ce_response entry))
             else (cache \<lparr> ic_shards := (ic_shards cache)[i := lru_pop lru shard key] \<rparr>, None)
         | None \<Rightarrow> (cache \<lparr> ic_shards := (ic_shards cache)[i := shard] \<rparr>, None))"

definition idem_insert :: "'c lru_ops \<Rightarrow> (str \<Rightarrow> u64) \<Rightarrow> 'c idempotency_cache \<Rightarrow> nat \<Rightarrow> str
    \<Rightarrow> ingest_response \<Rightarrow> 'c idempotency_cache" where
  "idem_insert lru hash cache now key response =
     (let i = idem_shard_index hash key in
      cache \<lparr> ic_shards := (ic_shards cache)[i := lru_put lru (ic_shards cache ! i) key
        \<lparr> ce_response = response, ce_expires_at = now + ic_ttl cache \<rparr>] \<rparr>)"

interpretation ic: sharded "idem_shard_index hash" IDEM_SHARDS for hash
  by unfold_locales (simp add: idem_shard_index_def IDEM_SHARDS_def)

section \<open>What the LRU map promises\<close>

definition lru_peek :: "'c lru_ops \<Rightarrow> 'c \<Rightarrow> str \<Rightarrow> cached_entry option" where
  "lru_peek lru c k = snd (lru_get lru c k)"

text \<open>
  A new map is empty; reading only reorders; removing removes the key; storing stores the key
  and may evict others.
\<close>

definition lru_laws :: "'c lru_ops \<Rightarrow> bool" where
  "lru_laws lru \<longleftrightarrow>
     (\<forall>cap k. lru_peek lru (lru_new lru cap) k = None) \<and>
     (\<forall>c k k'. lru_peek lru (fst (lru_get lru c k)) k' = lru_peek lru c k') \<and>
     (\<forall>c k k'. lru_peek lru (lru_pop lru c k) k' = (if k' = k then None else lru_peek lru c k')) \<and>
     (\<forall>c k v. lru_peek lru (lru_put lru c k v) k = Some v) \<and>
     (\<forall>c k v k'. k' \<noteq> k \<longrightarrow> lru_peek lru (lru_put lru c k v) k' = None \<or>
        lru_peek lru (lru_put lru c k v) k' = lru_peek lru c k')"

section \<open>Histories\<close>

datatype idem_op = GetOp nat str | InsertOp nat str ingest_response

fun idem_step :: "'c lru_ops \<Rightarrow> (str \<Rightarrow> u64) \<Rightarrow> 'c idempotency_cache \<Rightarrow> idem_op
    \<Rightarrow> 'c idempotency_cache" where
  "idem_step lru hash c (GetOp now k) = fst (idem_get lru hash c now k)"
| "idem_step lru hash c (InsertOp now k r) = idem_insert lru hash c now k r"

text \<open>The last response stored for a key in a history, with the time it was stored.\<close>

fun last_insert :: "idem_op list \<Rightarrow> str \<Rightarrow> (nat \<times> ingest_response) option" where
  "last_insert [] k = None"
| "last_insert (op # ops) k =
     (case last_insert ops k of
        Some x \<Rightarrow> Some x
      | None \<Rightarrow> (case op of InsertOp t k' r \<Rightarrow> if k' = k then Some (t, r) else None | GetOp _ _ \<Rightarrow> None))"

lemma last_insert_snoc:
  "last_insert (ops @ [op]) k =
     (case op of InsertOp t k' r \<Rightarrow> if k' = k then Some (t, r) else last_insert ops k
      | GetOp _ _ \<Rightarrow> last_insert ops k)"
  by (induction ops) (auto split: idem_op.splits option.splits)

definition idem_view :: "'c lru_ops \<Rightarrow> (str \<Rightarrow> u64) \<Rightarrow> 'c idempotency_cache \<Rightarrow> str \<Rightarrow> cached_entry option" where
  "idem_view lru hash c = ic.view hash (lru_peek lru) (ic_shards c)"

text \<open>
  Every entry the cache holds is the last response stored for its key, with the expiry that
  storing gave it.
\<close>

definition idem_inv :: "'c lru_ops \<Rightarrow> (str \<Rightarrow> u64) \<Rightarrow> nat \<Rightarrow> idem_op list \<Rightarrow> 'c idempotency_cache \<Rightarrow> bool" where
  "idem_inv lru hash ttl ops c \<longleftrightarrow>
     length (ic_shards c) = IDEM_SHARDS \<and> ic_ttl c = ttl \<and>
     (\<forall>k e. idem_view lru hash c k = Some e \<longrightarrow>
        (\<exists>t. last_insert ops k = Some (t, ce_response e) \<and> ce_expires_at e = t + ttl))"

lemma idem_get_view:
  assumes "lru_laws lru" and "length (ic_shards c) = IDEM_SHARDS"
  shows "idem_view lru hash (fst (idem_get lru hash c now k)) k' = None \<or>
      idem_view lru hash (fst (idem_get lru hash c now k)) k' = idem_view lru hash c k'"
    and "snd (idem_get lru hash c now k) =
      (case idem_view lru hash c k of
         Some e \<Rightarrow> if now < ce_expires_at e then Some (ce_response e) else None
       | None \<Rightarrow> None)"
proof -
  define i where "i = idem_shard_index hash k"
  define s where "s = ic_shards c ! i"
  obtain s' where s': "ic_shards (fst (idem_get lru hash c now k)) = (ic_shards c)[i := s']"
    and peek: "\<And>k'. lru_peek lru s' k' = None \<or> lru_peek lru s' k' = lru_peek lru s k'"
  proof (cases "\<exists>e. lru_peek lru s k = Some e \<and> \<not> now < ce_expires_at e")
    case True
    with assms(1) that [of "lru_pop lru (fst (lru_get lru s k)) k"] show ?thesis
      by (auto simp: idem_get_def Let_def case_prod_unfold i_def s_def lru_peek_def lru_laws_def)
  next
    case False
    with assms(1) that [of "fst (lru_get lru s k)"] show ?thesis
      by (auto simp: idem_get_def Let_def case_prod_unfold i_def s_def lru_peek_def lru_laws_def
          split: option.splits)
  qed
  show "idem_view lru hash (fst (idem_get lru hash c now k)) k' = None \<or>
      idem_view lru hash (fst (idem_get lru hash c now k)) k' = idem_view lru hash c k'"
    using peek ic.view_update_drop [OF assms(2), of k' k "lru_peek lru" s' hash]
      ic.view_update_same [OF assms(2), of hash "lru_peek lru" k s']
    by (cases "k' = k") (auto simp: idem_view_def s' i_def s_def ic.view_def)
  show "snd (idem_get lru hash c now k) =
      (case idem_view lru hash c k of
         Some e \<Rightarrow> if now < ce_expires_at e then Some (ce_response e) else None
       | None \<Rightarrow> None)"
    by (simp add: idem_get_def Let_def case_prod_unfold idem_view_def ic.view_def lru_peek_def
        split: option.split)
qed

lemma idem_insert_view:
  assumes "lru_laws lru" and "length (ic_shards c) = IDEM_SHARDS"
  shows "idem_view lru hash (idem_insert lru hash c now k r) k =
      Some \<lparr> ce_response = r, ce_expires_at = now + ic_ttl c \<rparr>"
    and "k' \<noteq> k \<Longrightarrow> idem_view lru hash (idem_insert lru hash c now k r) k' = None \<or>
      idem_view lru hash (idem_insert lru hash c now k r) k' = idem_view lru hash c k'"
proof -
  define i where "i = idem_shard_index hash k"
  define e where "e = \<lparr> ce_response = r, ce_expires_at = now + ic_ttl c \<rparr>"
  define s where "s = lru_put lru (ic_shards c ! i) k e"
  have sh: "ic_shards (idem_insert lru hash c now k r) = (ic_shards c)[i := s]"
    by (simp add: idem_insert_def Let_def i_def s_def e_def)
  have put: "lru_peek lru s k = Some e"
    "k' \<noteq> k \<Longrightarrow> lru_peek lru s k' = None \<or> lru_peek lru s k' = lru_peek lru (ic_shards c ! i) k'" for k'
    using assms(1) by (simp_all add: lru_laws_def s_def)
  show "idem_view lru hash (idem_insert lru hash c now k r) k =
      Some \<lparr> ce_response = r, ce_expires_at = now + ic_ttl c \<rparr>"
    using put(1) ic.view_update_same [OF assms(2), of hash "lru_peek lru" k s]
    by (simp add: idem_view_def sh i_def e_def)
  show "idem_view lru hash (idem_insert lru hash c now k r) k' = None \<or>
      idem_view lru hash (idem_insert lru hash c now k r) k' = idem_view lru hash c k'" if "k' \<noteq> k"
    using put(2) that ic.view_update_drop [OF assms(2), of k' k "lru_peek lru" s hash]
    by (simp add: idem_view_def sh i_def)
qed

lemma idem_step_shape [simp]:
  "length (ic_shards (idem_step lru hash c op)) = length (ic_shards c)"
  "ic_ttl (idem_step lru hash c op) = ic_ttl c"
  by (cases op; simp add: idem_get_def idem_insert_def Let_def case_prod_unfold split: option.split)+

lemma idem_inv_step:
  assumes "lru_laws lru" and "idem_inv lru hash ttl ops c"
  shows "idem_inv lru hash ttl (ops @ [op]) (idem_step lru hash c op)"
proof (cases op)
  case (GetOp now k)
  then show ?thesis
    using assms(2) idem_get_view(1) [OF assms(1), where c = c and hash = hash and now = now and k = k]
    unfolding idem_inv_def last_insert_snoc idem_step_shape by simp (metis option.distinct(1))
next
  case (InsertOp now k r)
  have len: "length (ic_shards c) = IDEM_SHARDS" and ttl: "ic_ttl c = ttl"
    and old: "\<And>k e. idem_view lru hash c k = Some e \<Longrightarrow>
      \<exists>t. last_insert ops k = Some (t, ce_response e) \<and> ce_expires_at e = t + ttl"
    using assms(2) by (auto simp: idem_inv_def)
  have "\<exists>t. last_insert (ops @ [op]) k' = Some (t, ce_response e) \<and> ce_expires_at e = t + ttl"
    if e: "idem_view lru hash (idem_insert lru hash c now k r) k' = Some e" for k' e
  proof (cases "k' = k")
    case True
    with e show ?thesis
      using idem_insert_view(1) [OF assms(1) len, where hash = hash and now = now and k = k and r = r]
      by (auto simp: InsertOp last_insert_snoc ttl)
  next
    case False
    then have "idem_view lru hash c k' = Some e"
      using idem_insert_view(2) [OF assms(1) len False, where hash = hash and now = now and r = r] e
      by simp
    with False old show ?thesis by (auto simp: InsertOp last_insert_snoc)
  qed
  then show ?thesis
    unfolding idem_inv_def idem_step_shape by (simp add: InsertOp len ttl)
qed

lemma idem_inv_new: "lru_laws lru \<Longrightarrow> idem_inv lru hash ttl [] (idem_new lru max_entries ttl)"
  by (simp add: idem_inv_def idem_new_def Let_def idem_view_def ic.view_replicate lru_laws_def)

lemma idem_inv_run:
  assumes "lru_laws lru"
  shows "idem_inv lru hash ttl ops (foldl (idem_step lru hash) (idem_new lru max_entries ttl) ops)"
  by (induction ops rule: rev_induct) (simp_all add: assms idem_inv_new idem_inv_step)

text \<open>
  C23: after any history of lookups and inserts, in any order and with any evictions, a lookup
  that answers returns the last response stored under exactly this key, and only before that
  entry's time to live ran out: never a stale, expired or foreign response.
\<close>

theorem idempotency_sound:
  assumes "lru_laws lru"
    and "snd (idem_get lru hash (foldl (idem_step lru hash) (idem_new lru max_entries ttl) ops) now key)
      = Some r"
  shows "\<exists>t. last_insert ops key = Some (t, r) \<and> now < t + ttl"
proof -
  define c where "c = foldl (idem_step lru hash) (idem_new lru max_entries ttl) ops"
  have inv: "idem_inv lru hash ttl ops c"
    unfolding c_def by (rule idem_inv_run [OF assms(1)])
  then obtain e where "idem_view lru hash c key = Some e" "now < ce_expires_at e" "ce_response e = r"
    using assms(2) idem_get_view(2) [OF assms(1), where c = c and hash = hash and now = now and k = key]
    by (auto simp: c_def [symmetric] idem_inv_def split: option.splits if_splits)
  with inv show ?thesis
    by (fastforce simp: idem_inv_def)
qed

text \<open>A concrete map: the most recently used first, of a bounded length.\<close>

definition list_lru :: "(nat \<times> (str \<times> cached_entry) list) lru_ops" where
  "list_lru = \<lparr>
     lru_new = (\<lambda>cap. (cap - 1, [])),
     lru_get = (\<lambda>(n, m) k. case map_of m k of
         Some e \<Rightarrow> ((n, (k, e) # filter (\<lambda>x. fst x \<noteq> k) m), Some e)
       | None \<Rightarrow> ((n, m), None)),
     lru_pop = (\<lambda>(n, m) k. (n, filter (\<lambda>x. fst x \<noteq> k) m)),
     lru_put = (\<lambda>(n, m) k e. (n, (k, e) # take n (filter (\<lambda>x. fst x \<noteq> k) m))) \<rparr>"

lemma lru_peek_list: "lru_peek list_lru c k = map_of (snd c) k"
  by (cases c) (simp add: lru_peek_def list_lru_def split: option.split)

lemma map_of_take: "map_of (take n m) k = None \<or> map_of (take n m) k = map_of m k"
  by (induction m arbitrary: n) (auto simp: take_Cons')

lemma map_of_filter_ne: "map_of (filter (\<lambda>x. fst x \<noteq> k) m) k' = (if k' = k then None else map_of m k')"
  by (induction m) auto

lemma list_lru_laws: "lru_laws list_lru"
  unfolding lru_laws_def lru_peek_list
proof (intro conjI allI impI)
  fix c :: "nat \<times> (str \<times> cached_entry) list" and k k' v
  show "map_of (snd (fst (lru_get list_lru c k))) k' = map_of (snd c) k'"
    by (cases c) (auto simp: list_lru_def map_of_filter_ne split: option.splits)
  show "map_of (snd (lru_put list_lru c k v)) k' = None \<or>
      map_of (snd (lru_put list_lru c k v)) k' = map_of (snd c) k'" if "k' \<noteq> k"
    using that map_of_take [of "fst c" "filter (\<lambda>x. fst x \<noteq> k) (snd c)" k']
    by (cases c) (simp add: list_lru_def map_of_filter_ne)
qed (simp_all add: list_lru_def map_of_filter_ne case_prod_unfold)

definition sample_response :: ingest_response where
  "sample_response = \<lparr> resp_id = ''01'', resp_cost_nanodollars = 5, resp_model = ''m'',
     resp_provider = ''openai'' \<rparr>"

theorem idempotency_sound_witness:
  "\<exists>t. last_insert [InsertOp 10 ''a'' sample_response, GetOp 12 ''b''] ''a'' = Some (t, sample_response)
     \<and> 15 < t + 300"
proof (rule idempotency_sound [OF list_lru_laws, where hash = length and max_entries = 160])
  show "snd (idem_get list_lru length (foldl (idem_step list_lru length) (idem_new list_lru 160 300)
      [InsertOp 10 ''a'' sample_response, GetOp 12 ''b'']) 15 ''a'') = Some sample_response"
    by (simp add: idem_get_def idem_insert_def idem_new_def idem_shard_index_def IDEM_SHARDS_def
        list_lru_def)
qed

end
