(* ===== verification/Stored_Event.thy ===== *)
theory Stored_Event
  imports Row_Mapping Schema
begin

text \<open>
  The archive form of an event: \<open>crates/keplor-store/src/stored_event.rs\<close>. Every field but the
  two body hashes is kept; ids, the method and the address are text.
\<close>

record stored_event =
  se_id :: str
  se_ts_ns :: i64
  se_user_id :: "str option"
  se_api_key_id :: "str option"
  se_org_id :: "str option"
  se_project_id :: "str option"
  se_route_id :: str
  se_provider :: provider
  se_model :: str
  se_model_family :: "str option"
  se_endpoint :: str
  se_method :: str
  se_http_status :: "u16 option"
  se_usage :: usage
  se_cost_nanodollars :: i64
  se_latency :: latencies
  se_flags :: u32
  se_error :: "provider_error option"
  se_client_ip :: "str option"
  se_user_agent :: "str option"
  se_request_id :: "str option"
  se_trace_id :: "trace_id option"
  se_source :: "str option"
  se_ingested_at :: i64
  se_metadata :: "json option"
  se_tier :: str

definition stored_from :: "externals \<Rightarrow> llm_event \<Rightarrow> stored_event" where
  "stored_from ext e = \<lparr>
     se_id = event_id_fmt (ulid_to_string ext) (ev_id e),
     se_ts_ns = ev_ts_ns e,
     se_user_id = map_option user_str (ev_user_id e),
     se_api_key_id = map_option api_key_str (ev_api_key_id e),
     se_org_id = map_option org_str (ev_org_id e),
     se_project_id = map_option project_str (ev_project_id e),
     se_route_id = route_str (ev_route_id e),
     se_provider = ev_provider e,
     se_model = ev_model e,
     se_model_family = ev_model_family e,
     se_endpoint = ev_endpoint e,
     se_method = ev_method e,
     se_http_status = ev_http_status e,
     se_usage = ev_usage e,
     se_cost_nanodollars = ev_cost_nanodollars e,
     se_latency = ev_latency e,
     se_flags = ev_flags e,
     se_error = ev_error e,
     se_client_ip = map_option (ip_to_string ext) (ev_client_ip e),
     se_user_agent = ev_user_agent e,
     se_request_id = ev_request_id e,
     se_trace_id = ev_trace_id e,
     se_source = ev_source e,
     se_ingested_at = ev_ingested_at e,
     se_metadata = ev_metadata e,
     se_tier = ev_tier e \<rparr>"

definition llm_try_from :: "externals \<Rightarrow> stored_event \<Rightarrow> store_error + llm_event" where
  "llm_try_from ext s =
     (case event_id_from_str (ulid_from_string ext) (se_id s) of
        Inl _ \<Rightarrow> Inl (StoreInternal (''invalid event id: '' @ se_id s))
      | Inr i \<Rightarrow>
        (let meth = (case method_from_bytes ext (se_method s) of Some m \<Rightarrow> m | None \<Rightarrow> ''POST'')
         in Inr \<lparr>
     ev_id = i,
     ev_ts_ns = se_ts_ns s,
     ev_user_id = map_option (string_id_from UserId) (se_user_id s),
     ev_api_key_id = map_option (string_id_from ApiKeyId) (se_api_key_id s),
     ev_org_id = map_option (string_id_from OrgId) (se_org_id s),
     ev_project_id = map_option (string_id_from ProjectId) (se_project_id s),
     ev_route_id = string_id_from RouteId (se_route_id s),
     ev_provider = se_provider s,
     ev_model = se_model s,
     ev_model_family = se_model_family s,
     ev_endpoint = se_endpoint s,
     ev_method = meth,
     ev_http_status = se_http_status s,
     ev_usage = se_usage s,
     ev_cost_nanodollars = se_cost_nanodollars s,
     ev_latency = se_latency s,
     ev_flags = se_flags s,
     ev_error = se_error s,
     ev_request_sha256 = replicate 32 0,
     ev_response_sha256 = replicate 32 0,
     ev_client_ip = Option.bind (se_client_ip s) (ip_from_str ext),
     ev_user_agent = se_user_agent s,
     ev_request_id = se_request_id s,
     ev_trace_id = se_trace_id s,
     ev_source = se_source s,
     ev_ingested_at = se_ingested_at s,
     ev_metadata = se_metadata s,
     ev_tier = se_tier s \<rparr>))"

section \<open>Round trip\<close>

text \<open>What the other packages have to do for this event, as for its row, less the JSON texts.\<close>

definition stored_texts_parse :: "externals \<Rightarrow> llm_event \<Rightarrow> bool" where
  "stored_texts_parse ext e \<longleftrightarrow>
     ulid_from_string ext (ulid_to_string ext (as_ulid (ev_id e))) = Some (as_ulid (ev_id e)) \<and>
     (case ev_client_ip e of None \<Rightarrow> True
      | Some ip \<Rightarrow> ip_from_str ext (ip_to_string ext ip) = Some ip) \<and>
     method_from_bytes ext (ev_method e) = Some (ev_method e)"

text \<open>An event without its two body hashes, which no archive keeps.\<close>

definition without_hashes :: "llm_event \<Rightarrow> llm_event" where
  "without_hashes e = e \<lparr> ev_request_sha256 := replicate 32 0, ev_response_sha256 := replicate 32 0 \<rparr>"

lemma option_id_roundtrip [simp]:
  "map_option (string_id_from UserId \<circ> user_str) u = u"
  "map_option (string_id_from ApiKeyId \<circ> api_key_str) k = k"
  "map_option (string_id_from OrgId \<circ> org_str) r = r"
  "map_option (string_id_from ProjectId \<circ> project_str) p = p"
  by (cases u; cases k; cases r; cases p; simp add: string_id_from_def)+

lemma llm_try_from_stored_from:
  assumes "stored_texts_parse ext e"
  shows "llm_try_from ext (stored_from ext e) = Inr (without_hashes e)"
proof -
  have ip: "Option.bind (map_option (ip_to_string ext) (ev_client_ip e)) (ip_from_str ext) = ev_client_ip e"
    using assms by (cases "ev_client_ip e") (simp_all add: stored_texts_parse_def)
  show ?thesis
    using assms ip
    by (simp add: stored_texts_parse_def llm_try_from_def stored_from_def event_id_fmt_def
        event_id_from_str_def option.map_comp string_id_from_def without_hashes_def)
qed

text \<open>
  C31: an event restored from its archive form is the event itself with both body hashes zero,
  whatever its fields: empty optional strings, unknown flag bits, sub-second retry hints and the
  ingestion time are kept, which the stored row loses; and a text that is no ULID in place of the
  id is reported as an error that names it.
\<close>

theorem stored_roundtrip:
  assumes "stored_texts_parse ext e" and "ulid_from_string ext bad = None"
  shows "llm_try_from ext (stored_from ext e) = Inr (without_hashes e) \<and>
    llm_try_from ext ((stored_from ext e) \<lparr> se_id := bad \<rparr>) =
      Inl (StoreInternal (''invalid event id: '' @ bad))"
proof
  show "llm_try_from ext (stored_from ext e) = Inr (without_hashes e)"
    by (rule llm_try_from_stored_from [OF assms(1)])
  show "llm_try_from ext ((stored_from ext e) \<lparr> se_id := bad \<rparr>) =
      Inl (StoreInternal (''invalid event id: '' @ bad))"
    using assms(2) by (simp add: llm_try_from_def event_id_from_str_def)
qed

definition strict_ext :: externals where
  "strict_ext = sample_ext \<lparr> ulid_from_string :=
     (\<lambda>s. if set s \<subseteq> {CHR ''0''} then Some (length s) else None) \<rparr>"

theorem stored_roundtrip_witness:
  "llm_try_from strict_ext (stored_from strict_ext sample_event) = Inr (without_hashes sample_event) \<and>
   llm_try_from strict_ext ((stored_from strict_ext sample_event) \<lparr> se_id := ''x'' \<rparr>) =
     Inl (StoreInternal (''invalid event id: '' @ ''x''))"
proof -
  have "stored_texts_parse strict_ext sample_event" "ulid_from_string strict_ext ''x'' = None"
    by (simp_all add: stored_texts_parse_def strict_ext_def sample_ext_def sample_event_def)
  from stored_roundtrip [OF this] show ?thesis by simp
qed

end
