(* ===== verification/Multimap.thy ===== *)
theory Multimap
  imports Prelude "HOL-Library.Char_ord" "HOL-Library.List_Lexorder" "HOL-Library.Product_Lexorder"
    "HOL-Library.Multiset"
begin

text \<open>
  Maps whose values are vectors that grow by \<open>entry(k).or_default().push(v)\<close>, the structure the
  manifest index, the archive groups and the per-tier batches share. A \<open>BTreeMap\<close> is an
  association list sorted by key, a \<open>HashMap\<close> one whose order stands for the iteration order.
\<close>

definition entries_of :: "('k \<times> 'v list) list \<Rightarrow> 'k \<Rightarrow> 'v list" where
  "entries_of m k = (case map_of m k of None \<Rightarrow> [] | Some vs \<Rightarrow> vs)"

fun btree_push :: "'k::linorder \<Rightarrow> 'v \<Rightarrow> ('k \<times> 'v list) list \<Rightarrow> ('k \<times> 'v list) list" where
  "btree_push k v [] = [(k, [v])]"
| "btree_push k v ((a, vs) # m) =
     (if a = k then (a, vs @ [v]) # m
      else if k < a then (k, [v]) # (a, vs) # m
      else (a, vs) # btree_push k v m)"

definition hash_push :: "'k \<Rightarrow> 'v \<Rightarrow> ('k \<times> 'v list) list \<Rightarrow> ('k \<times> 'v list) list" where
  "hash_push k v m = map_put k (entries_of m k @ [v]) m"

section \<open>Invariants\<close>

definition btree_ok :: "('k::linorder \<times> 'v list) list \<Rightarrow> bool" where
  "btree_ok m \<longleftrightarrow> sorted (map fst m) \<and> distinct (map fst m) \<and> (\<forall>(k, vs)\<in>set m. vs \<noteq> [])"

definition hash_ok :: "('k \<times> 'v list) list \<Rightarrow> bool" where
  "hash_ok m \<longleftrightarrow> distinct (map fst m) \<and> (\<forall>(k, vs)\<in>set m. vs \<noteq> [])"

lemma btree_push_keys: "fst ` set (btree_push k v m) = insert k (fst ` set m)"
  by (induction k v m rule: btree_push.induct) auto

lemma btree_push_ok: "btree_ok m \<Longrightarrow> btree_ok (btree_push k v m)"
proof (induction k v m rule: btree_push.induct)
  case (2 k v a vs m)
  have "btree_ok m" using 2(2) by (auto simp: btree_ok_def)
  then show ?case
    using 2 by (auto simp: btree_ok_def btree_push_keys)
qed (simp add: btree_ok_def)

lemma map_put_set: "set (map_put k v m) \<subseteq> insert (k, v) (set m)"
  by (induction k v m rule: map_put.induct) auto

lemma hash_push_ok: "hash_ok m \<Longrightarrow> hash_ok (hash_push k v m)"
  using map_put_set [of k "entries_of m k @ [v]" m]
  by (auto simp: hash_ok_def hash_push_def distinct_map_put)

lemma entries_of_btree_push:
  "btree_ok m \<Longrightarrow> entries_of (btree_push k v m) = (entries_of m)(k := entries_of m k @ [v])"
proof (induction k v m rule: btree_push.induct)
  case (2 k v a vs m)
  have ok: "btree_ok m" using 2(2) by (auto simp: btree_ok_def)
  have "k \<notin> fst ` set m" if "k < a"
    using 2(2) that by (fastforce simp: btree_ok_def)
  then have "map_of m k = None" if "k < a"
    using that by (simp add: map_of_eq_None_iff)
  then show ?case
    using 2(1) [OF _ _ ok] by (auto simp: entries_of_def fun_eq_iff)
qed (auto simp: entries_of_def)

lemma entries_of_hash_push:
  "entries_of (hash_push k v m) = (entries_of m)(k := entries_of m k @ [v])"
  by (auto simp: entries_of_def hash_push_def map_of_map_put)

lemma entries_of_sum:
  assumes "distinct (map fst m)"
  shows "(\<Sum>p\<leftarrow>m. if fst p = k then mset (snd p) else {#}) = mset (entries_of m k)"
  using assms
proof (induction m)
  case (Cons p m)
  have rest: "(\<Sum>p\<leftarrow>m. if fst p = k then mset (snd p) else {#}) = {#}" if "k \<notin> fst ` set m"
    using that by (induction m) auto
  then show ?case using Cons by (cases p) (auto simp: entries_of_def map_of_eq_None_iff)
qed (simp add: entries_of_def)

section \<open>Grouping by a key\<close>

text \<open>
  Pushing every element of a list under its own key partitions the list: the group of a key is
  the sublist of the elements with that key, in their order, and no group is empty.
\<close>

locale multimap =
  fixes push :: "'k \<Rightarrow> 'v \<Rightarrow> ('k \<times> 'v list) list \<Rightarrow> ('k \<times> 'v list) list"
    and ok :: "('k \<times> 'v list) list \<Rightarrow> bool"
  assumes ok_empty: "ok []"
    and ok_push: "ok m \<Longrightarrow> ok (push k v m)"
    and ok_distinct: "ok m \<Longrightarrow> distinct (map fst m)"
    and ok_nonempty: "ok m \<Longrightarrow> (k, vs) \<in> set m \<Longrightarrow> vs \<noteq> []"
    and entries_push: "ok m \<Longrightarrow> entries_of (push k v m) = (entries_of m)(k := entries_of m k @ [v])"
begin

definition grouped :: "('v \<Rightarrow> 'k) \<Rightarrow> 'v list \<Rightarrow> ('k \<times> 'v list) list" where
  "grouped key vs = fold (\<lambda>v. push (key v) v) vs []"

lemma grouped_snoc: "grouped key (vs @ [v]) = push (key v) v (grouped key vs)"
  by (simp add: grouped_def)

lemma grouped_ok: "ok (grouped key vs)"
  by (induction vs rule: rev_induct)
    (simp_all only: grouped_snoc ok_push, simp add: grouped_def ok_empty)

lemma grouped_entries: "entries_of (grouped key vs) k = filter (\<lambda>v. key v = k) vs"
proof (induction vs rule: rev_induct)
  case Nil
  show ?case by (simp add: grouped_def entries_of_def)
next
  case (snoc v vs)
  then show ?case by (cases "key v = k") (simp_all add: grouped_snoc entries_push [OF grouped_ok])
qed

lemma in_grouped_iff:
  "(k, g) \<in> set (grouped key vs) \<longleftrightarrow> g = filter (\<lambda>v. key v = k) vs \<and> g \<noteq> []"
proof -
  have d: "distinct (map fst (grouped key vs))" by (rule ok_distinct [OF grouped_ok])
  have "map_of (grouped key vs) k = Some g \<longleftrightarrow> (k, g) \<in> set (grouped key vs)"
    using d by simp
  moreover have "map_of (grouped key vs) k = Some g \<Longrightarrow> g \<noteq> []"
    using ok_nonempty [OF grouped_ok] map_of_SomeD by fastforce
  ultimately show ?thesis
    using grouped_entries [of key vs k] by (auto simp: entries_of_def split: option.splits)
qed

lemma grouped_mset: "mset (concat (map snd (grouped key vs))) = mset vs"
proof -
  have d: "distinct (map fst (grouped key vs))" by (rule ok_distinct [OF grouped_ok])
  have part: "(\<Sum>p\<leftarrow>m. mset (snd p)) = filter_mset (\<lambda>v. key v \<in> fst ` set m) (mset vs)"
    if "distinct (map fst m)" "\<And>k g. (k, g) \<in> set m \<Longrightarrow> g = filter (\<lambda>v. key v = k) vs" for m
    using that
  proof (induction m)
    case (Cons p m)
    obtain k g where p: "p = (k, g)" by (cases p)
    have g: "g = filter (\<lambda>v. key v = k) vs" using Cons.prems(2) p by simp
    have IH: "(\<Sum>p\<leftarrow>m. mset (snd p)) = filter_mset (\<lambda>v. key v \<in> fst ` set m) (mset vs)"
      using Cons by simp
    have "k \<notin> fst ` set m" using Cons.prems(1) p by simp
    then have "filter_mset (\<lambda>v. key v \<in> fst ` set (p # m)) (mset vs) =
      filter_mset (\<lambda>v. key v = k) (mset vs) + filter_mset (\<lambda>v. key v \<in> fst ` set m) (mset vs)"
      by (induction vs) (auto simp: p)
    then show ?case using IH p g by simp
  qed simp
  have keys: "key v \<in> fst ` set (grouped key vs)" if "v \<in> set vs" for v
  proof -
    have "(key v, filter (\<lambda>w. key w = key v) vs) \<in> set (grouped key vs)"
      using that by (auto simp: in_grouped_iff filter_empty_conv)
    then show ?thesis by force
  qed
  have "mset (concat (map snd (grouped key vs))) = (\<Sum>p\<leftarrow>grouped key vs. mset (snd p))"
    by (simp add: mset_concat comp_def)
  also have "\<dots> = filter_mset (\<lambda>v. key v \<in> fst ` set (grouped key vs)) (mset vs)"
    by (rule part [OF d]) (simp add: in_grouped_iff)
  also have "\<dots> = mset vs"
    by (simp add: filter_mset_eq_conv keys)
  finally show ?thesis .
qed

end

interpretation bt: multimap "btree_push :: 'k::linorder \<Rightarrow> 'v \<Rightarrow> _" btree_ok
proof unfold_locales
  fix m :: "('k \<times> 'v list) list" and k v vs
  assume ok: "btree_ok m"
  show "btree_ok (btree_push k v m)" by (rule btree_push_ok [OF ok])
  show "entries_of (btree_push k v m) = (entries_of m)(k := entries_of m k @ [v])"
    by (rule entries_of_btree_push [OF ok])
  show "distinct (map fst m)" using ok by (simp add: btree_ok_def)
  show "(k, vs) \<in> set m \<Longrightarrow> vs \<noteq> []" using ok by (auto simp: btree_ok_def)
qed (simp add: btree_ok_def)

interpretation hm: multimap "hash_push :: 'k \<Rightarrow> 'v \<Rightarrow> _" hash_ok
proof unfold_locales
  fix m :: "('k \<times> 'v list) list" and k v vs
  assume ok: "hash_ok m"
  show "hash_ok (hash_push k v m)" by (rule hash_push_ok [OF ok])
  show "entries_of (hash_push k v m) = (entries_of m)(k := entries_of m k @ [v])"
    by (rule entries_of_hash_push)
  show "distinct (map fst m)" using ok by (simp add: hash_ok_def)
  show "(k, vs) \<in> set m \<Longrightarrow> vs \<noteq> []" using ok by (auto simp: hash_ok_def)
qed (simp add: hash_ok_def)

section \<open>Accumulating by a key\<close>

text \<open>
  \<open>let acc = merged.entry(k).or_default()\<close> followed by an update of \<open>acc\<close>, for every pair of a
  list: each key ends with the updates of its own values, in their order.
\<close>

definition accumulate :: "('v \<Rightarrow> 'a \<Rightarrow> 'a) \<Rightarrow> 'a \<Rightarrow> ('k \<times> 'v) list \<Rightarrow> ('k \<times> 'a) list" where
  "accumulate upd dflt kvs =
     fold (\<lambda>(k, v) m. map_put k (upd v (case map_of m k of None \<Rightarrow> dflt | Some a \<Rightarrow> a)) m) kvs []"

definition values_at :: "('k \<times> 'v) list \<Rightarrow> 'k \<Rightarrow> 'v list" where
  "values_at kvs k = map snd (filter (\<lambda>p. fst p = k) kvs)"

lemma accumulate_snoc:
  "accumulate upd dflt (kvs @ [(k, v)]) =
     map_put k (upd v (case map_of (accumulate upd dflt kvs) k of None \<Rightarrow> dflt | Some a \<Rightarrow> a))
       (accumulate upd dflt kvs)"
  by (simp add: accumulate_def)

lemma accumulate_distinct: "distinct (map fst (accumulate upd dflt kvs))"
proof (induction kvs rule: rev_induct)
  case (snoc p kvs)
  then show ?case by (cases p) (simp add: accumulate_snoc distinct_map_put)
qed (simp add: accumulate_def)

lemma map_of_accumulate:
  "map_of (accumulate upd dflt kvs) k =
     (if values_at kvs k = [] then None else Some (fold upd (values_at kvs k) dflt))"
proof (induction kvs rule: rev_induct)
  case (snoc p kvs)
  then show ?case
    by (cases p) (auto simp: accumulate_snoc map_of_map_put values_at_def split: if_splits)
qed (simp add: accumulate_def values_at_def)

lemma in_accumulate_iff:
  "(k, a) \<in> set (accumulate upd dflt kvs) \<longleftrightarrow>
     values_at kvs k \<noteq> [] \<and> a = fold upd (values_at kvs k) dflt"
  using map_of_accumulate [of upd dflt kvs k] Some_eq_map_of_iff [OF accumulate_distinct [of upd dflt kvs], of a k]
  by (auto split: if_splits)

lemma keys_accumulate: "fst ` set (accumulate upd dflt kvs) = fst ` set kvs"
proof (induction kvs rule: rev_induct)
  case (snoc p kvs)
  then show ?case by (cases p) (simp add: accumulate_snoc set_keys_map_put)
qed (simp add: accumulate_def)

end
