(* ===== verification/Manifests.thy ===== *)
theory Manifests
  imports Multimap Schema Utf8
begin

text \<open>
  The archive manifest log: \<open>crates/keplor-store/src/kdb_store/manifests.rs\<close> with
  \<open>ArchiveManifest\<close> of \<open>types.rs\<close>. The file is its bytes, absent or present; an insert
  appends one line to it and, once that has reached the disk, one entry to the index in memory.
  The JSON text of a record (\<open>serde_json\<close>) is a parameter.
\<close>

record archive_manifest =
  am_archive_id :: str
  am_user_id :: str
  am_day :: str
  am_s3_key :: str
  am_event_count :: usize
  am_min_ts_ns :: i64
  am_max_ts_ns :: i64
  am_compressed_bytes :: usize
  am_created_at :: i64

record manifest_record =
  mr_archive_id :: str
  mr_user_id :: str
  mr_day :: str
  mr_s3_key :: str
  mr_event_count :: usize
  mr_min_ts_ns :: i64
  mr_max_ts_ns :: i64
  mr_compressed_bytes :: usize
  mr_created_at :: i64

definition record_from :: "archive_manifest \<Rightarrow> manifest_record" where
  "record_from m = \<lparr> mr_archive_id = am_archive_id m, mr_user_id = am_user_id m,
     mr_day = am_day m, mr_s3_key = am_s3_key m, mr_event_count = am_event_count m,
     mr_min_ts_ns = am_min_ts_ns m, mr_max_ts_ns = am_max_ts_ns m,
     mr_compressed_bytes = am_compressed_bytes m, mr_created_at = am_created_at m \<rparr>"

definition manifest_from :: "manifest_record \<Rightarrow> archive_manifest" where
  "manifest_from r = \<lparr> am_archive_id = mr_archive_id r, am_user_id = mr_user_id r,
     am_day = mr_day r, am_s3_key = mr_s3_key r, am_event_count = mr_event_count r,
     am_min_ts_ns = mr_min_ts_ns r, am_max_ts_ns = mr_max_ts_ns r,
     am_compressed_bytes = mr_compressed_bytes r, am_created_at = mr_created_at r \<rparr>"

lemma manifest_record_inverse [simp]: "manifest_from (record_from m) = m"
  by (simp add: manifest_from_def record_from_def)

type_synonym index_key = "str \<times> str"

record manifest_store =
  ms_path :: str
  ms_entries :: "(index_key \<times> archive_manifest list) list"

text \<open>\<open>serde_json\<close> on records.\<close>

record record_json =
  rj_to_string :: "manifest_record \<Rightarrow> str + str"
  rj_from_str :: "str \<Rightarrow> manifest_record option"

section \<open>Reading lines\<close>

definition newline :: char where
  "newline = CHR 0x0A"

text \<open>
  \<open>BufRead::lines\<close> on the bytes of a file: the lines end at \<open>\n\<close>, a \<open>\r\<close> before it goes too,
  and the bytes after the last \<open>\n\<close> are a line if there are any.
\<close>

definition strip_cr :: "str \<Rightarrow> str" where
  "strip_cr s = (if s \<noteq> [] \<and> last s = CHR 0x0D then butlast s else s)"

fun buf_lines :: "str \<Rightarrow> str \<Rightarrow> str list" where
  "buf_lines acc [] = (if acc = [] then [] else [acc])"
| "buf_lines acc (c # cs) =
     (if c = newline then strip_cr acc # buf_lines [] cs else buf_lines (acc @ [c]) cs)"

section \<open>Operations\<close>

definition manifest_key :: "archive_manifest \<Rightarrow> index_key" where
  "manifest_key m = (am_user_id m, am_day m)"

definition index_manifest :: "archive_manifest \<Rightarrow> (index_key \<times> archive_manifest list) list \<Rightarrow>
    (index_key \<times> archive_manifest list) list" where
  "index_manifest m entries = btree_push (manifest_key m) m entries"

definition load_line :: "record_json \<Rightarrow> str \<Rightarrow> (index_key \<times> archive_manifest list) list \<Rightarrow>
    (index_key \<times> archive_manifest list) list" where
  "load_line rj line entries =
     (if is_utf8 line \<and> line \<noteq> [] then
        (case rj_from_str rj line of None \<Rightarrow> entries
         | Some rec \<Rightarrow> index_manifest (manifest_from rec) entries)
      else entries)"

text \<open>The file is absent, cannot be opened, or has these bytes.\<close>

definition manifest_open :: "record_json \<Rightarrow> str \<Rightarrow> (str + str) option \<Rightarrow> store_error + manifest_store" where
  "manifest_open rj path file =
     (case file of
        None \<Rightarrow> Inr \<lparr> ms_path = path, ms_entries = [] \<rparr>
      | Some (Inl e) \<Rightarrow> Inl (Io e)
      | Some (Inr bytes) \<Rightarrow>
          Inr \<lparr> ms_path = path, ms_entries = fold (load_line rj) (buf_lines [] bytes) [] \<rparr>)"

text \<open>How the write ends: on disk, or stopped by an error after some bytes of the line.\<close>

datatype append_outcome = Appended | AppendFailed nat str

definition manifest_insert :: "record_json \<Rightarrow> append_outcome \<Rightarrow> archive_manifest \<Rightarrow>
    manifest_store \<times> str \<Rightarrow> (store_error + unit) \<times> manifest_store \<times> str" where
  "manifest_insert rj io m = (\<lambda>(st, file).
     case rj_to_string rj (record_from m) of
       Inl e \<Rightarrow> (Inl (StoreOther e), st, file)
     | Inr line \<Rightarrow>
         (case io of
            AppendFailed n e \<Rightarrow> (Inl (Io e), st, file @ take n (line @ [newline]))
          | Appended \<Rightarrow>
              (Inr (), st \<lparr> ms_entries := index_manifest m (ms_entries st) \<rparr>,
               file @ line @ [newline])))"

definition user_matches :: "str option \<Rightarrow> index_key \<Rightarrow> bool" where
  "user_matches user_id k = (case user_id of None \<Rightarrow> True | Some u \<Rightarrow> fst k = u)"

definition any_overlapping :: "manifest_store \<Rightarrow> str option \<Rightarrow> i64 \<Rightarrow> i64 \<Rightarrow> bool" where
  "any_overlapping st user_id from to =
     list_ex (\<lambda>(k, v). user_matches user_id k \<and>
       list_ex (\<lambda>m. am_max_ts_ns m \<ge> from \<and> am_min_ts_ns m \<le> to) v) (ms_entries st)"

definition in_window :: "i64 option \<Rightarrow> i64 option \<Rightarrow> archive_manifest \<Rightarrow> bool" where
  "in_window from_ts to_ts m \<longleftrightarrow>
     (case from_ts of None \<Rightarrow> True | Some from \<Rightarrow> \<not> am_max_ts_ns m < from) \<and>
     (case to_ts of None \<Rightarrow> True | Some to \<Rightarrow> \<not> am_min_ts_ns m > to)"

definition manifest_list :: "manifest_store \<Rightarrow> str option \<Rightarrow> i64 option \<Rightarrow> i64 option \<Rightarrow> u32 \<Rightarrow> u32 \<Rightarrow>
    archive_manifest list" where
  "manifest_list st user_id from_ts to_ts limit offset =
     (let out = concat (map (\<lambda>(k, v). if user_matches user_id k
            then filter (in_window from_ts to_ts) v else []) (ms_entries st))
      in take (unat limit) (drop (unat offset) (sort_key am_min_ts_ns out)))"

definition summary_step :: "archive_manifest \<Rightarrow> usize \<times> usize \<times> i64 \<Rightarrow> usize \<times> usize \<times> i64" where
  "summary_step m = (\<lambda>(count, bytes, oldest).
     (count + 1, min (bytes + am_compressed_bytes m) (nat u64_max),
      if am_min_ts_ns m < oldest then am_min_ts_ns m else oldest))"

definition manifest_summary :: "manifest_store \<Rightarrow> usize \<times> usize \<times> i64" where
  "manifest_summary st =
     (let (count, bytes, oldest) =
            fold (\<lambda>(k, v). fold summary_step v) (ms_entries st) (0, 0, i64_max)
      in (count, bytes, if count = 0 then 0 else oldest))"

section \<open>Lines\<close>

text \<open>A log whose last line is complete.\<close>

definition complete_log :: "str \<Rightarrow> bool" where
  "complete_log file \<longleftrightarrow> file = [] \<or> last file = newline"

lemma buf_lines_no_newline: "newline \<notin> set t \<Longrightarrow> buf_lines acc (t @ f) = buf_lines (acc @ t) f"
  by (induction t arbitrary: acc) auto

lemma buf_lines_append:
  "last (acc @ f) = newline \<Longrightarrow> f \<noteq> [] \<Longrightarrow> buf_lines acc (f @ g) = buf_lines acc f @ buf_lines [] g"
proof (induction f arbitrary: acc)
  case (Cons c f)
  show ?case
  proof (cases "f = []")
    case True
    with Cons.prems show ?thesis by simp
  next
    case False
    then have "last f = newline" using Cons.prems by simp
    with False Cons.IH [of "[]"] Cons.IH [of "acc @ [c]"] show ?thesis by simp
  qed
qed simp

lemma buf_lines_complete:
  assumes "complete_log f"
  shows "buf_lines [] (f @ g) = buf_lines [] f @ buf_lines [] g"
  using assms buf_lines_append [of "[]" f g] by (cases "f = []") (simp_all add: complete_log_def)

section \<open>The log and the index\<close>

text \<open>
  What the record codec promises: a record has a text of valid UTF-8 without line breaks that
  parses back to it.
\<close>

definition json_line_of :: "record_json \<Rightarrow> archive_manifest \<Rightarrow> str \<Rightarrow> bool" where
  "json_line_of rj m t \<longleftrightarrow>
     rj_to_string rj (record_from m) = Inr t \<and> rj_from_str rj t = Some (record_from m) \<and>
     t \<noteq> [] \<and> is_utf8 t \<and> newline \<notin> set t \<and> CHR 0x0D \<notin> set t"

lemma json_line_last: "json_line_of rj m t \<Longrightarrow> last t \<noteq> CHR 0x0D"
  using last_in_set [of t] unfolding json_line_of_def by metis

lemma buf_lines_record:
  assumes "json_line_of rj m t"
  shows "buf_lines [] (t @ [newline]) = [t]"
proof -
  have "strip_cr t = t"
    using json_line_last [OF assms] by (simp add: strip_cr_def)
  then show ?thesis
    using assms buf_lines_no_newline [of t "[]" "[newline]"] by (simp add: json_line_of_def)
qed

lemma load_line_record:
  "json_line_of rj m t \<Longrightarrow> load_line rj t entries = index_manifest m entries"
  by (simp add: load_line_def json_line_of_def)

text \<open>The index in memory is the one the file gives when it is opened again.\<close>

definition recovers :: "record_json \<Rightarrow> manifest_store \<times> str \<Rightarrow> bool" where
  "recovers rj = (\<lambda>(st, file).
     manifest_open rj (ms_path st) (Some (Inr file)) = Inr st)"

lemma insert_ok_recovers:
  assumes "recovers rj (st, file)" and "complete_log file" and "json_line_of rj m t"
  shows "recovers rj (snd (manifest_insert rj Appended m (st, file)))"
    and "complete_log (snd (snd (manifest_insert rj Appended m (st, file))))"
  using assms
  by (simp_all add: recovers_def manifest_insert_def manifest_open_def json_line_of_def
      buf_lines_complete buf_lines_record [OF assms(3)] load_line_record [OF assms(3)]
      complete_log_def)
    (cases st, simp)

lemma insert_failed_recovers:
  assumes "recovers rj (st, file)" and "complete_log file" and "json_line_of rj m t"
    and "rj_from_str rj (take n t) = None" and "n \<le> length t"
  shows "recovers rj (snd (manifest_insert rj (AppendFailed n e) m (st, file)))"
proof -
  have "newline \<notin> set (take n t)"
    using assms(3) set_take_subset [of n t] by (auto simp: json_line_of_def)
  then have "buf_lines [] (take n t) = (if take n t = [] then [] else [take n t])"
    using buf_lines_no_newline [of "take n t" "[]" "[]"] by simp
  with assms show ?thesis
    by (simp add: recovers_def manifest_insert_def manifest_open_def json_line_of_def
        buf_lines_complete load_line_def)
qed

text \<open>The store and the file after inserting manifests one after the other.\<close>

definition insert_all :: "record_json \<Rightarrow> archive_manifest list \<Rightarrow> manifest_store \<times> str \<Rightarrow> manifest_store \<times> str" where
  "insert_all rj ms s = fold (\<lambda>m s. snd (manifest_insert rj Appended m s)) ms s"

lemma insert_all_snoc:
  "insert_all rj (ms @ [m]) s = snd (manifest_insert rj Appended m (insert_all rj ms s))"
  by (simp add: insert_all_def)

lemma insert_all_entries:
  assumes "\<And>m. m \<in> set ms \<Longrightarrow> \<exists>t. json_line_of rj m t"
  shows "ms_entries (fst (insert_all rj ms (\<lparr> ms_path = p, ms_entries = [] \<rparr>, []))) =
    bt.grouped manifest_key ms"
  using assms
proof (induction ms rule: rev_induct)
  case Nil
  show ?case by (simp add: insert_all_def bt.grouped_def)
next
  case (snoc m ms)
  let ?s = "insert_all rj ms (\<lparr> ms_path = p, ms_entries = [] \<rparr>, [])"
  obtain t where "rj_to_string rj (record_from m) = Inr t"
    using snoc.prems [of m] by (auto simp: json_line_of_def)
  moreover have "ms_entries (fst ?s) = bt.grouped manifest_key ms"
    using snoc by simp
  ultimately show ?case
    by (cases ?s) (simp add: insert_all_snoc manifest_insert_def bt.grouped_snoc index_manifest_def)
qed

lemma insert_all_recovers:
  assumes "\<And>m. m \<in> set ms \<Longrightarrow> \<exists>t. json_line_of rj m t"
    and "recovers rj s" and "complete_log (snd s)"
  shows "recovers rj (insert_all rj ms s) \<and> complete_log (snd (insert_all rj ms s))"
  using assms
proof (induction ms rule: rev_induct)
  case Nil
  then show ?case by (simp add: insert_all_def)
next
  case (snoc m ms)
  obtain t where "json_line_of rj m t" using snoc.prems(1) [of m] by auto
  moreover have "recovers rj (insert_all rj ms s)" "complete_log (snd (insert_all rj ms s))"
    using snoc by simp_all
  ultimately show ?case
    using insert_ok_recovers [of rj "fst (insert_all rj ms s)" "snd (insert_all rj ms s)" m t]
    by (simp add: insert_all_snoc)
qed

lemma ms_path_insert_all [simp]: "ms_path (fst (insert_all rj ms s)) = ms_path (fst s)"
  by (induction ms rule: rev_induct)
    (simp_all add: insert_all_snoc, simp_all add: insert_all_def manifest_insert_def
      case_prod_unfold split: sum.split)

text \<open>
  C14: after any number of inserts into a new manifest log, opening the file again gives exactly
  the index in memory, whose entry for a user and a day holds the manifests of that partition in
  the order of their inserts; and when a further insert is cut off inside its line, by an error
  or a crash, opening the file still gives that index.
\<close>

theorem manifest_log_recovers:
  assumes "\<forall>m\<in>set ms. \<exists>t. json_line_of rj m t"
    and "json_line_of rj m' t'" and "n \<le> length t'" and "rj_from_str rj (take n t') = None"
  shows "\<exists>st file. insert_all rj ms (\<lparr> ms_path = p, ms_entries = [] \<rparr>, []) = (st, file) \<and>
      manifest_open rj p (Some (Inr file)) = Inr st \<and>
      (\<forall>k. entries_of (ms_entries st) k = filter (\<lambda>m. manifest_key m = k) ms) \<and>
      manifest_insert rj (AppendFailed n e) m' (st, file) = (Inl (Io e), st, file @ take n t') \<and>
      manifest_open rj p (Some (Inr (file @ take n t'))) = Inr st"
proof -
  let ?s0 = "(\<lparr> ms_path = p, ms_entries = [] \<rparr>, [] :: str)"
  obtain st bytes where s: "insert_all rj ms ?s0 = (st, bytes)" by fastforce
  have path: "ms_path st = p" using ms_path_insert_all [of rj ms ?s0] s by simp
  have rec: "recovers rj (st, bytes)" "complete_log bytes"
    using insert_all_recovers [of ms rj ?s0] assms(1) s
    by (auto simp: recovers_def manifest_open_def complete_log_def)
  have entries: "entries_of (ms_entries st) k = filter (\<lambda>m. manifest_key m = k) ms" for k
    using insert_all_entries [of ms rj p] assms(1) s bt.grouped_entries [of manifest_key ms k] by simp
  have ins: "manifest_insert rj (AppendFailed n e) m' (st, bytes) = (Inl (Io e), st, bytes @ take n t')"
    using assms(2,3) by (simp add: manifest_insert_def json_line_of_def)
  then show ?thesis
    using s rec entries insert_failed_recovers [OF rec assms(2,4,3), of e] path
    by (simp add: recovers_def)
qed

text \<open>
  A write that is cut off leaves its bytes at the end of the log, and the next manifest,
  whose insert succeeds and is in the index in memory, is appended to the same line: when the file
  is opened again it is gone.
\<close>

theorem manifest_lost_after_partial_write:
  assumes "\<forall>m\<in>set ms. \<exists>t. json_line_of rj m t"
    and "json_line_of rj m t" and "json_line_of rj m' t'"
    and "n \<le> length t" and "rj_from_str rj (take n t @ t') = None"
  shows "\<exists>st file st' file'. insert_all rj ms (\<lparr> ms_path = p, ms_entries = [] \<rparr>, []) = (st, file) \<and>
      manifest_insert rj Appended m' (snd (manifest_insert rj (AppendFailed n e) m (st, file))) =
        (Inr (), st', file') \<and>
      entries_of (ms_entries st') (manifest_key m') = entries_of (ms_entries st) (manifest_key m') @ [m'] \<and>
      manifest_open rj p (Some (Inr file')) = Inr st"
proof -
  let ?s0 = "(\<lparr> ms_path = p, ms_entries = [] \<rparr>, [] :: str)"
  obtain st bytes where s: "insert_all rj ms ?s0 = (st, bytes)" by fastforce
  have path: "ms_path st = p" using ms_path_insert_all [of rj ms ?s0] s by simp
  have rec: "recovers rj (st, bytes)" "complete_log bytes"
    using insert_all_recovers [of ms rj ?s0] assms(1) s
    by (auto simp: recovers_def manifest_open_def complete_log_def)
  have ok: "btree_ok (ms_entries st)"
    using insert_all_entries [of ms rj p] assms(1) s bt.grouped_ok [of manifest_key ms] by simp
  let ?line = "take n t @ t'"
  have "newline \<notin> set ?line"
    using assms(2,3) set_take_subset [of n t] by (auto simp: json_line_of_def)
  then have line: "buf_lines [] (?line @ [newline]) = [?line]"
    using json_line_last [OF assms(3)] assms(3) buf_lines_no_newline [of ?line "[]" "[newline]"]
    by (simp add: json_line_of_def strip_cr_def)
  let ?st' = "st \<lparr> ms_entries := index_manifest m' (ms_entries st) \<rparr>"
  let ?file' = "(bytes @ take n t) @ t' @ [newline]"
  have ins: "manifest_insert rj Appended m' (snd (manifest_insert rj (AppendFailed n e) m (st, bytes))) =
      (Inr (), ?st', ?file')"
    using assms(2-4) by (simp add: manifest_insert_def json_line_of_def)
  have entry: "entries_of (ms_entries ?st') (manifest_key m') =
      entries_of (ms_entries st) (manifest_key m') @ [m']"
    by (simp add: index_manifest_def bt.entries_push [OF ok])
  have "manifest_open rj p (Some (Inr ?file')) = manifest_open rj p (Some (Inr bytes))"
    using line assms(5) by (simp add: manifest_open_def buf_lines_complete [OF rec(2)] load_line_def)
  then have "manifest_open rj p (Some (Inr ?file')) = Inr st"
    using rec(1) path by (simp add: recovers_def)
  with s ins entry show ?thesis by blast
qed

section \<open>Queries\<close>

lemma set_concat_entries:
  "btree_ok es \<Longrightarrow> set (concat (map snd es)) = {m. \<exists>k. m \<in> set (entries_of es k)}"
  by (force simp: entries_of_def btree_ok_def split: option.splits dest: map_of_SomeD)

lemma list_out_filter:
  "concat (map (\<lambda>(k, v). if user_matches u k then filter P v else []) (bt.grouped manifest_key ms)) =
   filter (\<lambda>m. user_matches u (manifest_key m) \<and> P m) (concat (map snd (bt.grouped manifest_key ms)))"
proof -
  have keyed: "\<forall>m\<in>set v. manifest_key m = k" if "(k, v) \<in> set (bt.grouped manifest_key ms)" for k v
    using that by (auto simp: bt.in_grouped_iff)
  have "(if user_matches u k then filter P v else []) =
      filter (\<lambda>m. user_matches u (manifest_key m) \<and> P m) v"
    if "(k, v) \<in> set (bt.grouped manifest_key ms)" for k v
    using keyed [OF that] by (auto simp: filter_empty_conv intro!: filter_cong)
  then show ?thesis
    by (auto simp: filter_concat intro!: arg_cong [where f = concat])
qed

text \<open>
  C32: on an index built from any manifests, a listing without page limits holds exactly the
  manifests of the user (all of them without one) whose time range meets the window, each as
  often as it was inserted, oldest first; a page is a contiguous part of that listing; and the
  overlap test is true exactly when the listing for the same window is not empty.
\<close>

theorem manifest_list_exact:
  assumes "\<forall>m\<in>set ms. \<exists>t. json_line_of rj m t"
    and "st = fst (insert_all rj ms (\<lparr> ms_path = p, ms_entries = [] \<rparr>, []))"
  shows "\<exists>all. mset all = filter_mset (\<lambda>m. user_matches u (manifest_key m) \<and> in_window from to m) (mset ms) \<and>
      sorted (map am_min_ts_ns all) \<and>
      manifest_list st u from to limit offset = take (unat limit) (drop (unat offset) all) \<and>
      (any_overlapping st u a b \<longleftrightarrow>
        (\<exists>m\<in>set ms. user_matches u (manifest_key m) \<and> in_window (Some a) (Some b) m))"
proof (intro exI conjI)
  have index: "ms_entries st = bt.grouped manifest_key ms"
    using insert_all_entries [of ms rj p] assms by simp
  let ?out = "concat (map (\<lambda>(k, v). if user_matches u k then filter (in_window from to) v else [])
    (ms_entries st))"
  show "mset (sort_key am_min_ts_ns ?out) =
      filter_mset (\<lambda>m. user_matches u (manifest_key m) \<and> in_window from to m) (mset ms)"
    unfolding index list_out_filter using bt.grouped_mset [of manifest_key ms] by simp
  show "sorted (map am_min_ts_ns (sort_key am_min_ts_ns ?out))" by simp
  show "manifest_list st u from to limit offset =
      take (unat limit) (drop (unat offset) (sort_key am_min_ts_ns ?out))"
    by (simp add: manifest_list_def)
  have win: "in_window (Some a) (Some b) m \<longleftrightarrow> am_max_ts_ns m \<ge> a \<and> am_min_ts_ns m \<le> b" for m
    by (auto simp: in_window_def)
  show "any_overlapping st u a b \<longleftrightarrow>
      (\<exists>m\<in>set ms. user_matches u (manifest_key m) \<and> in_window (Some a) (Some b) m)"
  proof -
    have "any_overlapping st u a b \<longleftrightarrow>
        (\<exists>(k, v)\<in>set (bt.grouped manifest_key ms). \<exists>m\<in>set v. user_matches u k \<and> in_window (Some a) (Some b) m)"
      by (auto simp: any_overlapping_def index list_ex_iff win)
    also have "\<dots> \<longleftrightarrow> (\<exists>m\<in>set ms. user_matches u (manifest_key m) \<and> in_window (Some a) (Some b) m)"
      (is "?l \<longleftrightarrow> ?r")
    proof
      assume ?r
      then obtain m where m: "m \<in> set ms" "user_matches u (manifest_key m)" "in_window (Some a) (Some b) m"
        by blast
      let ?g = "filter (\<lambda>x. manifest_key x = manifest_key m) ms"
      have "(manifest_key m, ?g) \<in> set (bt.grouped manifest_key ms)"
        using m(1) by (auto simp: bt.in_grouped_iff filter_empty_conv)
      with m show ?l by (intro bexI [of _ "(manifest_key m, ?g)"]) auto
    next
      assume ?l
      then obtain k m where "m \<in> set ms" "manifest_key m = k" "user_matches u k" "in_window (Some a) (Some b) m"
        by (auto simp: bt.in_grouped_iff)
      then show ?r by blast
    qed
    finally show ?thesis .
  qed
qed

lemma fold_concat_entries: "fold (\<lambda>(k, v). fold f v) es s = fold f (concat (map snd es)) s"
  by (induction es arbitrary: s) auto

lemma summary_fold:
  "fold summary_step ms (c, b, o') =
     (c + length ms, if ms = [] then b else min (b + sum_list (map am_compressed_bytes ms)) (nat u64_max),
      fold min (map am_min_ts_ns ms) o')"
  if "b \<le> nat u64_max"
  using that
proof (induction ms arbitrary: c b o')
  case (Cons m ms)
  have step: "summary_step m (c, b, o') =
      (c + 1, min (b + am_compressed_bytes m) (nat u64_max), min (am_min_ts_ns m) o')"
    by (simp add: summary_step_def min_def)
  show ?case
    using Cons.IH [of "min (b + am_compressed_bytes m) (nat u64_max)" "c + 1" "min (am_min_ts_ns m) o'"]
    by (auto simp: step min_def)
qed simp

lemma fold_min_eq_Min: "fold min xs (a :: 'a::linorder) = Min (insert a (set xs))"
  by (metis List.finite_set Min.set_eq_fold list.simps(15))

text \<open>
  The summary of an index built from any manifests counts every one, adds their sizes up to
  the largest 64-bit value, and gives the smallest start time, zero for an empty index.
\<close>

theorem manifest_summary_exact:
  assumes "\<forall>m\<in>set ms. \<exists>t. json_line_of rj m t" and "\<forall>m\<in>set ms. am_min_ts_ns m \<le> i64_max"
    and "st = fst (insert_all rj ms (\<lparr> ms_path = p, ms_entries = [] \<rparr>, []))"
  shows "manifest_summary st =
    (length ms, min (sum_list (map am_compressed_bytes ms)) (nat u64_max),
     if ms = [] then 0 else Min (am_min_ts_ns ` set ms))"
proof -
  let ?flat = "concat (map snd (bt.grouped manifest_key ms))"
  have index: "ms_entries st = bt.grouped manifest_key ms"
    using insert_all_entries [of ms rj p] assms by simp
  have perm: "mset ?flat = mset ms" by (rule bt.grouped_mset)
  then have same: "length ?flat = length ms" "set ?flat = set ms"
    "sum_list (map am_compressed_bytes ?flat) = sum_list (map am_compressed_bytes ms)"
    by (metis size_mset, metis set_mset_mset, metis mset_map sum_mset_sum_list)
  have oldest: "fold min (map am_min_ts_ns ?flat) i64_max = Min (am_min_ts_ns ` set ms)" if "ms \<noteq> []"
  proof -
    have "am_min_ts_ns ` set ms \<noteq> {}" using that by simp
    moreover from this have "Min (am_min_ts_ns ` set ms) \<le> i64_max"
      using Min_in [of "am_min_ts_ns ` set ms"] assms(2) by fastforce
    moreover have "set (map am_min_ts_ns ?flat) = am_min_ts_ns ` set ms"
      using same(2) by (simp only: set_map)
    ultimately show ?thesis
      by (simp only: fold_min_eq_Min) (simp add: Min_insert)
  qed
  show ?thesis
    using same oldest summary_fold [of 0 ?flat 0 i64_max]
    by (cases "ms = []") (auto simp: manifest_summary_def index fold_concat_entries)
qed

section \<open>Concrete codec\<close>

definition sample_manifest :: "str \<Rightarrow> str \<Rightarrow> i64 \<Rightarrow> archive_manifest" where
  "sample_manifest i u ts = \<lparr> am_archive_id = i, am_user_id = u, am_day = ''2024-01-02'',
     am_s3_key = i, am_event_count = 1, am_min_ts_ns = ts, am_max_ts_ns = ts + 5,
     am_compressed_bytes = 10, am_created_at = 0 \<rparr>"

definition manifest_a :: archive_manifest where "manifest_a = sample_manifest ''a'' ''u1'' 9"
definition manifest_b :: archive_manifest where "manifest_b = sample_manifest ''b'' ''u2'' 7"

definition sample_rj :: record_json where
  "sample_rj = \<lparr> rj_to_string = (\<lambda>r. Inr (''{'' @ mr_archive_id r @ ''}'')),
     rj_from_str = (\<lambda>s. if s = ''{a}'' then Some (record_from manifest_a)
       else if s = ''{b}'' then Some (record_from manifest_b) else None) \<rparr>"

lemma sample_lines: "json_line_of sample_rj manifest_a ''{a}''" "json_line_of sample_rj manifest_b ''{b}''"
  by (simp_all add: json_line_of_def sample_rj_def manifest_a_def manifest_b_def sample_manifest_def
      record_from_def newline_def) code_simp+

theorem manifest_log_recovers_witness:
  "\<exists>st file. insert_all sample_rj [manifest_b, manifest_a] (\<lparr> ms_path = [], ms_entries = [] \<rparr>, []) = (st, file) \<and>
      manifest_open sample_rj [] (Some (Inr file)) = Inr st \<and>
      (\<forall>k. entries_of (ms_entries st) k = filter (\<lambda>m. manifest_key m = k) [manifest_b, manifest_a]) \<and>
      manifest_insert sample_rj (AppendFailed 2 ''disk full'') manifest_a (st, file) =
        (Inl (Io ''disk full''), st, file @ take 2 ''{a}'') \<and>
      manifest_open sample_rj [] (Some (Inr (file @ take 2 ''{a}''))) = Inr st"
  by (rule manifest_log_recovers)
    (use sample_lines in \<open>auto simp: sample_rj_def\<close>)

theorem manifest_lost_after_partial_write_witness:
  "\<exists>st file st' file'. insert_all sample_rj [] (\<lparr> ms_path = [], ms_entries = [] \<rparr>, []) = (st, file) \<and>
      manifest_insert sample_rj Appended manifest_b
          (snd (manifest_insert sample_rj (AppendFailed 2 ''disk full'') manifest_a (st, file))) =
        (Inr (), st', file') \<and>
      entries_of (ms_entries st') (manifest_key manifest_b) =
        entries_of (ms_entries st) (manifest_key manifest_b) @ [manifest_b] \<and>
      manifest_open sample_rj [] (Some (Inr file')) = Inr st"
  by (rule manifest_lost_after_partial_write [OF _ sample_lines]) (simp_all add: sample_rj_def)

theorem manifest_list_exact_witness:
  "\<exists>all. mset all = filter_mset (\<lambda>m. user_matches None (manifest_key m) \<and> in_window (Some 0) None m)
        (mset [manifest_b, manifest_a]) \<and>
      sorted (map am_min_ts_ns all) \<and>
      manifest_list (fst (insert_all sample_rj [manifest_b, manifest_a] (\<lparr> ms_path = [], ms_entries = [] \<rparr>, [])))
        None (Some 0) None 10 0 = take (unat (10 :: u32)) (drop (unat (0 :: u32)) all) \<and>
      (any_overlapping (fst (insert_all sample_rj [manifest_b, manifest_a] (\<lparr> ms_path = [], ms_entries = [] \<rparr>, [])))
          None 0 8 \<longleftrightarrow>
        (\<exists>m\<in>set [manifest_b, manifest_a]. user_matches None (manifest_key m) \<and> in_window (Some 0) (Some 8) m))"
  by (rule manifest_list_exact [OF _ refl]) (use sample_lines in auto)

theorem manifest_summary_exact_witness:
  "manifest_summary (fst (insert_all sample_rj [manifest_b, manifest_a] (\<lparr> ms_path = [], ms_entries = [] \<rparr>, []))) =
    (2, 20, 7)"
proof -
  have "\<forall>m\<in>set [manifest_b, manifest_a]. \<exists>t. json_line_of sample_rj m t"
    using sample_lines by auto
  moreover have "\<forall>m\<in>set [manifest_b, manifest_a]. am_min_ts_ns m \<le> i64_max"
    by (simp add: manifest_a_def manifest_b_def sample_manifest_def i64_max_def)
  ultimately show ?thesis
    using manifest_summary_exact [of "[manifest_b, manifest_a]" sample_rj _ "[]"]
    by (simp add: manifest_a_def manifest_b_def sample_manifest_def u64_max_def)
qed

end
