(* ===== verification/Kdb_Store.thy ===== *)
theory Kdb_Store
  imports Stored_Event Manifests
begin

text \<open>
  The event store: \<open>crates/keplor-store/src/kdb_store.rs\<close> with the result types of
  \<open>types.rs\<close>. One storage engine per retention tier; the engine (\<open>keplordb\<close>) is a parameter,
  a record of its operations on a state type. The engine map is an association list whose order
  stands for the iteration order of the hash map. Operations return the updated store; metrics
  counters and log lines are left out. With \<open>panic = "abort"\<close> no lock is ever poisoned.
\<close>

section \<open>The storage engine\<close>

record engine_config =
  ec_data_dir :: str
  ec_wal_max_events :: u32
  ec_wal_sync_interval :: u32
  ec_wal_sync_bytes :: u64
  ec_schema_id :: u8
  ec_bloom_dim :: usize
  ec_rollup_dims :: "usize list"
  ec_mmap_cache_capacity :: usize
  ec_wal_shard_count :: usize
  ec_rollup_replay_days :: u32

record rollup_index_key =
  rk_day :: i64
  rk_dims :: "str list"

record rollup_value =
  rv_event_count :: u64
  rv_counters :: "u64 list"
  rv_metric :: i64

record 'g engine_ops =
  eng_open :: "engine_config \<Rightarrow> str + 'g"
  eng_append :: "'g \<Rightarrow> log_event \<Rightarrow> (str + unit) \<times> 'g"
  eng_append_durable :: "'g \<Rightarrow> log_event \<Rightarrow> (str + unit) \<times> 'g"
  eng_append_batch :: "'g \<Rightarrow> log_event list \<Rightarrow> (str + unit) \<times> 'g"
  eng_append_batch_durable :: "'g \<Rightarrow> log_event list \<Rightarrow> (str + unit) \<times> 'g"
  eng_get_event :: "'g \<Rightarrow> str \<Rightarrow> str + log_event option"
  eng_query_recent :: "'g \<Rightarrow> query_filter \<Rightarrow> usize \<Rightarrow> str + log_event list"
  eng_aggregate :: "'g \<Rightarrow> query_filter \<Rightarrow> str + i64 \<times> u64"
  eng_query_rollups :: "'g \<Rightarrow> i64 \<Rightarrow> i64 \<Rightarrow> str option list \<Rightarrow>
    str + (rollup_index_key \<times> rollup_value) list"
  eng_gc :: "'g \<Rightarrow> i64 \<Rightarrow> (str + u64 \<times> u64) \<times> 'g"
  eng_delete_event :: "'g \<Rightarrow> str \<Rightarrow> (str + unit) \<times> 'g"
  eng_delete_events :: "'g \<Rightarrow> str list \<Rightarrow> (str + unit) \<times> 'g"
  eng_flush :: "'g \<Rightarrow> (str + unit) \<times> 'g"
  eng_segment_count :: "'g \<Rightarrow> usize"
  eng_wal_count :: "'g \<Rightarrow> u32"
  eng_total_events :: "'g \<Rightarrow> u64"
  eng_total_bytes :: "'g \<Rightarrow> u64"

definition kdb_err :: "str \<Rightarrow> store_error" where
  "kdb_err e = StoreOther e"

fun mapping_error_fmt :: "mapping_error \<Rightarrow> str" where
  "mapping_error_fmt (InvalidEventId s) = ''invalid event id: '' @ s"
| "mapping_error_fmt (InvalidTraceIdLabel s) = ''invalid trace id: '' @ s"
| "mapping_error_fmt (InvalidIp s) = ''invalid client ip: '' @ s"
| "mapping_error_fmt (InvalidErrorPayload s) = ''invalid error payload: '' @ s"
| "mapping_error_fmt (InvalidMetadata s) = ''invalid metadata: '' @ s"
| "mapping_error_fmt (InvalidMethod s) = ''invalid http method: '' @ s"

definition map_err :: "mapping_error \<Rightarrow> store_error" where
  "map_err e = StoreOther (mapping_error_fmt e)"

section \<open>Configuration and state\<close>

record kdb_config =
  kc_data_dir :: str
  kc_wal_max_events :: u32
  kc_wal_sync_interval :: u32
  kc_wal_sync_bytes :: u64
  kc_wal_shard_count :: usize
  kc_mmap_cache_capacity :: usize
  kc_rollup_replay_days :: u32
  kc_eager_tiers :: "str list"
  kc_size_check_interval_ms :: u64

definition kdb_config_new :: "str \<Rightarrow> kdb_config" where
  "kdb_config_new data_dir = \<lparr> kc_data_dir = data_dir, kc_wal_max_events = 500000,
     kc_wal_sync_interval = 64, kc_wal_sync_bytes = 256 * 1024, kc_wal_shard_count = 4,
     kc_mmap_cache_capacity = 256, kc_rollup_replay_days = 7,
     kc_eager_tiers = [''free'', ''pro'', ''team''], kc_size_check_interval_ms = 1000 \<rparr>"

record tier_engine_stats =
  ts_tier :: str
  ts_segment_count :: usize
  ts_wal_events :: u32
  ts_total_events :: u64
  ts_total_bytes :: u64

record 'g kdb_store =
  ks_engines :: "(str \<times> 'g) list"
  ks_config :: kdb_config
  ks_manifests :: manifest_store
  ks_manifest_file :: str
  ks_cached_db_size :: u64
  ks_cached_db_size_at_ns :: i64

definition open_engine :: "'g engine_ops \<Rightarrow> kdb_config \<Rightarrow> str \<Rightarrow> store_error + 'g" where
  "open_engine ops config tier =
     (let ec = \<lparr> ec_data_dir = kc_data_dir config @ ''/tier='' @ tier,
        ec_wal_max_events = kc_wal_max_events config,
        ec_wal_sync_interval = kc_wal_sync_interval config,
        ec_wal_sync_bytes = kc_wal_sync_bytes config,
        ec_schema_id = SCHEMA_ID,
        ec_bloom_dim = DIM_USER_ID,
        ec_rollup_dims = [DIM_USER_ID, DIM_API_KEY_ID, DIM_MODEL, DIM_PROVIDER],
        ec_mmap_cache_capacity = kc_mmap_cache_capacity config,
        ec_wal_shard_count = kc_wal_shard_count config,
        ec_rollup_replay_days = kc_rollup_replay_days config \<rparr>
      in case eng_open ops ec of Inl e \<Rightarrow> Inl (kdb_err e) | Inr g \<Rightarrow> Inr g)"

fun open_eager :: "'g engine_ops \<Rightarrow> kdb_config \<Rightarrow> str list \<Rightarrow> (str \<times> 'g) list \<Rightarrow>
    store_error + (str \<times> 'g) list" where
  "open_eager ops config [] engines = Inr engines"
| "open_eager ops config (tier # tiers) engines =
     (case open_engine ops config tier of Inl e \<Rightarrow> Inl e
      | Inr g \<Rightarrow> open_eager ops config tiers (map_put tier g engines))"

text \<open>The entries of the data directory: their names and whether each is a directory.\<close>

fun open_found :: "'g engine_ops \<Rightarrow> kdb_config \<Rightarrow> (str \<times> bool) list \<Rightarrow> (str \<times> 'g) list \<Rightarrow>
    store_error + (str \<times> 'g) list" where
  "open_found ops config [] engines = Inr engines"
| "open_found ops config ((name, is_dir) # rest) engines =
     (case strip_prefix name ''tier='' of None \<Rightarrow> open_found ops config rest engines
      | Some tier \<Rightarrow>
          if map_of engines tier \<noteq> None then open_found ops config rest engines
          else if is_dir then
            (case open_engine ops config tier of Inl e \<Rightarrow> Inl e
             | Inr g \<Rightarrow> open_found ops config rest (map_put tier g engines))
          else open_found ops config rest engines)"

text \<open>
  Opening a store, given how creating the directory ended, what reading it gave (nothing when it
  fails) and the manifest file.
\<close>

definition kdb_open :: "'g engine_ops \<Rightarrow> record_json \<Rightarrow> (str + unit) \<Rightarrow> (str \<times> bool) list option \<Rightarrow>
    (str + str) option \<Rightarrow> kdb_config \<Rightarrow> store_error + 'g kdb_store" where
  "kdb_open ops rj created dir manifest_file config =
     (case created of Inl e \<Rightarrow> Inl (Io e) | Inr _ \<Rightarrow>
      res_bind (open_eager ops config (kc_eager_tiers config) []) (\<lambda>engines.
      res_bind (case dir of None \<Rightarrow> Inr engines | Some rd \<Rightarrow> open_found ops config rd engines)
        (\<lambda>engines.
      res_bind (manifest_open rj (kc_data_dir config @ ''/archive_manifests.jsonl'') manifest_file)
        (\<lambda>manifests.
      Inr \<lparr> ks_engines = engines, ks_config = config, ks_manifests = manifests,
        ks_manifest_file = (case manifest_file of Some (Inr bytes) \<Rightarrow> bytes | _ \<Rightarrow> []),
        ks_cached_db_size = 0, ks_cached_db_size_at_ns = 0 \<rparr>))))"

definition engine_for :: "'g engine_ops \<Rightarrow> 'g kdb_store \<Rightarrow> str \<Rightarrow> (store_error + 'g) \<times> 'g kdb_store" where
  "engine_for ops st tier =
     (case map_of (ks_engines st) tier of
        Some eng \<Rightarrow> (Inr eng, st)
      | None \<Rightarrow>
          (case open_engine ops (ks_config st) tier of
             Inl e \<Rightarrow> (Inl e, st)
           | Inr eng \<Rightarrow> (Inr eng, st \<lparr> ks_engines := map_put tier eng (ks_engines st) \<rparr>)))"

definition all_engines :: "'g kdb_store \<Rightarrow> 'g list" where
  "all_engines st = map snd (ks_engines st)"

definition engine_stats :: "'g engine_ops \<Rightarrow> 'g kdb_store \<Rightarrow> tier_engine_stats list" where
  "engine_stats ops st = map (\<lambda>(tier, eng). \<lparr> ts_tier = tier,
     ts_segment_count = eng_segment_count ops eng, ts_wal_events = eng_wal_count ops eng,
     ts_total_events = eng_total_events ops eng, ts_total_bytes = eng_total_bytes ops eng \<rparr>)
     (ks_engines st)"

section \<open>Ingest\<close>

text \<open>The engine of a tier runs an operation and keeps its new state.\<close>

definition on_tier :: "'g engine_ops \<Rightarrow> ('g \<Rightarrow> (str + 'r) \<times> 'g) \<Rightarrow> 'g kdb_store \<Rightarrow> str \<Rightarrow>
    (store_error + 'r) \<times> 'g kdb_store" where
  "on_tier ops act st tier =
     (case engine_for ops st tier of
        (Inl e, st) \<Rightarrow> (Inl e, st)
      | (Inr eng, st) \<Rightarrow>
          (case act eng of (res, eng) \<Rightarrow>
             ((case res of Inl e \<Rightarrow> Inl (kdb_err e) | Inr r \<Rightarrow> Inr r),
              st \<lparr> ks_engines := map_put tier eng (ks_engines st) \<rparr>)))"

definition append_event :: "'g engine_ops \<Rightarrow> externals \<Rightarrow> 'g kdb_store \<Rightarrow> llm_event \<Rightarrow>
    (store_error + event_id) \<times> 'g kdb_store" where
  "append_event ops ext st event =
     (case on_tier ops (\<lambda>eng. eng_append ops eng (to_log_event ext event)) st (ev_tier event) of
        (Inl e, st) \<Rightarrow> (Inl e, st) | (Inr _, st) \<Rightarrow> (Inr (ev_id event), st))"

definition append_event_durable :: "'g engine_ops \<Rightarrow> externals \<Rightarrow> 'g kdb_store \<Rightarrow> llm_event \<Rightarrow>
    (store_error + event_id) \<times> 'g kdb_store" where
  "append_event_durable ops ext st event =
     (case on_tier ops (\<lambda>eng. eng_append_durable ops eng (to_log_event ext event)) st (ev_tier event) of
        (Inl e, st) \<Rightarrow> (Inl e, st) | (Inr _, st) \<Rightarrow> (Inr (ev_id event), st))"

text \<open>The rows of a batch per tier, and the loop over the tiers.\<close>

definition rows_by_tier :: "externals \<Rightarrow> llm_event list \<Rightarrow> (str \<times> log_event list) list" where
  "rows_by_tier ext events =
     fold (\<lambda>ev by_tier. hash_push (ev_tier ev) (to_log_event ext ev) by_tier) events []"

fun append_tiers :: "'g engine_ops \<Rightarrow> ('g \<Rightarrow> log_event list \<Rightarrow> (str + unit) \<times> 'g) \<Rightarrow>
    (str \<times> log_event list) list \<Rightarrow> 'g kdb_store \<Rightarrow> (store_error + unit) \<times> 'g kdb_store" where
  "append_tiers ops act [] st = (Inr (), st)"
| "append_tiers ops act ((tier, logs) # rest) st =
     (case on_tier ops (\<lambda>eng. act eng logs) st tier of
        (Inl e, st) \<Rightarrow> (Inl e, st)
      | (Inr _, st) \<Rightarrow> append_tiers ops act rest st)"

text \<open>\<open>ord\<close> is the iteration order of the hash map of tiers.\<close>

definition append_batch :: "'g engine_ops \<Rightarrow> externals \<Rightarrow>
    ((str \<times> log_event list) list \<Rightarrow> (str \<times> log_event list) list) \<Rightarrow> 'g kdb_store \<Rightarrow>
    llm_event list \<Rightarrow> (store_error + event_id list) \<times> 'g kdb_store" where
  "append_batch ops ext ord st events =
     (if events = [] then (Inr [], st)
      else case append_tiers ops (eng_append_batch ops) (ord (rows_by_tier ext events)) st of
        (Inl e, st) \<Rightarrow> (Inl e, st) | (Inr _, st) \<Rightarrow> (Inr (map ev_id events), st))"

definition append_batch_durable :: "'g engine_ops \<Rightarrow> externals \<Rightarrow>
    ((str \<times> log_event list) list \<Rightarrow> (str \<times> log_event list) list) \<Rightarrow> 'g kdb_store \<Rightarrow>
    llm_event list \<Rightarrow> (store_error + event_id list) \<times> 'g kdb_store" where
  "append_batch_durable ops ext ord st events =
     (if events = [] then (Inr [], st)
      else case append_tiers ops (eng_append_batch_durable ops) (ord (rows_by_tier ext events)) st of
        (Inl e, st) \<Rightarrow> (Inl e, st) | (Inr _, st) \<Rightarrow> (Inr (map ev_id events), st))"

section \<open>Deletion, retention and checkpoints\<close>

text \<open>
  A loop over the engines that stops at the first error: the engines before it keep what the
  operation did to them.
\<close>

fun each_engine :: "('g \<Rightarrow> (str + 'r) \<times> 'g) \<Rightarrow> (str \<times> 'g) list \<Rightarrow>
    (store_error + 'r list) \<times> (str \<times> 'g) list" where
  "each_engine act [] = (Inr [], [])"
| "each_engine act ((tier, eng) # rest) =
     (case act eng of
        (Inl e, eng) \<Rightarrow> (Inl (kdb_err e), (tier, eng) # rest)
      | (Inr r, eng) \<Rightarrow>
          (case each_engine act rest of
             (Inl e, rest) \<Rightarrow> (Inl e, (tier, eng) # rest)
           | (Inr rs, rest) \<Rightarrow> (Inr (r # rs), (tier, eng) # rest)))"

definition over_engines :: "('g \<Rightarrow> (str + 'r) \<times> 'g) \<Rightarrow> 'g kdb_store \<Rightarrow>
    (store_error + 'r list) \<times> 'g kdb_store" where
  "over_engines act st =
     (case each_engine act (ks_engines st) of
        (res, engines) \<Rightarrow> (res, st \<lparr> ks_engines := engines \<rparr>))"

record gc_stats =
  events_deleted :: usize
  blobs_deleted :: usize

definition gc_expired :: "'g engine_ops \<Rightarrow> 'g kdb_store \<Rightarrow> i64 \<Rightarrow> (store_error + gc_stats) \<times> 'g kdb_store" where
  "gc_expired ops st older_than_ns =
     (case over_engines (\<lambda>eng. eng_gc ops eng older_than_ns) st of
        (Inl e, st) \<Rightarrow> (Inl e, st)
      | (Inr rs, st) \<Rightarrow>
          (Inr \<lparr> events_deleted = sum_list (map fst rs), blobs_deleted = 0 \<rparr>, st))"

definition gc_tier :: "'g engine_ops \<Rightarrow> 'g kdb_store \<Rightarrow> str \<Rightarrow> i64 \<Rightarrow> (store_error + gc_stats) \<times> 'g kdb_store" where
  "gc_tier ops st tier older_than_ns =
     (case on_tier ops (\<lambda>eng. eng_gc ops eng older_than_ns) st tier of
        (Inl e, st) \<Rightarrow> (Inl e, st)
      | (Inr s, st) \<Rightarrow> (Inr \<lparr> events_deleted = fst s, blobs_deleted = 0 \<rparr>, st))"

definition delete_if_present :: "'g engine_ops \<Rightarrow> str \<Rightarrow> 'g \<Rightarrow> (str + bool) \<times> 'g" where
  "delete_if_present ops id_str eng =
     (case eng_get_event ops eng id_str of
        Inl e \<Rightarrow> (Inl e, eng)
      | Inr None \<Rightarrow> (Inr False, eng)
      | Inr (Some _) \<Rightarrow>
          (case eng_delete_event ops eng id_str of
             (Inl e, eng) \<Rightarrow> (Inl e, eng) | (Inr _, eng) \<Rightarrow> (Inr True, eng)))"

definition delete_event :: "'g engine_ops \<Rightarrow> externals \<Rightarrow> 'g kdb_store \<Rightarrow> event_id \<Rightarrow>
    (store_error + bool) \<times> 'g kdb_store" where
  "delete_event ops ext st i =
     (case over_engines (delete_if_present ops (event_id_fmt (ulid_to_string ext) i)) st of
        (Inl e, st) \<Rightarrow> (Inl e, st) | (Inr rs, st) \<Rightarrow> (Inr (list_ex (\<lambda>b. b) rs), st))"

definition delete_events_by_ids :: "'g engine_ops \<Rightarrow> externals \<Rightarrow> 'g kdb_store \<Rightarrow> event_id list \<Rightarrow>
    (store_error + usize) \<times> 'g kdb_store" where
  "delete_events_by_ids ops ext st ids =
     (if ids = [] then (Inr 0, st)
      else
        (let id_strings = map (event_id_fmt (ulid_to_string ext)) ids in
         case over_engines (\<lambda>eng. eng_delete_events ops eng id_strings) st of
           (Inl e, st) \<Rightarrow> (Inl e, st) | (Inr _, st) \<Rightarrow> (Inr (length ids), st)))"

definition wal_checkpoint :: "'g engine_ops \<Rightarrow> 'g kdb_store \<Rightarrow> (store_error + unit) \<times> 'g kdb_store" where
  "wal_checkpoint ops st =
     (case over_engines (eng_flush ops) st of
        (Inl e, st) \<Rightarrow> (Inl e, st) | (Inr _, st) \<Rightarrow> (Inr (), st))"

definition rollup_day :: "'g kdb_store \<Rightarrow> i64 \<Rightarrow> store_error + unit" where
  "rollup_day st day_epoch = Inr ()"

definition rollup_days_for_range :: "'g kdb_store \<Rightarrow> i64 \<Rightarrow> i64 \<Rightarrow> store_error + unit" where
  "rollup_days_for_range st from_ns to_ns = Inr ()"

definition vacuum :: "'g kdb_store \<Rightarrow> store_error + unit" where
  "vacuum st = Inr ()"

definition health_probe :: "'g engine_ops \<Rightarrow> 'g kdb_store \<Rightarrow> store_error + unit" where
  "health_probe ops st = (let _ = map (eng_total_events ops) (all_engines st) in Inr ())"

section \<open>Manifests\<close>

definition insert_archive_manifest :: "record_json \<Rightarrow> append_outcome \<Rightarrow> 'g kdb_store \<Rightarrow>
    archive_manifest \<Rightarrow> (store_error + unit) \<times> 'g kdb_store" where
  "insert_archive_manifest rj io st m =
     (case manifest_insert rj io m (ks_manifests st, ks_manifest_file st) of
        (res, ms, bytes) \<Rightarrow> (res, st \<lparr> ks_manifests := ms, ks_manifest_file := bytes \<rparr>))"

definition has_archived_data :: "'g kdb_store \<Rightarrow> i64 option \<Rightarrow> i64 option \<Rightarrow> store_error + bool" where
  "has_archived_data st from_ts_ns to_ts_ns =
     (let from = (case from_ts_ns of None \<Rightarrow> i64_min | Some a \<Rightarrow> a);
          to = (case to_ts_ns of None \<Rightarrow> i64_max | Some b \<Rightarrow> b)
      in Inr (any_overlapping (ks_manifests st) None from to))"

definition list_archives :: "'g kdb_store \<Rightarrow> str option \<Rightarrow> i64 option \<Rightarrow> i64 option \<Rightarrow>
    store_error + archive_manifest list" where
  "list_archives st user_id from_ts_ns to_ts_ns =
     Inr (manifest_list (ks_manifests st) user_id from_ts_ns to_ts_ns (- 1) 0)"

definition archive_summary :: "'g kdb_store \<Rightarrow> store_error + usize \<times> usize \<times> i64" where
  "archive_summary st = Inr (manifest_summary (ks_manifests st))"

section \<open>Database size\<close>

definition compute_db_size :: "'g engine_ops \<Rightarrow> 'g kdb_store \<Rightarrow> u64" where
  "compute_db_size ops st =
     fold (\<lambda>eng total. nat (sat_u64 (int total + int (eng_total_bytes ops eng)))) (all_engines st) 0"

text \<open>
  \<open>now_ns\<close> is the clock and \<open>lock_free\<close> says whether the refresh lock could be taken. The
  second look at the cache, under the lock, sees the same values when nothing runs in between.
\<close>

definition db_size_bytes :: "'g engine_ops \<Rightarrow> i64 \<Rightarrow> bool \<Rightarrow> 'g kdb_store \<Rightarrow> (store_error + u64) \<times> 'g kdb_store" where
  "db_size_bytes ops now_ns lock_free st =
     (let interval_ms = kc_size_check_interval_ms (ks_config st) in
      if interval_ms = 0 then (Inr (compute_db_size ops st), st)
      else
        (let interval_ns = sat_i64 (wrap_i64 (int interval_ms) * 1000000);
             last_ns = ks_cached_db_size_at_ns st
         in if sat_i64 (now_ns - last_ns) < interval_ns \<and> last_ns \<noteq> 0
            then (Inr (ks_cached_db_size st), st)
            else if lock_free then
              (let total = compute_db_size ops st in
               (Inr total, st \<lparr> ks_cached_db_size := total, ks_cached_db_size_at_ns := now_ns \<rparr>))
            else (Inr (ks_cached_db_size st), st)))"

section \<open>Batches reach their tiers\<close>

text \<open>
  The rows a tier holds, for an abstraction function \<open>rows\<close> of the engine: those of its engine,
  or, before its first use, those its engine has when it is opened.
\<close>

definition stored_rows :: "'g engine_ops \<Rightarrow> ('g \<Rightarrow> log_event multiset) \<Rightarrow> 'g kdb_store \<Rightarrow> str \<Rightarrow>
    log_event multiset" where
  "stored_rows ops rows st tier =
     (case map_of (ks_engines st) tier of Some eng \<Rightarrow> rows eng
      | None \<Rightarrow> (case open_engine ops (ks_config st) tier of Inl _ \<Rightarrow> {#} | Inr eng \<Rightarrow> rows eng))"

text \<open>What an append promises: when it succeeds the rows are there.\<close>

definition append_law :: "('g \<Rightarrow> log_event multiset) \<Rightarrow> ('g \<Rightarrow> log_event list \<Rightarrow> (str + unit) \<times> 'g) \<Rightarrow> bool" where
  "append_law rows act \<longleftrightarrow>
     (\<forall>eng logs eng'. act eng logs = (Inr (), eng') \<longrightarrow> rows eng' = rows eng + mset logs)"

lemma engine_for_config: "ks_config (snd (engine_for ops st tier)) = ks_config st"
  by (simp add: engine_for_def split: option.split sum.split)

lemma on_tier_config: "ks_config (snd (on_tier ops act st tier)) = ks_config st"
  using engine_for_config [of ops st tier]
  by (auto simp: on_tier_def split: prod.splits sum.splits)

lemma on_tier_rows:
  assumes "on_tier ops (\<lambda>eng. act eng logs) st tier = (Inr r, st')" and "append_law rows act"
  shows "stored_rows ops rows st' t = stored_rows ops rows st t + (if t = tier then mset logs else {#})"
  using assms
  by (auto simp: on_tier_def engine_for_def stored_rows_def append_law_def map_of_map_put
      split: option.splits sum.splits prod.splits)

lemma append_tiers_rows:
  assumes "append_law rows act"
  shows "append_tiers ops act bs st = (Inr (), st') \<Longrightarrow>
    stored_rows ops rows st' t = stored_rows ops rows st t +
      (\<Sum>p\<leftarrow>bs. if fst p = t then mset (snd p) else {#})"
proof (induction bs arbitrary: st)
  case (Cons b rest)
  obtain tier logs where b: "b = (tier, logs)" by fastforce
  with Cons.prems obtain r st1 where "on_tier ops (\<lambda>eng. act eng logs) st tier = (Inr r, st1)"
    "append_tiers ops act rest st1 = (Inr (), st')"
    by (auto split: prod.splits sum.splits)
  with Cons.IH on_tier_rows [of ops act logs st tier r st1 rows t] assms b show ?case by simp
qed simp

text \<open>The rows of a batch are grouped by the tier column of each row.\<close>

definition row_tier :: "log_event \<Rightarrow> str" where
  "row_tier r = le_dims r ! DIM_TIER"

lemma row_tier_to_log_event [simp]: "row_tier (to_log_event ext e) = ev_tier e"
  by (simp add: row_tier_def to_log_event_def Let_def event_dims_nth)

lemma rows_by_tier_grouped: "rows_by_tier ext events = hm.grouped row_tier (map (to_log_event ext) events)"
  by (simp add: rows_by_tier_def hm.grouped_def fold_map comp_def)

lemma rows_by_tier_sum:
  "(\<Sum>p\<leftarrow>rows_by_tier ext events. if fst p = t then mset (snd p) else {#}) =
     mset (map (to_log_event ext) (filter (\<lambda>e. ev_tier e = t) events))"
proof -
  have "distinct (map fst (rows_by_tier ext events))"
    unfolding rows_by_tier_grouped by (rule hm.ok_distinct [OF hm.grouped_ok])
  then show ?thesis
    by (simp add: entries_of_sum) (simp add: rows_by_tier_grouped hm.grouped_entries filter_map comp_def)
qed

lemma sum_list_permute: "mset (xs :: 'a list) = mset ys \<Longrightarrow> (\<Sum>x\<leftarrow>xs. f x :: 'b multiset) = (\<Sum>x\<leftarrow>ys. f x)"
  by (metis mset_map sum_mset_sum_list)

lemma append_tiers_batch:
  assumes "append_law rows act" and "mset bs = mset (rows_by_tier ext events)"
    and "append_tiers ops act bs st = (Inr (), st')"
  shows "stored_rows ops rows st' t = stored_rows ops rows st t +
    mset (map (to_log_event ext) (filter (\<lambda>e. ev_tier e = t) events))"
proof -
  have "(\<Sum>p\<leftarrow>bs. if fst p = t then mset (snd p) else {#}) =
      mset (map (to_log_event ext) (filter (\<lambda>e. ev_tier e = t) events))"
    by (simp only: sum_list_permute [OF assms(2)] rows_by_tier_sum)
  then show ?thesis using append_tiers_rows [OF assms(1,3), of t] by simp
qed

text \<open>
  A durable batch that is reported written returns the ids of its events in their order, and
  whatever order the hash map of tiers is walked in, every tier then holds the rows it held
  before and the rows of exactly the batch events of that tier, each once.
\<close>

theorem append_batch_durable_routes:
  assumes "append_law rows (eng_append_batch_durable ops)" and "\<forall>m. mset (ord m) = mset m"
    and "append_batch_durable ops ext ord st events = (Inr ids, st')"
  shows "ids = map ev_id events \<and> (\<forall>t. stored_rows ops rows st' t = stored_rows ops rows st t +
    mset (map (to_log_event ext) (filter (\<lambda>e. ev_tier e = t) events)))"
proof (cases "events = []")
  case False
  with assms(3) have "append_tiers ops (eng_append_batch_durable ops) (ord (rows_by_tier ext events)) st = (Inr (), st')"
    and "ids = map ev_id events"
    by (auto simp: append_batch_durable_def split: prod.splits sum.splits)
  with append_tiers_batch [of rows "eng_append_batch_durable ops" "ord (rows_by_tier ext events)"] assms(1,2)
  show ?thesis by blast
qed (use assms(3) in \<open>simp add: append_batch_durable_def\<close>)

section \<open>Deletion\<close>

lemma each_engine_ok:
  "each_engine act es = (Inr rs, es') \<Longrightarrow>
     map fst es' = map fst es \<and> list_all2 (\<lambda>(p, r) p'. act (snd p) = (Inr r, snd p')) (zip es rs) es' \<and>
     length rs = length es"
proof (induction act es arbitrary: rs es' rule: each_engine.induct)
  case (2 act tier eng rest)
  then obtain r eng' rs1 rest' where "act eng = (Inr r, eng')" "each_engine act rest = (Inr rs1, rest')"
    "rs = r # rs1" "es' = (tier, eng') # rest'"
    by (auto split: prod.splits sum.splits)
  with 2 show ?case by simp
qed simp

text \<open>What the tombstones of an engine promise: the rows with these ids are gone, the others stay.\<close>

definition delete_law :: "('g \<Rightarrow> log_event multiset) \<Rightarrow> 'g engine_ops \<Rightarrow> bool" where
  "delete_law rows ops \<longleftrightarrow>
     (\<forall>eng ids eng'. eng_delete_events ops eng ids = (Inr (), eng') \<longrightarrow>
       rows eng' = filter_mset (\<lambda>r. le_id r \<notin> set ids) (rows eng))"

definition engine_rows :: "('g \<Rightarrow> log_event multiset) \<Rightarrow> 'g kdb_store \<Rightarrow> log_event multiset" where
  "engine_rows rows st = (\<Sum>eng\<leftarrow>all_engines st. rows eng)"

lemma each_engine_rows:
  assumes "\<And>eng eng' r. act eng = (Inr r, eng') \<Longrightarrow> rows eng' = filter_mset P (rows eng)"
  shows "each_engine act es = (Inr rs, es') \<Longrightarrow>
    (\<Sum>p\<leftarrow>es'. rows (snd p)) = filter_mset P (\<Sum>p\<leftarrow>es. rows (snd p))"
proof (induction es arbitrary: rs es')
  case (Cons p rest)
  then obtain r eng' rs1 rest' where "act (snd p) = (Inr r, eng')" "each_engine act rest = (Inr rs1, rest')"
    "rs = r # rs1" "es' = (fst p, eng') # rest'"
    by (cases p) (auto split: prod.splits sum.splits)
  with Cons.IH assms show ?case by simp
qed simp

text \<open>
  When a batch delete succeeds, the rows with the given ids are gone from every tier and all
  other rows are still there; the count it returns is the number of ids asked for, whether or not
  a row had them.
\<close>

theorem delete_events_by_ids_exact:
  assumes "delete_law rows ops" and "delete_events_by_ids ops ext st ids = (Inr n, st')"
  shows "n = length ids \<and> engine_rows rows st' =
    filter_mset (\<lambda>r. le_id r \<notin> event_id_fmt (ulid_to_string ext) ` set ids) (engine_rows rows st)"
proof (cases "ids = []")
  case False
  let ?act = "\<lambda>eng. eng_delete_events ops eng (map (event_id_fmt (ulid_to_string ext)) ids)"
  have act: "rows eng' = filter_mset (\<lambda>r. le_id r \<notin> event_id_fmt (ulid_to_string ext) ` set ids) (rows eng)"
    if "?act eng = (Inr r, eng')" for eng eng' r
    using assms(1) that by (simp add: delete_law_def)
  from False assms(2) obtain rs es' where "each_engine ?act (ks_engines st) = (Inr rs, es')"
    "n = length ids" "st' = st \<lparr> ks_engines := es' \<rparr>"
    by (auto simp: delete_events_by_ids_def over_engines_def split: prod.splits sum.splits)
  with each_engine_rows [of ?act rows _ "ks_engines st", OF act] show ?thesis
    by (simp add: engine_rows_def all_engines_def comp_def)
qed (use assms(2) in \<open>simp add: delete_events_by_ids_def\<close>)

section \<open>A concrete engine\<close>

text \<open>An engine that keeps its rows in a list, newest first in its answers.\<close>

definition row_matches :: "query_filter \<Rightarrow> log_event \<Rightarrow> bool" where
  "row_matches qf r \<longleftrightarrow>
     list_all (\<lambda>i. case qf_dims qf ! i of None \<Rightarrow> True | Some v \<Rightarrow> i < length (le_dims r) \<and> le_dims r ! i = v)
       [0..<length (qf_dims qf)] \<and>
     (case qf_from_ts_ns qf of None \<Rightarrow> True | Some a \<Rightarrow> a \<le> le_ts_ns r) \<and>
     (case qf_to_ts_ns qf of None \<Rightarrow> True | Some b \<Rightarrow> le_ts_ns r \<le> b) \<and>
     (case qf_status_min qf of None \<Rightarrow> True | Some a \<Rightarrow> a \<le> le_status r) \<and>
     (case qf_status_max qf of None \<Rightarrow> True | Some b \<Rightarrow> le_status r < b) \<and>
     (case qf_cursor qf of None \<Rightarrow> True | Some c \<Rightarrow> le_ts_ns r < c)"

definition newest_first :: "log_event list \<Rightarrow> log_event list" where
  "newest_first rs = sort_key (\<lambda>r. - le_ts_ns r) rs"

definition list_engine :: "log_event list engine_ops" where
  "list_engine = \<lparr>
     eng_open = (\<lambda>_. Inr []),
     eng_append = (\<lambda>g r. (Inr (), g @ [r])),
     eng_append_durable = (\<lambda>g r. (Inr (), g @ [r])),
     eng_append_batch = (\<lambda>g rs. (Inr (), g @ rs)),
     eng_append_batch_durable = (\<lambda>g rs. (Inr (), g @ rs)),
     eng_get_event = (\<lambda>g i. Inr (find (\<lambda>r. le_id r = i) g)),
     eng_query_recent = (\<lambda>g qf n. Inr (take n (newest_first (filter (row_matches qf) g)))),
     eng_aggregate = (\<lambda>g qf. let rs = filter (row_matches qf) g in
       Inr (sum_list (map le_metric rs), length rs)),
     eng_query_rollups = (\<lambda>g a b fs. Inr []),
     eng_gc = (\<lambda>g t. (Inr (length (filter (\<lambda>r. le_ts_ns r < t) g), 0), filter (\<lambda>r. \<not> le_ts_ns r < t) g)),
     eng_delete_event = (\<lambda>g i. (Inr (), filter (\<lambda>r. le_id r \<noteq> i) g)),
     eng_delete_events = (\<lambda>g is. (Inr (), filter (\<lambda>r. le_id r \<notin> set is) g)),
     eng_flush = (\<lambda>g. (Inr (), g)),
     eng_segment_count = (\<lambda>_. 1), eng_wal_count = (\<lambda>_. 0),
     eng_total_events = length, eng_total_bytes = length \<rparr>"

definition empty_store :: "'g kdb_store" where
  "empty_store = \<lparr> ks_engines = [], ks_config = kdb_config_new ''/data'',
     ks_manifests = \<lparr> ms_path = [], ms_entries = [] \<rparr>, ks_manifest_file = [],
     ks_cached_db_size = 0, ks_cached_db_size_at_ns = 0 \<rparr>"

definition two_tier_batch :: "llm_event list" where
  "two_tier_batch = [sample_event, sample_event \<lparr> ev_id := EventId 8, ev_tier := ''pro'' \<rparr>]"

lemma list_engine_laws: "append_law mset (eng_append_batch_durable list_engine)" "delete_law mset list_engine"
  by (simp_all add: append_law_def delete_law_def list_engine_def)



lemma two_tier_appended:
  "append_batch_durable list_engine sample_ext rev empty_store two_tier_batch =
     (Inr [EventId 7, EventId 8], empty_store \<lparr> ks_engines :=
       [(''pro'', [to_log_event sample_ext (two_tier_batch ! 1)]),
        (''free'', [to_log_event sample_ext (two_tier_batch ! 0)])] \<rparr>)"
proof -
  have tiers: "ev_tier (two_tier_batch ! 0) = ''free''" "ev_tier (two_tier_batch ! 1) = ''pro''"
    and ids: "map ev_id two_tier_batch = [EventId 7, EventId 8]" "two_tier_batch \<noteq> []"
    by (simp_all add: two_tier_batch_def sample_event_def)
  have batch: "two_tier_batch = [two_tier_batch ! 0, two_tier_batch ! 1]"
    by (simp add: two_tier_batch_def)
  have "rows_by_tier sample_ext two_tier_batch =
      [(''free'', [to_log_event sample_ext (two_tier_batch ! 0)]),
       (''pro'', [to_log_event sample_ext (two_tier_batch ! 1)])]"
    by (subst batch) (simp only: rows_by_tier_def fold.simps id_apply comp_apply tiers, simp add: hash_push_def entries_of_def)
  then show ?thesis
    using ids by (simp add: append_batch_durable_def on_tier_def engine_for_def open_engine_def
        list_engine_def empty_store_def)
qed

theorem append_batch_durable_routes_witness:
  "\<exists>ids st'. append_batch_durable list_engine sample_ext rev empty_store two_tier_batch = (Inr ids, st') \<and>
     ids = map ev_id two_tier_batch \<and>
     (\<forall>t. stored_rows list_engine mset st' t = stored_rows list_engine mset empty_store t +
       mset (map (to_log_event sample_ext) (filter (\<lambda>e. ev_tier e = t) two_tier_batch)))"
  using append_batch_durable_routes [of mset list_engine rev, OF list_engine_laws(1) _ two_tier_appended]
    two_tier_appended by auto

theorem delete_events_by_ids_exact_witness:
  "\<exists>n st'. delete_events_by_ids list_engine sample_ext
      (empty_store \<lparr> ks_engines := [(''free'', [to_log_event sample_ext sample_event])] \<rparr>) [EventId 7] = (Inr n, st') \<and>
     n = length [EventId 7] \<and> engine_rows mset st' =
       filter_mset (\<lambda>r. le_id r \<notin> event_id_fmt (ulid_to_string sample_ext) ` set [EventId 7])
         (engine_rows mset (empty_store \<lparr> ks_engines := [(''free'', [to_log_event sample_ext sample_event])] \<rparr>))"
proof -
  let ?st = "empty_store \<lparr> ks_engines := [(''free'', [to_log_event sample_ext sample_event])] \<rparr>"
  obtain n st' where "delete_events_by_ids list_engine sample_ext ?st [EventId 7] = (Inr n, st')"
    by (simp add: delete_events_by_ids_def over_engines_def list_engine_def Let_def)
  from this delete_events_by_ids_exact [OF list_engine_laws(2) this] show ?thesis by blast
qed

text \<open>
  A batch over two tiers is not atomic: with an engine that refuses the rows of one tier, the
  call reports an error and the rows of the other tier stay.
\<close>

definition flaky_engine :: "log_event list engine_ops" where
  "flaky_engine = list_engine \<lparr> eng_append_batch_durable :=
     (\<lambda>g rs. if list_ex (\<lambda>r. row_tier r = ''pro'') rs then (Inl ''disk full'', g) else (Inr (), g @ rs)) \<rparr>"

lemma batch_not_atomic:
  "\<exists>st'. append_batch_durable flaky_engine sample_ext id empty_store two_tier_batch =
      (Inl (StoreOther ''disk full''), st') \<and>
    stored_rows flaky_engine mset st' ''free'' = {#to_log_event sample_ext (two_tier_batch ! 0)#}"
proof -
  have batch: "rows_by_tier sample_ext two_tier_batch =
      [(''free'', [to_log_event sample_ext (two_tier_batch ! 0)]),
       (''pro'', [to_log_event sample_ext (two_tier_batch ! 1)])]"
    by (simp add: two_tier_batch_def rows_by_tier_def hash_push_def entries_of_def sample_event_def)
  have "row_tier (to_log_event sample_ext (two_tier_batch ! 1)) = ''pro''"
    "row_tier (to_log_event sample_ext (two_tier_batch ! 0)) = ''free''" "two_tier_batch \<noteq> []"
    by (simp_all add: two_tier_batch_def sample_event_def)
  then show ?thesis
    by (simp add: append_batch_durable_def batch on_tier_def engine_for_def open_engine_def kdb_err_def
        flaky_engine_def list_engine_def empty_store_def stored_rows_def)
qed

end
