(* ===== verification/Top_Merge.thy ===== *)
theory Top_Merge
  imports "HOL-Library.Multiset"
begin

text \<open>
  Merging sorted lists and keeping the first \<open>n\<close>: the first \<open>n\<close> of a stable sort of several
  sorted lists are found by looking at the first \<open>n\<close> of each only. The storage layer reads the
  newest rows of every engine this way.
\<close>

lemma sorted_pivot:
  "sorted (map f xs) \<Longrightarrow>
     xs = filter (\<lambda>y. f y < k) xs @ filter (\<lambda>y. f y = k) xs @ filter (\<lambda>y. f y > (k :: 'b::linorder)) xs"
proof (induction xs)
  case (Cons x xs)
  then have le: "\<forall>y\<in>set xs. f x \<le> f y" by simp
  consider "f x < k" | "f x = k" | "f x > k" by (rule linorder_cases)
  then show ?case
  proof cases
    case 2
    then have "filter (\<lambda>y. f y < k) xs = []" using le by (auto simp: filter_empty_conv)
    with 2 Cons show ?thesis by simp
  next
    case 3
    then have "filter (\<lambda>y. f y < k) xs = []" "filter (\<lambda>y. f y = k) xs = []"
      using le by (auto simp: filter_empty_conv)
    with 3 Cons show ?thesis by auto
  qed (use Cons in auto)
qed simp

lemma sort_key_pivot:
  "sort_key f xs = sort_key f (filter (\<lambda>y. f y < k) xs) @ filter (\<lambda>y. f y = k) xs @
     sort_key f (filter (\<lambda>y. f y > (k :: 'b::linorder)) xs)"
proof -
  have "filter (\<lambda>y. f y = k) (sort_key f xs) = filter (\<lambda>y. f y = k) xs"
    by (rule sort_key_stable)
  then show ?thesis
    using sorted_pivot [OF sorted_sort_key [of f xs], of k] by (simp add: filter_sort)
qed

lemma take_sort_key_drop_one:
  assumes "n \<le> length (filter (\<lambda>y. f y \<le> (f x :: 'b::linorder)) us)"
  shows "take n (sort_key f (us @ x # vs)) = take n (sort_key f (us @ vs))"
proof -
  let ?lt = "filter (\<lambda>y. f y < f x)" and ?eq = "filter (\<lambda>y. f y = f x)"
  have "length (filter (\<lambda>y. f y \<le> f x) us) = length (?lt us) + length (?eq us)"
    by (induction us) auto
  then have n: "n \<le> length (sort_key f (?lt (us @ vs)) @ ?eq us)"
    using assms by simp
  have "sort_key f (us @ x # vs) = (sort_key f (?lt (us @ vs)) @ ?eq us) @
      (x # ?eq vs @ sort_key f (filter (\<lambda>y. f y > f x) (us @ vs)))"
    using sort_key_pivot [of f "us @ x # vs" "f x"] by simp
  moreover have "sort_key f (us @ vs) = (sort_key f (?lt (us @ vs)) @ ?eq us) @
      (?eq vs @ sort_key f (filter (\<lambda>y. f y > f x) (us @ vs)))"
    using sort_key_pivot [of f "us @ vs" "f x"] by simp
  ultimately show ?thesis
    using n by (simp only: take_append) simp
qed

lemma take_sort_key_take_one:
  assumes "sorted (map f xs)"
  shows "take n (sort_key f (us @ take n xs @ vs)) = take n (sort_key f (us @ xs @ vs))"
  using assms
proof (induction xs rule: rev_induct)
  case (snoc x xs)
  have le: "\<forall>y\<in>set xs. f y \<le> f x" and s: "sorted (map f xs)"
    using snoc.prems by (auto simp: sorted_append)
  show ?case
  proof (cases "length xs < n")
    case False
    have "filter (\<lambda>y. f y \<le> f x) xs = xs"
      using le by (simp add: filter_id_conv)
    then have "take n (sort_key f ((us @ xs) @ x # vs)) = take n (sort_key f ((us @ xs) @ vs))"
      using False by (intro take_sort_key_drop_one) simp
    with snoc.IH [OF s] False show ?thesis by simp
  qed simp
qed simp

theorem take_sort_key_merge:
  assumes "\<And>xs. xs \<in> set xss \<Longrightarrow> sorted (map f xs)"
  shows "take n (sort_key f (concat (map (take n) xss))) = take n (sort_key f (concat xss))"
proof -
  have "take n (sort_key f (us @ concat (map (take n) xss))) = take n (sort_key f (us @ concat xss))" for us
    using assms
  proof (induction xss arbitrary: us)
    case (Cons xs xss)
    have "take n (sort_key f ((us @ take n xs) @ concat (map (take n) xss))) =
        take n (sort_key f ((us @ take n xs) @ concat xss))"
      by (rule Cons.IH) (simp add: Cons.prems)
    then show ?case
      using take_sort_key_take_one [of f xs n us "concat xss"] Cons.prems by simp
  qed simp
  from this [of "[]"] show ?thesis by simp
qed

end
