(* ===== verification/Kdb_Query.thy ===== *)
theory Kdb_Query
  imports Kdb_Store Top_Merge "HOL-Library.Sublist"
begin

text \<open>
  The reads of the event store: \<open>get_event\<close>, \<open>query\<close>, \<open>query_summary\<close>, \<open>quota_summary\<close>,
  \<open>export_events\<close> and \<open>query_events_for_archive\<close> of
  \<open>crates/keplor-store/src/kdb_store.rs\<close>. Decoding a row may fail and may panic.
\<close>

record event_summary =
  es_id :: event_id
  es_ts_ns :: i64
  es_user_id :: "str option"
  es_api_key_id :: "str option"
  es_provider :: str
  es_model :: str
  es_endpoint :: str
  es_http_status :: "u16 option"
  es_input_tokens :: u32
  es_output_tokens :: u32
  es_cache_read_input_tokens :: u32
  es_cache_creation_input_tokens :: u32
  es_reasoning_tokens :: u32
  es_cost_nanodollars :: i64
  es_ttft_ms :: "u32 option"
  es_total_ms :: u32
  es_streaming :: bool
  es_source :: "str option"
  es_error_type :: "str option"
  es_metadata_json :: "str option"
  es_client_ip :: "str option"
  es_user_agent :: "str option"

definition build_query_filter :: "event_filter \<Rightarrow> cursor option \<Rightarrow> query_filter" where
  "build_query_filter f c =
     (let qf = to_query_filter f in
      qf \<lparr> qf_cursor := map_option (\<lambda>c. case c of Cursor n \<Rightarrow> n) c \<rparr>)"

text \<open>Printing a JSON value never fails; the empty text stands for that impossible case.\<close>

definition llm_to_summary :: "externals \<Rightarrow> llm_event \<Rightarrow> event_summary" where
  "llm_to_summary ext ev = \<lparr>
     es_id = ev_id ev,
     es_ts_ns = ev_ts_ns ev,
     es_user_id = map_option user_str (ev_user_id ev),
     es_api_key_id = map_option api_key_str (ev_api_key_id ev),
     es_provider = id_key (ev_provider ev),
     es_model = ev_model ev,
     es_endpoint = ev_endpoint ev,
     es_http_status = ev_http_status ev,
     es_input_tokens = input_tokens (ev_usage ev),
     es_output_tokens = output_tokens (ev_usage ev),
     es_cache_read_input_tokens = cache_read_input_tokens (ev_usage ev),
     es_cache_creation_input_tokens = cache_creation_input_tokens (ev_usage ev),
     es_reasoning_tokens = reasoning_tokens (ev_usage ev),
     es_cost_nanodollars = ev_cost_nanodollars ev,
     es_ttft_ms = ttft_ms (ev_latency ev),
     es_total_ms = total_ms (ev_latency ev),
     es_streaming = has_flag (ev_flags ev) STREAMING,
     es_source = ev_source ev,
     es_error_type = map_option provider_error_type_key (ev_error ev),
     es_metadata_json = map_option (\<lambda>v. or_empty (json_to_string ext v)) (ev_metadata ev),
     es_client_ip = map_option (ip_to_string ext) (ev_client_ip ev),
     es_user_agent = ev_user_agent ev \<rparr>"

section \<open>Operations\<close>

fun get_event_in :: "'g engine_ops \<Rightarrow> externals \<Rightarrow> str \<Rightarrow> 'g list \<Rightarrow> (store_error + llm_event option) run" where
  "get_event_in ops ext id_str [] = Ret (Inr None)"
| "get_event_in ops ext id_str (eng # engs) =
     (case eng_get_event ops eng id_str of
        Inl e \<Rightarrow> Ret (Inl (kdb_err e))
      | Inr None \<Rightarrow> get_event_in ops ext id_str engs
      | Inr (Some er) \<Rightarrow>
          (case from_event_ref ext er of Panic \<Rightarrow> Panic
           | Ret (Inl e) \<Rightarrow> Ret (Inl (map_err e))
           | Ret (Inr ev) \<Rightarrow> Ret (Inr (Some ev))))"

definition get_event :: "'g engine_ops \<Rightarrow> externals \<Rightarrow> 'g kdb_store \<Rightarrow> event_id \<Rightarrow>
    (store_error + llm_event option) run" where
  "get_event ops ext st i = get_event_in ops ext (event_id_fmt (ulid_to_string ext) i) (all_engines st)"

fun decode_rows :: "externals \<Rightarrow> log_event list \<Rightarrow> (store_error + (i64 \<times> llm_event) list) run" where
  "decode_rows ext [] = Ret (Inr [])"
| "decode_rows ext (r # rs) =
     (case from_event_ref ext r of Panic \<Rightarrow> Panic
      | Ret (Inl e) \<Rightarrow> Ret (Inl (map_err e))
      | Ret (Inr ev) \<Rightarrow> try_bind (decode_rows ext rs) (\<lambda>out. Ret (Inr ((ev_ts_ns ev, ev) # out))))"

fun gather :: "'g engine_ops \<Rightarrow> externals \<Rightarrow> query_filter \<Rightarrow> usize \<Rightarrow> 'g list \<Rightarrow>
    (store_error + (i64 \<times> llm_event) list) run" where
  "gather ops ext qf limit [] = Ret (Inr [])"
| "gather ops ext qf limit (eng # engs) =
     (case eng_query_recent ops eng qf limit of
        Inl e \<Rightarrow> Ret (Inl (kdb_err e))
      | Inr rows \<Rightarrow>
          try_bind (decode_rows ext rows) (\<lambda>out.
          try_bind (gather ops ext qf limit engs) (\<lambda>out'. Ret (Inr (out @ out')))))"

text \<open>\<open>sort_by\<close> is stable; descending by timestamp is ascending by its negation.\<close>

definition kdb_query :: "'g engine_ops \<Rightarrow> externals \<Rightarrow> 'g kdb_store \<Rightarrow> event_filter \<Rightarrow> u32 \<Rightarrow>
    cursor option \<Rightarrow> (store_error + llm_event list) run" where
  "kdb_query ops ext st f limit c =
     (let qf = build_query_filter f c in
      try_bind (gather ops ext qf (unat limit) (all_engines st)) (\<lambda>out.
        (let out = sort_key (\<lambda>p. - fst p) out;
             out = take (unat limit) out
         in Ret (Inr (map snd out)))))"

definition query_summary :: "'g engine_ops \<Rightarrow> externals \<Rightarrow> 'g kdb_store \<Rightarrow> event_filter \<Rightarrow> u32 \<Rightarrow>
    cursor option \<Rightarrow> (store_error + event_summary list) run" where
  "query_summary ops ext st f limit c =
     try_bind (kdb_query ops ext st f limit c) (\<lambda>events. Ret (Inr (map (llm_to_summary ext) events)))"

record quota_summary =
  quota_cost_nanodollars :: i64
  quota_event_count :: i64

fun quota_loop :: "'g engine_ops \<Rightarrow> query_filter \<Rightarrow> 'g list \<Rightarrow> i64 \<Rightarrow> i64 \<Rightarrow> store_error + quota_summary" where
  "quota_loop ops qf [] cost n =
     Inr \<lparr> quota_cost_nanodollars = cost, quota_event_count = n \<rparr>"
| "quota_loop ops qf (eng # engs) cost n =
     (case eng_aggregate ops eng qf of
        Inl e \<Rightarrow> Inl (kdb_err e)
      | Inr (metric, event_count) \<Rightarrow>
          quota_loop ops qf engs (sat_i64 (cost + metric)) (sat_i64 (n + wrap_i64 (int event_count))))"

definition query_filter_default :: query_filter where
  "query_filter_default = \<lparr> qf_dims = replicate dim_count None, qf_from_ts_ns = None,
     qf_to_ts_ns = None, qf_status_min = None, qf_status_max = None, qf_cursor = None \<rparr>"

definition quota_filter :: "str option \<Rightarrow> str option \<Rightarrow> i64 \<Rightarrow> query_filter" where
  "quota_filter user_id api_key_id from_ts_ns =
     (let qf = query_filter_default \<lparr> qf_from_ts_ns := Some from_ts_ns \<rparr>;
          qf = (case user_id of None \<Rightarrow> qf
            | Some u \<Rightarrow> qf \<lparr> qf_dims := (qf_dims qf)[DIM_USER_ID := Some u] \<rparr>)
      in case api_key_id of None \<Rightarrow> qf
         | Some k \<Rightarrow> qf \<lparr> qf_dims := (qf_dims qf)[DIM_API_KEY_ID := Some k] \<rparr>)"

definition quota_summary_of :: "'g engine_ops \<Rightarrow> 'g kdb_store \<Rightarrow> str option \<Rightarrow> str option \<Rightarrow> i64 \<Rightarrow>
    store_error + quota_summary" where
  "quota_summary_of ops st user_id api_key_id from_ts_ns =
     quota_loop ops (quota_filter user_id api_key_id from_ts_ns) (all_engines st) 0 0"

text \<open>
  The export loop hands every summary to its callback, here the list of what was handed over so
  far; \<open>None\<close> is a loop that does not end.
\<close>

partial_function (option) export_loop :: "'g engine_ops \<Rightarrow> externals \<Rightarrow> 'g kdb_store \<Rightarrow> event_filter \<Rightarrow>
    cursor option \<Rightarrow> event_summary list \<Rightarrow> ((store_error + unit) run \<times> event_summary list) option" where
  "export_loop ops ext st f c sent =
     (case kdb_query ops ext st f 1000 c of
        Panic \<Rightarrow> Some (Panic, sent)
      | Ret (Inl e) \<Rightarrow> Some (Ret (Inl e), sent)
      | Ret (Inr rows) \<Rightarrow>
          if rows = [] then Some (Ret (Inr ()), sent)
          else export_loop ops ext st f (Some (Cursor (ev_ts_ns (last rows))))
            (sent @ map (llm_to_summary ext) rows))"

definition export_events :: "'g engine_ops \<Rightarrow> externals \<Rightarrow> 'g kdb_store \<Rightarrow> event_filter \<Rightarrow>
    ((store_error + unit) run \<times> event_summary list) option" where
  "export_events ops ext st f = export_loop ops ext st f None []"

text \<open>The user of an event for the order the archiver reads in.\<close>

definition archive_user :: "llm_event \<Rightarrow> str" where
  "archive_user ev = or_empty (map_option user_str (ev_user_id ev))"

definition query_events_for_archive :: "'g engine_ops \<Rightarrow> externals \<Rightarrow> 'g kdb_store \<Rightarrow> i64 \<Rightarrow>
    (store_error + llm_event list) run" where
  "query_events_for_archive ops ext st older_than_ns =
     (let qf = query_filter_default \<lparr> qf_to_ts_ns := Some older_than_ns \<rparr> in
      try_bind (gather ops ext qf (nat u64_max) (all_engines st)) (\<lambda>out.
        Ret (Inr (map snd (sort_key (\<lambda>p. (archive_user (snd p), fst p)) out)))))"

section \<open>Newest rows across tiers\<close>

text \<open>
  What an engine promises of \<open>query_recent\<close>: the first \<open>n\<close> of its rows that match the filter,
  newest first.
\<close>

definition recent_law :: "'g engine_ops \<Rightarrow> ('g \<Rightarrow> query_filter \<Rightarrow> log_event list) \<Rightarrow> bool" where
  "recent_law ops hits \<longleftrightarrow>
     (\<forall>eng qf n. eng_query_recent ops eng qf n = Inr (take n (hits eng qf)) \<and>
        sorted (map (\<lambda>r. - le_ts_ns r) (hits eng qf)))"

text \<open>All events of the store that match a filter, and whether the rows of a filter decode.\<close>

definition matching :: "(log_event \<Rightarrow> llm_event) \<Rightarrow> ('g \<Rightarrow> query_filter \<Rightarrow> log_event list) \<Rightarrow>
    'g kdb_store \<Rightarrow> query_filter \<Rightarrow> llm_event list" where
  "matching dec hits st qf = concat (map (\<lambda>eng. map dec (hits eng qf)) (all_engines st))"

definition rows_decode :: "externals \<Rightarrow> (log_event \<Rightarrow> llm_event) \<Rightarrow> ('g \<Rightarrow> query_filter \<Rightarrow> log_event list) \<Rightarrow>
    'g kdb_store \<Rightarrow> query_filter \<Rightarrow> bool" where
  "rows_decode ext dec hits st qf \<longleftrightarrow>
     list_all (\<lambda>eng. list_all (\<lambda>r. from_event_ref ext r = Ret (Inr (dec r))) (hits eng qf)) (all_engines st)"

lemma from_event_ref_ts: "from_event_ref ext r = Ret (Inr e) \<Longrightarrow> ev_ts_ns e = le_ts_ns r"
  by (auto simp: from_event_ref_def Let_def try_bind_def split: sum.splits run.splits)

lemma decode_rows_ok:
  "list_all (\<lambda>r. from_event_ref ext r = Ret (Inr (dec r))) rs \<Longrightarrow>
     decode_rows ext rs = Ret (Inr (map (\<lambda>r. (ev_ts_ns (dec r), dec r)) rs))"
  by (induction rs) simp_all

lemma gather_ok:
  assumes "recent_law ops hits"
  shows "list_all (\<lambda>eng. list_all (\<lambda>r. from_event_ref ext r = Ret (Inr (dec r))) (hits eng qf)) engs \<Longrightarrow>
    gather ops ext qf n engs =
      Ret (Inr (concat (map (take n) (map (\<lambda>eng. map (\<lambda>r. (ev_ts_ns (dec r), dec r)) (hits eng qf)) engs))))"
proof (induction engs)
  case (Cons eng engs)
  have "list_all (\<lambda>r. from_event_ref ext r = Ret (Inr (dec r))) (take n (hits eng qf))"
    using Cons.prems by (auto simp: list_all_iff dest: in_set_takeD)
  with Cons assms show ?case
    by (simp add: recent_law_def decode_rows_ok take_map)
qed simp

lemma insort_key_map: "insort_key f (g x) (map g ys) = map g (insort_key (\<lambda>x. f (g x)) x ys)"
  by (induction ys) auto

lemma sort_key_map: "sort_key f (map g xs) = map g (sort_key (\<lambda>x. f (g x)) xs)"
  by (induction xs) (simp_all add: insort_key_map)

lemma sort_pairs:
  "map snd (sort_key (\<lambda>p. f (fst p) (snd p)) (map (\<lambda>e. (g e, e)) es)) = sort_key (\<lambda>e. f (g e) e) es"
  by (simp add: sort_key_map comp_def)

lemma kdb_query_eq:
  assumes "recent_law ops hits" and "rows_decode ext dec hits st (build_query_filter f c)"
  shows "kdb_query ops ext st f limit c =
    Ret (Inr (take (unat limit) (sort_key (\<lambda>e. - ev_ts_ns e) (matching dec hits st (build_query_filter f c)))))"
proof -
  let ?qf = "build_query_filter f c" and ?n = "unat limit"
  let ?lists = "map (\<lambda>eng. map (\<lambda>r. (ev_ts_ns (dec r), dec r)) (hits eng ?qf)) (all_engines st)"
  have ts: "ev_ts_ns (dec r) = le_ts_ns r" if "eng \<in> set (all_engines st)" "r \<in> set (hits eng ?qf)" for eng r
    using assms(2) that by (auto simp: rows_decode_def list_all_iff intro: from_event_ref_ts)
  have "sorted (map (\<lambda>p. - fst p) xs)" if "xs \<in> set ?lists" for xs
  proof -
    obtain eng where eng: "eng \<in> set (all_engines st)" "xs = map (\<lambda>r. (ev_ts_ns (dec r), dec r)) (hits eng ?qf)"
      using \<open>xs \<in> set ?lists\<close> by auto
    then have "map (\<lambda>p. - fst p) xs = map (\<lambda>r. - le_ts_ns r) (hits eng ?qf)"
      using ts by simp
    then show ?thesis using assms(1) by (simp add: recent_law_def)
  qed
  then have "take ?n (sort_key (\<lambda>p. - fst p) (concat (map (take ?n) ?lists))) =
      take ?n (sort_key (\<lambda>p. - fst p) (concat ?lists))"
    by (rule take_sort_key_merge)
  moreover have "concat ?lists = map (\<lambda>e. (ev_ts_ns e, e)) (matching dec hits st ?qf)"
    by (simp add: matching_def map_concat comp_def)
  moreover have "map snd (take ?n (sort_key (\<lambda>p. - fst p) (map (\<lambda>e. (ev_ts_ns e, e)) (matching dec hits st ?qf)))) =
      take ?n (sort_key (\<lambda>e. - ev_ts_ns e) (matching dec hits st ?qf))"
    using sort_pairs [of "\<lambda>a _. - a" ev_ts_ns "matching dec hits st ?qf"] by (simp flip: take_map)
  ultimately show ?thesis
    using gather_ok [OF assms(1) assms(2) [unfolded rows_decode_def], of ?n]
    by (simp add: kdb_query_def Let_def)
qed

text \<open>
  C13: a query over all tiers returns exactly the \<open>limit\<close> newest of all matching events of the
  store, newest first, although each engine is asked for its own \<open>limit\<close> newest rows only.
\<close>

theorem query_newest_across_tiers:
  assumes "recent_law ops hits" and "rows_decode ext dec hits st (build_query_filter f c)"
  shows "\<exists>events. kdb_query ops ext st f limit c = Ret (Inr (take (unat limit) events)) \<and>
    mset events = mset (matching dec hits st (build_query_filter f c)) \<and>
    sorted (map (\<lambda>e. - ev_ts_ns e) events) \<and>
    query_summary ops ext st f limit c = Ret (Inr (map (llm_to_summary ext) (take (unat limit) events)))"
  using kdb_query_eq [OF assms, of limit]
  by (intro exI [of _ "sort_key (\<lambda>e. - ev_ts_ns e) (matching dec hits st (build_query_filter f c))"])
    (simp add: query_summary_def)

section \<open>Export\<close>

text \<open>
  What an engine promises of a cursor: the rows strictly older than it, of those without one.
\<close>

definition cursor_law :: "('g \<Rightarrow> query_filter \<Rightarrow> log_event list) \<Rightarrow> bool" where
  "cursor_law hits \<longleftrightarrow>
     (\<forall>eng qf c. hits eng (qf \<lparr> qf_cursor := Some c \<rparr>) =
        filter (\<lambda>r. le_ts_ns r < c) (hits eng (qf \<lparr> qf_cursor := None \<rparr>)))"

text \<open>Reading a list newest first in pages of \<open>n\<close>, each page older than the end of the last.\<close>

lemma last_take_in_set: "xs \<noteq> [] \<Longrightarrow> 0 < n \<Longrightarrow> last (take n xs) \<in> set xs"
proof -
  assume "xs \<noteq> []" "0 < n"
  then have "last (take n xs) \<in> set (take n xs)" by (intro last_in_set) simp
  then show ?thesis by (rule in_set_takeD)
qed

function paged :: "nat \<Rightarrow> llm_event list \<Rightarrow> llm_event list" where
  "paged n es =
     (if es = [] \<or> n = 0 then []
      else take n es @ paged n (filter (\<lambda>e. ev_ts_ns e < ev_ts_ns (last (take n es))) es))"
  by pat_completeness auto
termination
proof (relation "measure (\<lambda>(n, es). length es)")
  fix n :: nat and es :: "llm_event list"
  assume "\<not> (es = [] \<or> n = 0)"
  then have "last (take n es) \<in> set es"
    by (intro last_take_in_set) simp_all
  then show "((n, filter (\<lambda>e. ev_ts_ns e < ev_ts_ns (last (take n es))) es), n, es)
      \<in> measure (\<lambda>(n, es). length es)"
    by (auto intro: length_filter_less)
qed simp

declare paged.simps [simp del]

lemma paged_Nil [simp]: "paged n [] = []"
  by (simp add: paged.simps)

lemma rows_decode_cursor:
  assumes "cursor_law hits" and "rows_decode ext dec hits st (build_query_filter f None)"
  shows "rows_decode ext dec hits st (build_query_filter f (Some (Cursor c)))"
    and "matching dec hits st (build_query_filter f (Some (Cursor c))) =
      filter (\<lambda>e. ev_ts_ns e < c) (matching dec hits st (build_query_filter f None))"
proof -
  have h: "hits eng (build_query_filter f (Some (Cursor c))) =
      filter (\<lambda>r. le_ts_ns r < c) (hits eng (build_query_filter f None))" for eng
    using assms(1) by (simp add: cursor_law_def build_query_filter_def Let_def)
  show "rows_decode ext dec hits st (build_query_filter f (Some (Cursor c)))"
    using assms(2) by (auto simp: rows_decode_def list_all_iff h)
  have ts: "ev_ts_ns (dec r) = le_ts_ns r"
    if "eng \<in> set (all_engines st)" "r \<in> set (hits eng (build_query_filter f None))" for eng r
    using assms(2) that by (auto simp: rows_decode_def list_all_iff intro: from_event_ref_ts)
  show "matching dec hits st (build_query_filter f (Some (Cursor c))) =
      filter (\<lambda>e. ev_ts_ns e < c) (matching dec hits st (build_query_filter f None))"
    using ts by (auto simp: matching_def filter_concat h filter_map comp_def
        intro!: arg_cong [where f = concat] arg_cong [where f = "map dec"] filter_cong)
qed

text \<open>The events a cursor lets through, newest first.\<close>

definition older_than :: "cursor option \<Rightarrow> llm_event list \<Rightarrow> llm_event list" where
  "older_than c es = (case c of None \<Rightarrow> es | Some (Cursor t) \<Rightarrow> filter (\<lambda>e. ev_ts_ns e < t) es)"

lemma export_page:
  assumes "recent_law ops hits" and "cursor_law hits"
    and "rows_decode ext dec hits st (build_query_filter f None)"
  shows "kdb_query ops ext st f limit c = Ret (Inr (take (unat limit)
    (older_than c (sort_key (\<lambda>e. - ev_ts_ns e) (matching dec hits st (build_query_filter f None))))))"
proof (cases c)
  case None
  then show ?thesis using kdb_query_eq [OF assms(1,3)] by (simp add: older_than_def)
next
  case (Some cu)
  then obtain t where t: "c = Some (Cursor t)" by (cases cu) simp
  show ?thesis
    using kdb_query_eq [OF assms(1) rows_decode_cursor(1) [OF assms(2,3), of t]]
    by (simp add: t older_than_def rows_decode_cursor(2) [OF assms(2,3)] filter_sort)
qed

lemma last_take_older:
  assumes "older_than c L \<noteq> []" and "0 < n"
  shows "older_than (Some (Cursor (ev_ts_ns (last (take n (older_than c L)))))) L =
    filter (\<lambda>e. ev_ts_ns e < ev_ts_ns (last (take n (older_than c L)))) (older_than c L)"
proof -
  have "last (take n (older_than c L)) \<in> set (older_than c L)"
    using assms by (rule last_take_in_set)
  then show ?thesis
    by (auto simp: older_than_def split: option.splits cursor.splits intro!: filter_cong)
qed

lemma export_loop_eq:
  assumes "recent_law ops hits" and "cursor_law hits"
    and "rows_decode ext dec hits st (build_query_filter f None)"
  defines "L \<equiv> sort_key (\<lambda>e. - ev_ts_ns e) (matching dec hits st (build_query_filter f None))"
  shows "export_loop ops ext st f c sent =
    Some (Ret (Inr ()), sent @ map (llm_to_summary ext) (paged 1000 (older_than c L)))"
proof (induction "length (older_than c L)" arbitrary: c sent rule: less_induct)
  case less
  let ?es = "older_than c L"
  have page: "kdb_query ops ext st f 1000 c = Ret (Inr (take 1000 ?es))"
    using export_page [OF assms(1-3), of 1000 c] by (simp add: L_def)
  show ?case
  proof (cases "?es = []")
    case True
    then show ?thesis using page by (subst export_loop.simps) simp
  next
    case False
    let ?t = "ev_ts_ns (last (take 1000 ?es))"
    have "last (take 1000 ?es) \<in> set ?es"
      using False by (intro last_take_in_set) simp_all
    then have rest: "older_than (Some (Cursor ?t)) L = filter (\<lambda>e. ev_ts_ns e < ?t) ?es"
      and shorter: "length (older_than (Some (Cursor ?t)) L) < length ?es"
      using last_take_older [OF False, of 1000] by (auto intro: length_filter_less)
    have "export_loop ops ext st f c sent =
        export_loop ops ext st f (Some (Cursor ?t)) (sent @ map (llm_to_summary ext) (take 1000 ?es))"
      using False page by (subst export_loop.simps) simp
    also have "\<dots> = Some (Ret (Inr ()), sent @ map (llm_to_summary ext) (paged 1000 ?es))"
      using less [OF shorter] False rest by (simp add: paged.simps [of 1000 ?es])
    finally show ?thesis .
  qed
qed


lemma newest_first_split:
  assumes "sorted (map (\<lambda>e. - ev_ts_ns e) es)" and "es \<noteq> []" and "0 < n"
  shows "filter (\<lambda>e. ev_ts_ns e < ev_ts_ns (last (take n es))) es =
    filter (\<lambda>e. ev_ts_ns e < ev_ts_ns (last (take n es))) (drop n es)"
proof -
  let ?p = "take n es"
  have "\<forall>e\<in>set ?p. ev_ts_ns (last ?p) \<le> ev_ts_ns e"
  proof -
    have "sorted (map (\<lambda>e. - ev_ts_ns e) ?p)" using assms(1) by (simp add: sorted_wrt_take flip: take_map)
    moreover have "?p = butlast ?p @ [last ?p]" using assms(2,3) by simp
    ultimately have "sorted (map (\<lambda>e. - ev_ts_ns e) (butlast ?p @ [last ?p]))" by simp
    then have "\<forall>e\<in>set (butlast ?p @ [last ?p]). ev_ts_ns (last ?p) \<le> ev_ts_ns e"
      by (auto simp: sorted_append)
    then show ?thesis using \<open>?p = butlast ?p @ [last ?p]\<close> by simp
  qed
  then have "filter (\<lambda>e. ev_ts_ns e < ev_ts_ns (last ?p)) ?p = []"
    by (auto simp: filter_empty_conv not_less)
  moreover have "filter (\<lambda>e. ev_ts_ns e < ev_ts_ns (last ?p)) es =
      filter (\<lambda>e. ev_ts_ns e < ev_ts_ns (last ?p)) (?p @ drop n es)" by simp
  ultimately show ?thesis by (simp only: filter_append append_Nil)
qed

lemma sorted_filter_newest:
  "sorted (map (\<lambda>e. - ev_ts_ns e) es) \<Longrightarrow> sorted (map (\<lambda>e. - ev_ts_ns e) (filter P es))"
  by (induction es) auto

lemma subseq_paged: "sorted (map (\<lambda>e. - ev_ts_ns e) es) \<Longrightarrow> subseq (paged n es) es"
proof (induction n es rule: paged.induct)
  case (1 n es)
  show ?case
  proof (cases "es = [] \<or> n = 0")
    case False
    let ?rest = "filter (\<lambda>e. ev_ts_ns e < ev_ts_ns (last (take n es))) es"
    have "subseq (paged n ?rest) ?rest"
      using 1(1) [OF False] 1(2) by (simp add: sorted_filter_newest)
    also have "subseq ?rest (drop n es)"
      using newest_first_split [OF 1(2), of n] False by simp
    finally have "subseq (take n es @ paged n ?rest) (take n es @ drop n es)"
      by (rule list_emb_append_mono [OF subseq_order.refl])
    then show ?thesis using False by (simp add: paged.simps [of n es])
  qed (simp add: paged.simps)
qed

lemma newest_first_rest:
  assumes "sorted (map (\<lambda>e. - ev_ts_ns e) es)" and "distinct (map ev_ts_ns es)" and "es \<noteq> []" and "0 < n"
  shows "filter (\<lambda>e. ev_ts_ns e < ev_ts_ns (last (take n es))) es = drop n es"
proof -
  have "last (take n es) \<in> set (take n es)" using assms(3,4) by (intro last_in_set) simp
  moreover have "sorted (map (\<lambda>e. - ev_ts_ns e) (take n es @ drop n es))"
    "distinct (map ev_ts_ns (take n es @ drop n es))"
    using assms(1,2) by simp_all
  ultimately have "\<forall>e\<in>set (drop n es). ev_ts_ns e < ev_ts_ns (last (take n es))"
    by (fastforce simp: sorted_append simp del: append_take_drop_id)
  then show ?thesis
    using newest_first_split [OF assms(1,3,4)] by (simp add: filter_id_conv)
qed

lemma paged_distinct:
  assumes "0 < n"
  shows "sorted (map (\<lambda>e. - ev_ts_ns e) es) \<Longrightarrow> distinct (map ev_ts_ns es) \<Longrightarrow> paged n es = es"
proof (induction "length es" arbitrary: es rule: less_induct)
  case less
  show ?case
  proof (cases "es = []")
    case False
    have rest: "filter (\<lambda>e. ev_ts_ns e < ev_ts_ns (last (take n es))) es = drop n es"
      by (rule newest_first_rest [OF less.prems False assms])
    have "paged n (drop n es) = drop n es"
      using less.prems False assms by (intro less.hyps) (simp_all add: sorted_wrt_drop flip: drop_map)
    then show ?thesis
      using False assms rest by (simp add: paged.simps [of n es])
  qed simp
qed

text \<open>
  C20: the export always ends; what it hands over is a part of the matching events, newest
  first and each at most once, and it is all of them when no two have the same timestamp.
\<close>

theorem export_events_ends:
  assumes "recent_law ops hits" and "cursor_law hits"
    and "rows_decode ext dec hits st (build_query_filter f None)"
  shows "\<exists>all sent. export_events ops ext st f = Some (Ret (Inr ()), map (llm_to_summary ext) sent) \<and>
    mset all = mset (matching dec hits st (build_query_filter f None)) \<and>
    sorted (map (\<lambda>e. - ev_ts_ns e) all) \<and> subseq sent all \<and>
    (distinct (map ev_ts_ns all) \<longrightarrow> sent = all)"
proof (intro exI conjI)
  let ?L = "sort_key (\<lambda>e. - ev_ts_ns e) (matching dec hits st (build_query_filter f None))"
  show "export_events ops ext st f = Some (Ret (Inr ()), map (llm_to_summary ext) (paged 1000 ?L))"
    using export_loop_eq [OF assms, of None "[]"] by (simp add: export_events_def older_than_def)
  show "subseq (paged 1000 ?L) ?L" by (rule subseq_paged) simp
  show "distinct (map ev_ts_ns ?L) \<longrightarrow> paged 1000 ?L = ?L"
    using paged_distinct [of 1000 ?L] by simp
qed simp_all

text \<open>
  Rows that share the timestamp at the end of a page are skipped: of more than a page of events
  with one timestamp only the first page is exported.
\<close>

lemma export_skips_ties: "0 < n \<Longrightarrow> paged n (replicate (n + k) e) = replicate n e"
  by (simp add: paged.simps [of n "replicate (n + k) e"])

section \<open>Concrete store\<close>

definition list_hits :: "log_event list \<Rightarrow> query_filter \<Rightarrow> log_event list" where
  "list_hits g qf = newest_first (filter (row_matches qf) g)"

lemma list_engine_reads: "recent_law list_engine list_hits" "cursor_law list_hits"
proof -
  show "recent_law list_engine list_hits"
    by (simp add: recent_law_def list_engine_def list_hits_def newest_first_def)
  have "row_matches (qf \<lparr> qf_cursor := Some c \<rparr>) =
      (\<lambda>r. row_matches (qf \<lparr> qf_cursor := None \<rparr>) r \<and> le_ts_ns r < c)" for qf c
    by (auto simp: row_matches_def fun_eq_iff)
  then show "cursor_law list_hits"
    by (simp add: cursor_law_def list_hits_def newest_first_def filter_sort)
qed

definition sample_store :: "log_event list kdb_store" where
  "sample_store = empty_store \<lparr> ks_engines :=
     [(''free'', [to_log_event sample_ext sample_event]), (''pro'', [to_log_event sample_ext sample_event])] \<rparr>"

lemma sample_store_decodes:
  "rows_decode sample_ext (\<lambda>r. persisted sample_event) list_hits sample_store (build_query_filter f c)"
proof -
  have "r = to_log_event sample_ext sample_event"
    if "r \<in> set (list_hits [to_log_event sample_ext sample_event] (build_query_filter f c))" for r
    using that by (auto simp: list_hits_def newest_first_def split: if_splits)
  then show ?thesis
    using sample_row_decodes by (auto simp: rows_decode_def sample_store_def all_engines_def list_all_iff)
qed

theorem query_newest_across_tiers_witness:
  "\<exists>events. kdb_query list_engine sample_ext sample_store event_filter_default 1 None =
      Ret (Inr (take (unat (1 :: u32)) events)) \<and>
    mset events = mset (matching (\<lambda>r. persisted sample_event) list_hits sample_store
      (build_query_filter event_filter_default None)) \<and>
    sorted (map (\<lambda>e. - ev_ts_ns e) events) \<and>
    query_summary list_engine sample_ext sample_store event_filter_default 1 None =
      Ret (Inr (map (llm_to_summary sample_ext) (take (unat (1 :: u32)) events)))"
  by (rule query_newest_across_tiers [OF list_engine_reads(1) sample_store_decodes])

theorem export_events_ends_witness:
  "\<exists>all sent. export_events list_engine sample_ext sample_store event_filter_default =
      Some (Ret (Inr ()), map (llm_to_summary sample_ext) sent) \<and>
    mset all = mset (matching (\<lambda>r. persisted sample_event) list_hits sample_store
      (build_query_filter event_filter_default None)) \<and>
    sorted (map (\<lambda>e. - ev_ts_ns e) all) \<and> subseq sent all \<and>
    (distinct (map ev_ts_ns all) \<longrightarrow> sent = all)"
  by (rule export_events_ends [OF list_engine_reads sample_store_decodes])

end
