(* ===== verification/Kdb_Rollup.thy ===== *)
theory Kdb_Rollup
  imports Kdb_Query
begin

text \<open>
  Daily rollups and statistics: \<open>query_rollups\<close> and \<open>aggregate_stats\<close> of
  \<open>crates/keplor-store/src/kdb_store.rs\<close>. The counters are added with wrap-around, the cost
  with saturation. The merged rows come out of a hash map, whose iteration order is an argument
  (\<open>ord\<close>, a permutation), and are then sorted by a part of their key.
\<close>

record rollup_row =
  rr_day :: i64
  rr_user_id :: str
  rr_api_key_id :: str
  rr_provider :: str
  rr_model :: str
  rr_event_count :: i64
  rr_error_count :: i64
  rr_input_tokens :: i64
  rr_output_tokens :: i64
  rr_cache_read_input_tokens :: i64
  rr_cache_creation_input_tokens :: i64
  rr_cost_nanodollars :: i64

record aggregate_row =
  ar_provider :: str
  ar_model :: str
  ar_event_count :: i64
  ar_error_count :: i64
  ar_input_tokens :: i64
  ar_output_tokens :: i64
  ar_cache_read_input_tokens :: i64
  ar_cache_creation_input_tokens :: i64
  ar_cost_nanodollars :: i64

record rollup_key =
  key_day :: i64
  key_user :: str
  key_api_key :: str
  key_model :: str
  key_provider :: str

text \<open>\<open>RollupAcc\<close> and \<open>AggregateAcc\<close> have the same fields.\<close>

record rollup_acc =
  acc_event_count :: i64
  acc_error_count :: i64
  acc_input_tokens :: i64
  acc_output_tokens :: i64
  acc_cache_read :: i64
  acc_cache_creation :: i64
  acc_cost :: i64

definition rollup_acc_default :: rollup_acc where
  "rollup_acc_default = \<lparr> acc_event_count = 0, acc_error_count = 0, acc_input_tokens = 0,
     acc_output_tokens = 0, acc_cache_read = 0, acc_cache_creation = 0, acc_cost = 0 \<rparr>"

definition dim_or_default :: "str list \<Rightarrow> nat \<Rightarrow> str" where
  "dim_or_default dims i = (if i < length dims then dims ! i else [])"

definition rollup_key_of :: "rollup_index_key \<Rightarrow> rollup_key" where
  "rollup_key_of key = \<lparr> key_day = rk_day key, key_user = dim_or_default (rk_dims key) 0,
     key_api_key = dim_or_default (rk_dims key) 1, key_model = dim_or_default (rk_dims key) 2,
     key_provider = dim_or_default (rk_dims key) 3 \<rparr>"

definition add_wrapping :: "i64 \<Rightarrow> u64 \<Rightarrow> i64" where
  "add_wrapping a n = wrap_i64 (a + wrap_i64 (int n))"

definition add_rollup :: "rollup_value \<Rightarrow> rollup_acc \<Rightarrow> rollup_acc" where
  "add_rollup val acc = \<lparr>
     acc_event_count = add_wrapping (acc_event_count acc) (rv_event_count val),
     acc_error_count = add_wrapping (acc_error_count acc) (rv_counters val ! COUNTER_IS_ERROR),
     acc_input_tokens = add_wrapping (acc_input_tokens acc) (rv_counters val ! COUNTER_INPUT_TOKENS),
     acc_output_tokens = add_wrapping (acc_output_tokens acc) (rv_counters val ! COUNTER_OUTPUT_TOKENS),
     acc_cache_read = add_wrapping (acc_cache_read acc) (rv_counters val ! COUNTER_CACHE_READ),
     acc_cache_creation = add_wrapping (acc_cache_creation acc) (rv_counters val ! COUNTER_CACHE_CREATION),
     acc_cost = sat_i64 (acc_cost acc + rv_metric val) \<rparr>"

fun engine_rollups :: "'g engine_ops \<Rightarrow> i64 \<Rightarrow> i64 \<Rightarrow> str option list \<Rightarrow> 'g list \<Rightarrow>
    store_error + (rollup_index_key \<times> rollup_value) list" where
  "engine_rollups ops from_day to_day fs [] = Inr []"
| "engine_rollups ops from_day to_day fs (eng # engs) =
     (case eng_query_rollups ops eng from_day to_day fs of
        Inl e \<Rightarrow> Inl (kdb_err e)
      | Inr rows \<Rightarrow> res_bind (engine_rollups ops from_day to_day fs engs) (\<lambda>rest. Inr (rows @ rest)))"

definition rollup_row_of :: "rollup_key \<times> rollup_acc \<Rightarrow> rollup_row" where
  "rollup_row_of = (\<lambda>(k, a). \<lparr> rr_day = key_day k, rr_user_id = key_user k,
     rr_api_key_id = key_api_key k, rr_provider = key_provider k, rr_model = key_model k,
     rr_event_count = acc_event_count a, rr_error_count = acc_error_count a,
     rr_input_tokens = acc_input_tokens a, rr_output_tokens = acc_output_tokens a,
     rr_cache_read_input_tokens = acc_cache_read a,
     rr_cache_creation_input_tokens = acc_cache_creation a, rr_cost_nanodollars = acc_cost a \<rparr>)"

definition query_rollups :: "'g engine_ops \<Rightarrow> ((rollup_key \<times> rollup_acc) list \<Rightarrow> (rollup_key \<times> rollup_acc) list) \<Rightarrow>
    'g kdb_store \<Rightarrow> str option \<Rightarrow> str option \<Rightarrow> i64 \<Rightarrow> i64 \<Rightarrow> u32 \<Rightarrow> u32 \<Rightarrow>
    store_error + rollup_row list" where
  "query_rollups ops ord st user_id api_key_id from_day to_day limit offset =
     res_bind (engine_rollups ops from_day to_day [user_id, api_key_id, None, None] (all_engines st))
       (\<lambda>entries.
          (let merged = accumulate add_rollup rollup_acc_default
                 (map (\<lambda>(key, val). (rollup_key_of key, val)) entries);
               rows = sort_key (\<lambda>p. (key_day (fst p), key_user (fst p))) (ord merged)
           in Inr (map rollup_row_of (take (unat limit) (drop (unat offset) rows)))))"

definition add_aggregate :: "rollup_row \<Rightarrow> rollup_acc \<Rightarrow> rollup_acc" where
  "add_aggregate r acc = \<lparr>
     acc_event_count = wrap_i64 (acc_event_count acc + rr_event_count r),
     acc_error_count = wrap_i64 (acc_error_count acc + rr_error_count r),
     acc_input_tokens = wrap_i64 (acc_input_tokens acc + rr_input_tokens r),
     acc_output_tokens = wrap_i64 (acc_output_tokens acc + rr_output_tokens r),
     acc_cache_read = wrap_i64 (acc_cache_read acc + rr_cache_read_input_tokens r),
     acc_cache_creation = wrap_i64 (acc_cache_creation acc + rr_cache_creation_input_tokens r),
     acc_cost = sat_i64 (acc_cost acc + rr_cost_nanodollars r) \<rparr>"

definition stats_key :: "bool \<Rightarrow> rollup_row \<Rightarrow> str \<times> str" where
  "stats_key group_by_model r = (if group_by_model then (rr_provider r, rr_model r) else ([], []))"

definition provider_passes :: "str option \<Rightarrow> rollup_row \<Rightarrow> bool" where
  "provider_passes provider_filter r =
     (case provider_filter of None \<Rightarrow> True | Some pf \<Rightarrow> rr_provider r = pf)"

definition aggregate_row_of :: "(str \<times> str) \<times> rollup_acc \<Rightarrow> aggregate_row" where
  "aggregate_row_of = (\<lambda>((p, m), a). \<lparr> ar_provider = p, ar_model = m,
     ar_event_count = acc_event_count a, ar_error_count = acc_error_count a,
     ar_input_tokens = acc_input_tokens a, ar_output_tokens = acc_output_tokens a,
     ar_cache_read_input_tokens = acc_cache_read a,
     ar_cache_creation_input_tokens = acc_cache_creation a, ar_cost_nanodollars = acc_cost a \<rparr>)"

text \<open>\<open>ord'\<close> is the iteration order of the second hash map.\<close>

definition aggregate_stats :: "'g engine_ops \<Rightarrow> ((rollup_key \<times> rollup_acc) list \<Rightarrow> (rollup_key \<times> rollup_acc) list) \<Rightarrow>
    (((str \<times> str) \<times> rollup_acc) list \<Rightarrow> ((str \<times> str) \<times> rollup_acc) list) \<Rightarrow>
    'g kdb_store \<Rightarrow> str option \<Rightarrow> str option \<Rightarrow> i64 \<Rightarrow> i64 \<Rightarrow> str option \<Rightarrow> bool \<Rightarrow> u32 \<Rightarrow> u32 \<Rightarrow>
    store_error + aggregate_row list" where
  "aggregate_stats ops ord ord' st user_id api_key_id from_day to_day provider_filter group_by_model limit offset =
     res_bind (query_rollups ops ord st user_id api_key_id from_day to_day (- 1) 0) (\<lambda>rollups.
       (let merged = accumulate add_aggregate rollup_acc_default
              (map (\<lambda>r. (stats_key group_by_model r, r)) (filter (provider_passes provider_filter) rollups));
            rows = sort_key (\<lambda>p. - acc_cost (snd p)) (ord' merged)
        in Inr (map aggregate_row_of (take (unat limit) (drop (unat offset) rows)))))"

section \<open>Sums\<close>

lemma wrap_i64_add [simp]:
  "wrap_i64 (wrap_i64 a + b) = wrap_i64 (a + b)" "wrap_i64 (a + wrap_i64 b) = wrap_i64 (a + b)"
proof -
  have "((a + 2 ^ 63) mod 2 ^ 64 - 2 ^ 63 + b + 2 ^ 63) mod 2 ^ 64 =
      ((a + 2 ^ 63) mod 2 ^ 64 + b) mod (2 ^ 64 :: int)" for a b :: int
    by (simp add: algebra_simps)
  then have left: "wrap_i64 (wrap_i64 a + b) = wrap_i64 (a + b)" for a b
    by (simp only: wrap_i64_def mod_add_left_eq) (simp add: algebra_simps)
  show "wrap_i64 (wrap_i64 a + b) = wrap_i64 (a + b)" by (rule left)
  show "wrap_i64 (a + wrap_i64 b) = wrap_i64 (a + b)" using left [of b a] by (simp add: add.commute)
qed

lemma wrap_i64_idem [simp]: "wrap_i64 (wrap_i64 a) = wrap_i64 a"
  by (rule wrap_i64_id [OF is_i64_wrap])

text \<open>A field that a fold updates by a wrapping addition holds the wrapped sum.\<close>

lemma fold_wrapping_field:
  assumes "\<And>v a. field (upd v a) = wrap_i64 (field a + f v)"
  shows "wrap_i64 (field (fold upd vs a)) = wrap_i64 (field a + sum_list (map f vs))"
proof (induction vs arbitrary: a)
  case (Cons v vs)
  have "wrap_i64 (field (fold upd vs (upd v a))) = wrap_i64 (wrap_i64 (field a + f v) + sum_list (map f vs))"
    using Cons.IH [of "upd v a"] assms by simp
  then show ?case by (simp add: add.assoc)
qed simp

section \<open>Rollup rows\<close>

definition row_key :: "rollup_row \<Rightarrow> rollup_key" where
  "row_key r = \<lparr> key_day = rr_day r, key_user = rr_user_id r, key_api_key = rr_api_key_id r,
     key_model = rr_model r, key_provider = rr_provider r \<rparr>"

lemma row_key_of [simp]: "row_key (rollup_row_of p) = fst p"
  by (cases p) (simp add: row_key_def rollup_row_of_def)

text \<open>The counters of a row and the counters of an engine's answer they add up.\<close>

definition rollup_columns :: "((rollup_row \<Rightarrow> i64) \<times> (rollup_value \<Rightarrow> u64)) list" where
  "rollup_columns =
     [(rr_event_count, rv_event_count), (rr_error_count, \<lambda>v. rv_counters v ! COUNTER_IS_ERROR),
      (rr_input_tokens, \<lambda>v. rv_counters v ! COUNTER_INPUT_TOKENS),
      (rr_output_tokens, \<lambda>v. rv_counters v ! COUNTER_OUTPUT_TOKENS),
      (rr_cache_read_input_tokens, \<lambda>v. rv_counters v ! COUNTER_CACHE_READ),
      (rr_cache_creation_input_tokens, \<lambda>v. rv_counters v ! COUNTER_CACHE_CREATION)]"

definition entries_for :: "(rollup_index_key \<times> rollup_value) list \<Rightarrow> rollup_key \<Rightarrow> rollup_value list" where
  "entries_for entries k = values_at (map (\<lambda>(key, val). (rollup_key_of key, val)) entries) k"

lemma fold_rollup_column:
  assumes "(field, f) \<in> set rollup_columns" and "vs \<noteq> []"
  shows "field (rollup_row_of (k, fold add_rollup vs rollup_acc_default)) =
    wrap_i64 (sum_list (map (\<lambda>v. int (f v)) vs))"
proof -
  let ?row = "\<lambda>a. rollup_row_of (k, a)"
  have upd: "field (?row (add_rollup v a)) = wrap_i64 (field (?row a) + int (f v))" for v a
    using assms(1) by (auto simp: rollup_columns_def rollup_row_of_def add_rollup_def add_wrapping_def)
  have "field (?row rollup_acc_default) = 0"
    using assms(1) by (auto simp: rollup_columns_def rollup_row_of_def rollup_acc_default_def)
  then have "wrap_i64 (field (?row (fold add_rollup vs rollup_acc_default))) =
      wrap_i64 (sum_list (map (\<lambda>v. int (f v)) vs))"
    using fold_wrapping_field [of "\<lambda>a. field (?row a)" add_rollup "\<lambda>v. int (f v)", OF upd] by simp
  moreover obtain us v where "vs = us @ [v]" using assms(2) by (cases vs rule: rev_cases) auto
  ultimately show ?thesis by (simp add: upd)
qed

lemma sort_key_rollup_rows:
  "sorted (map (\<lambda>r. (rr_day r, rr_user_id r))
     (map rollup_row_of (sort_key (\<lambda>p. (key_day (fst p), key_user (fst p))) ps)))"
proof -
  have "(rr_day (rollup_row_of p), rr_user_id (rollup_row_of p)) = (key_day (fst p), key_user (fst p))" for p
    by (cases p) (simp add: rollup_row_of_def)
  then show ?thesis by (simp add: comp_def)
qed


section \<open>Statistics\<close>

lemma sum_map_put:
  assumes "distinct (map fst m)"
  shows "(\<Sum>p\<leftarrow>map_put k a m. f (snd p) :: int) =
    (\<Sum>p\<leftarrow>m. f (snd p)) + f a - (case map_of m k of None \<Rightarrow> 0 | Some b \<Rightarrow> f b)"
  using assms by (induction k a m rule: map_put.induct) auto

lemma accumulate_total:
  assumes "\<And>v a. field (upd v a) = wrap_i64 (field a + f v)" and "field dflt = 0"
  shows "wrap_i64 (\<Sum>p\<leftarrow>accumulate upd dflt kvs. field (snd p)) = wrap_i64 (\<Sum>p\<leftarrow>kvs. f (snd p))"
proof (induction kvs rule: rev_induct)
  case (snoc p kvs)
  obtain k v where p: "p = (k, v)" by fastforce
  let ?m = "accumulate upd dflt kvs"
  let ?old = "case map_of ?m k of None \<Rightarrow> dflt | Some a \<Rightarrow> a"
  have "(\<Sum>p\<leftarrow>accumulate upd dflt (kvs @ [p]). field (snd p)) =
      (\<Sum>p\<leftarrow>?m. field (snd p)) + wrap_i64 (field ?old + f v) - field ?old"
    using sum_map_put [OF accumulate_distinct [of upd dflt kvs], where f = field and k = k and a = "upd v ?old"]
    by (simp add: p accumulate_snoc assms split: option.splits)
  also have "\<dots> = ((\<Sum>p\<leftarrow>?m. field (snd p)) - field ?old) + wrap_i64 (field ?old + f v)"
    by simp
  also have "wrap_i64 \<dots> = wrap_i64 ((\<Sum>p\<leftarrow>?m. field (snd p)) + f v)"
    by (simp only: wrap_i64_add) simp
  also have "\<dots> = wrap_i64 (wrap_i64 (\<Sum>p\<leftarrow>?m. field (snd p)) + f v)"
    by simp
  finally show ?case using snoc by (simp add: p)
qed (simp add: accumulate_def)

lemma sum_permute: "mset xs = mset ys \<Longrightarrow> (\<Sum>x\<leftarrow>xs. f x :: int) = (\<Sum>x\<leftarrow>ys. f x)"
  by (metis mset_map sum_mset_sum_list)

text \<open>
  C27: the statistics lose and invent nothing: for every order of the two hash maps and with or
  without grouping, the event counts of all rows together are the event counts the engines
  report, modulo the 64-bit wrap-around.
\<close>

theorem stats_conserve_events:
  assumes "\<forall>m. mset (ord m) = mset m" and "\<forall>m. mset (ord' m) = mset m"
    and "engine_rollups ops from_day to_day [u, k, None, None] (all_engines st) = Inr entries"
    and "length entries < 2 ^ 32"
  shows "\<exists>all. (\<forall>limit offset. aggregate_stats ops ord ord' st u k from_day to_day None by_model limit offset =
        Inr (take (unat limit) (drop (unat offset) all))) \<and>
      wrap_i64 (\<Sum>r\<leftarrow>all. ar_event_count r) = wrap_i64 (\<Sum>e\<leftarrow>entries. int (rv_event_count (snd e)))"
proof (intro exI conjI)
  let ?kvs = "map (\<lambda>(key, val). (rollup_key_of key, val)) entries"
  let ?m = "accumulate add_rollup rollup_acc_default ?kvs"
  let ?rows = "map rollup_row_of (sort_key (\<lambda>p. (key_day (fst p), key_user (fst p))) (ord ?m))"
  let ?kvs' = "map (\<lambda>r. (stats_key by_model r, r)) ?rows"
  let ?m' = "accumulate add_aggregate rollup_acc_default ?kvs'"
  let ?all = "map aggregate_row_of (sort_key (\<lambda>p. - acc_cost (snd p)) (ord' ?m'))"
  have "length ?m \<le> length ?kvs"
  proof -
    have "card (set (map fst ?m)) = card (set (map fst ?kvs))"
      by (simp only: set_map keys_accumulate)
    also have "\<dots> \<le> length ?kvs" using card_length [of "map fst ?kvs"] by simp
    finally show ?thesis using distinct_card [OF accumulate_distinct [of add_rollup rollup_acc_default ?kvs]] by simp
  qed
  then have "length ?rows < 2 ^ 32"
    using assms(1,4) by (metis (no_types, lifting) length_map length_sort le_less_trans size_mset)
  then have "query_rollups ops ord st u k from_day to_day (- 1) 0 = Inr ?rows"
    using assms(3) by (simp add: query_rollups_def Let_def take_map unsigned_minus_1_eq_mask mask_eq_exp_minus_1)
  then show "\<forall>limit offset. aggregate_stats ops ord ord' st u k from_day to_day None by_model limit offset =
      Inr (take (unat limit) (drop (unat offset) ?all))"
    by (simp add: aggregate_stats_def provider_passes_def Let_def take_map drop_map)
  have ev: "ar_event_count (aggregate_row_of p) = acc_event_count (snd p)" for p
    by (cases p) (auto simp: aggregate_row_of_def)
  have rv: "rr_event_count (rollup_row_of p) = acc_event_count (snd p)" for p
    by (cases p) (simp add: rollup_row_of_def)
  have "wrap_i64 (\<Sum>r\<leftarrow>?all. ar_event_count r) = wrap_i64 (\<Sum>p\<leftarrow>?m'. acc_event_count (snd p))"
    using sum_permute [of "sort_key (\<lambda>p. - acc_cost (snd p)) (ord' ?m')" ?m' "\<lambda>p. acc_event_count (snd p)"] assms(2)
    by (simp add: ev comp_def)
  also have "\<dots> = wrap_i64 (\<Sum>p\<leftarrow>?kvs'. rr_event_count (snd p))"
    by (rule accumulate_total) (simp_all add: add_aggregate_def rollup_acc_default_def)
  also have "\<dots> = wrap_i64 (\<Sum>p\<leftarrow>?m. acc_event_count (snd p))"
    using sum_permute [of "sort_key (\<lambda>p. (key_day (fst p), key_user (fst p))) (ord ?m)" ?m "\<lambda>p. acc_event_count (snd p)"] assms(1)
    by (simp add: comp_def rv)
  also have "\<dots> = wrap_i64 (\<Sum>p\<leftarrow>?kvs. int (rv_event_count (snd p)))"
    by (rule accumulate_total) (simp_all add: add_rollup_def add_wrapping_def rollup_acc_default_def)
  also have "(\<Sum>p\<leftarrow>?kvs. int (rv_event_count (snd p))) = (\<Sum>e\<leftarrow>entries. int (rv_event_count (snd e)))"
    by (simp add: comp_def case_prod_unfold)
  finally show "wrap_i64 (\<Sum>r\<leftarrow>?all. ar_event_count r) = wrap_i64 (\<Sum>e\<leftarrow>entries. int (rv_event_count (snd e)))" .
qed

section \<open>Concrete rows\<close>

definition sample_value :: "u64 \<Rightarrow> rollup_value" where
  "sample_value n = \<lparr> rv_event_count = n, rv_counters = replicate counter_count n, rv_metric = 5 \<rparr>"

definition sample_entries :: "(rollup_index_key \<times> rollup_value) list" where
  "sample_entries =
     [(\<lparr> rk_day = 0, rk_dims = [''u'', ''k'', ''m1'', ''openai''] \<rparr>, sample_value 3),
      (\<lparr> rk_day = 0, rk_dims = [''u'', ''k'', ''m2'', ''openai''] \<rparr>, sample_value 4)]"

definition rollup_engine :: "log_event list engine_ops" where
  "rollup_engine = list_engine \<lparr> eng_query_rollups := (\<lambda>_ _ _ _. Inr sample_entries) \<rparr>"

definition one_tier :: "log_event list kdb_store" where
  "one_tier = empty_store \<lparr> ks_engines := [(''free'', [])] \<rparr>"

lemma sample_engine_rollups:
  "engine_rollups rollup_engine a b fs (all_engines one_tier) = Inr sample_entries"
  by (simp add: rollup_engine_def one_tier_def all_engines_def)


theorem stats_conserve_events_witness:
  "\<exists>all. (\<forall>limit offset. aggregate_stats rollup_engine rev rev one_tier None None 0 1 None True limit offset =
        Inr (take (unat limit) (drop (unat offset) all))) \<and>
      wrap_i64 (\<Sum>r\<leftarrow>all. ar_event_count r) = wrap_i64 (\<Sum>e\<leftarrow>sample_entries. int (rv_event_count (snd e)))"
  by (rule stats_conserve_events [OF _ _ sample_engine_rollups]) (simp_all add: sample_entries_def)

definition sample_row :: "str \<Rightarrow> u64 \<Rightarrow> rollup_key \<times> rollup_acc" where
  "sample_row model n =
     (\<lparr> key_day = 0, key_user = ''u'', key_api_key = ''k'', key_model = model, key_provider = ''openai'' \<rparr>,
      add_rollup (sample_value n) rollup_acc_default)"

lemma sample_merged:
  "accumulate add_rollup rollup_acc_default (map (\<lambda>(key, val). (rollup_key_of key, val)) sample_entries) =
     [sample_row ''m1'' 3, sample_row ''m2'' 4]"
  by (simp add: sample_entries_def accumulate_def rollup_key_of_def dim_or_default_def sample_row_def)

lemma sort_sample_rows:
  "sort_key (\<lambda>p. (key_day (fst p), key_user (fst p))) [sample_row m n, sample_row m' n'] =
     [sample_row m n, sample_row m' n']"
  by (simp add: sample_row_def)

text \<open>
  The pages of two requests need not fit together: the rows are sorted by day and user only,
  so the order of rows that share both is the order of the hash map, which differs between
  requests; the second page can then repeat the row of the first, and the other row is on
  neither.
\<close>

theorem rollup_pages_can_repeat:
  "\<exists>ord ord' row other. (\<forall>m. mset (ord m) = mset m) \<and> (\<forall>m. mset (ord' m) = mset m) \<and>
     query_rollups rollup_engine ord one_tier None None 0 1 1 0 = Inr [row] \<and>
     query_rollups rollup_engine ord' one_tier None None 0 1 1 1 = Inr [row] \<and>
     query_rollups rollup_engine ord one_tier None None 0 1 2 0 = Inr [row, other] \<and> row \<noteq> other"
proof (intro exI conjI allI)
  note eval = query_rollups_def sample_engine_rollups sample_merged Let_def
  show "query_rollups rollup_engine id one_tier None None 0 1 1 0 = Inr [rollup_row_of (sample_row ''m1'' 3)]"
    "query_rollups rollup_engine rev one_tier None None 0 1 1 1 = Inr [rollup_row_of (sample_row ''m1'' 3)]"
    "query_rollups rollup_engine id one_tier None None 0 1 2 0 =
      Inr [rollup_row_of (sample_row ''m1'' 3), rollup_row_of (sample_row ''m2'' 4)]"
    using sort_sample_rows [of "''m1''" 3 "''m2''" 4] sort_sample_rows [of "''m2''" 4 "''m1''" 3]
    by (simp_all add: eval del: sort_key_simps)
  show "rollup_row_of (sample_row ''m1'' 3) \<noteq> rollup_row_of (sample_row ''m2'' 4)"
    by (simp add: rollup_row_of_def sample_row_def)
qed simp_all

end
