(* ===== verification/Runs.thy ===== *)
theory Runs
  imports Main
begin

text \<open>
  Runs of a labelled step relation, the form in which the development states what interleavings
  can do: the batch writer, the life of a row, the abstract event log and the whole system are
  runs of their steps. An invariant and a simulation are interfaces: what a step has to satisfy,
  and what then holds of every run.
\<close>

inductive steps :: "('s \<Rightarrow> 'l \<Rightarrow> 's \<Rightarrow> bool) \<Rightarrow> 's \<Rightarrow> 'l list \<Rightarrow> 's \<Rightarrow> bool" for stp s0 where
  start: "steps stp s0 [] s0"
| step: "\<lbrakk>steps stp s0 ls s; stp s l s'\<rbrakk> \<Longrightarrow> steps stp s0 (ls @ [l]) s'"

lemma steps_append: "steps stp s1 ms s2 \<Longrightarrow> steps stp s0 ls s1 \<Longrightarrow> steps stp s0 (ls @ ms) s2"
proof (induction rule: steps.induct)
  case (step ms s l s')
  from steps.step [OF step.IH [OF step.prems] step.hyps(2)] show ?case by simp
qed simp

lemma steps_one: "stp s l s' \<Longrightarrow> steps stp s [l] s'"
  using steps.step [OF steps.start] by fastforce

section \<open>Invariants\<close>

text \<open>An invariant may depend on the history of labels.\<close>

locale step_invariant =
  fixes stp :: "'s \<Rightarrow> 'l \<Rightarrow> 's \<Rightarrow> bool" and inv :: "'l list \<Rightarrow> 's \<Rightarrow> bool"
  assumes keeps: "stp s l s' \<Longrightarrow> inv ls s \<Longrightarrow> inv (ls @ [l]) s'"
begin

lemma run_keeps:
  assumes "steps stp s0 ls s" and "inv [] s0"
  shows "inv ls s"
  using assms by (induction rule: steps.induct) (simp_all add: keeps)

end

section \<open>Simulations\<close>

text \<open>Every concrete step is an abstract one under the same label.\<close>

locale simulation =
  fixes cstep :: "'s \<Rightarrow> 'l \<Rightarrow> 's \<Rightarrow> bool" and astep :: "'a \<Rightarrow> 'l \<Rightarrow> 'a \<Rightarrow> bool" and abs :: "'s \<Rightarrow> 'a"
  assumes sim: "cstep s l s' \<Longrightarrow> astep (abs s) l (abs s')"
begin

lemma run_sim:
  assumes "steps cstep s0 ls s"
  shows "steps astep (abs s0) ls (abs s)"
  using assms
proof (induction rule: steps.induct)
  case (step ls s l s')
  from steps.step [OF step.IH sim [OF step.hyps(2)]] show ?case .
qed (rule steps.start)

end

end
