(* ===== verification/Batch.thy ===== *)
theory Batch
  imports Kdb_Store Runs
begin

text \<open>
  The batch writer: \<open>crates/keplor-store/src/batch.rs\<close>. Producers route requests round-robin to
  shards, each a bounded channel read by an append loop that buffers requests and writes them in
  batches; one rotator checkpoints the store. The tasks interleave, so their moves are the steps
  of a relation. The state holds, per shard, the channel, the buffer of its loop and whether the
  loop has returned; the requests waiting for room in a channel; and the answers sent to the
  callers, each under the number of its one-shot channel. A task that panics aborts the process.
\<close>

record batch_config =
  bc_batch_size :: usize
  bc_flush_interval_ms :: nat
  bc_channel_capacity :: usize
  bc_flush_shards :: usize

definition batch_config_default :: batch_config where
  "batch_config_default = \<lparr> bc_batch_size = 256, bc_flush_interval_ms = 50,
     bc_channel_capacity = 8192, bc_flush_shards = 4 \<rparr>"

record write_request =
  wr_event :: llm_event
  wr_result_tx :: "nat option"

record shard =
  sh_queue :: "write_request list"
  sh_buffer :: "write_request list"
  sh_done :: bool

record 'g batch_writer =
  bw_shards :: "shard list"
  bw_shard_capacity :: usize
  bw_shard_batch_size :: usize
  bw_next_tx :: u64
  bw_shutdown :: bool
  bw_dropped :: bool
  bw_total_capacity :: usize
  bw_waiting :: "(nat \<times> write_request) list"
  bw_oneshots :: nat
  bw_replies :: "(nat \<times> (store_error + event_id)) list"
  bw_store :: "'g kdb_store"

definition div_ceil :: "nat \<Rightarrow> nat \<Rightarrow> nat" where
  "div_ceil a b = (a + b - 1) div b"

definition batch_new :: "'g kdb_store \<Rightarrow> batch_config \<Rightarrow> 'g batch_writer" where
  "batch_new st config =
     (let shards = max (bc_flush_shards config) 1;
          per_shard_cap = max (div_ceil (bc_channel_capacity config) shards) 1;
          per_shard_batch_size = max (bc_batch_size config div shards) 8
      in \<lparr> bw_shards = replicate shards \<lparr> sh_queue = [], sh_buffer = [], sh_done = False \<rparr>,
           bw_shard_capacity = per_shard_cap, bw_shard_batch_size = per_shard_batch_size,
           bw_next_tx = 0, bw_shutdown = False, bw_dropped = False,
           bw_total_capacity = per_shard_cap * shards,
           bw_waiting = [], bw_oneshots = 0, bw_replies = [], bw_store = st \<rparr>)"

section \<open>Producers\<close>

definition pick_shard :: "'g batch_writer \<Rightarrow> usize \<times> 'g batch_writer" where
  "pick_shard bw =
     (bw_next_tx bw mod length (bw_shards bw),
      bw \<lparr> bw_next_tx := (bw_next_tx bw + 1) mod 2 ^ 64 \<rparr>)"

definition push_request :: "'g batch_writer \<Rightarrow> usize \<Rightarrow> write_request \<Rightarrow> 'g batch_writer" where
  "push_request bw i req =
     bw \<lparr> bw_shards := (bw_shards bw)[i := (bw_shards bw ! i) \<lparr> sh_queue := sh_queue (bw_shards bw ! i) @ [req] \<rparr>] \<rparr>"

text \<open>
  A send with an answer channel: the request is routed and waits for room. \<open>write\<close> and
  \<open>write_many\<close> look at the shutdown flag once, before their first send.
\<close>

definition send_request :: "'g batch_writer \<Rightarrow> llm_event \<Rightarrow> write_request \<times> 'g batch_writer" where
  "send_request bw event =
     (let (shard, bw) = pick_shard bw;
          req = \<lparr> wr_event = event, wr_result_tx = Some (bw_oneshots bw) \<rparr>
      in (req, bw \<lparr> bw_waiting := bw_waiting bw @ [(shard, req)], bw_oneshots := bw_oneshots bw + 1 \<rparr>))"

definition write_submit :: "'g batch_writer \<Rightarrow> llm_event \<Rightarrow> (store_error + write_request) \<times> 'g batch_writer" where
  "write_submit bw event =
     (if bw_shutdown bw then (Inl ChannelClosed, bw)
      else case send_request bw event of (req, bw) \<Rightarrow> (Inr req, bw))"

fun send_many :: "'g batch_writer \<Rightarrow> llm_event list \<Rightarrow> write_request list \<times> 'g batch_writer" where
  "send_many bw [] = ([], bw)"
| "send_many bw (event # events) =
     (case send_request bw event of (req, bw) \<Rightarrow>
        (case send_many bw events of (reqs, bw) \<Rightarrow> (req # reqs, bw)))"

definition write_many_submit :: "'g batch_writer \<Rightarrow> llm_event list \<Rightarrow>
    (store_error + write_request) list \<times> 'g batch_writer" where
  "write_many_submit bw events =
     (if bw_shutdown bw then (map (\<lambda>_. Inl ChannelClosed) events, bw)
      else case send_many bw events of (reqs, bw) \<Rightarrow> (map Inr reqs, bw))"

text \<open>The second part of a write: a caller whose sender is gone gets \<open>ChannelClosed\<close>.\<close>

definition write_result :: "'g batch_writer \<Rightarrow> write_request \<Rightarrow> store_error + event_id" where
  "write_result bw req =
     (case wr_result_tx req of None \<Rightarrow> Inl ChannelClosed
      | Some t \<Rightarrow> (case map_of (bw_replies bw) t of None \<Rightarrow> Inl ChannelClosed | Some r \<Rightarrow> r))"

definition write_fire_and_forget :: "'g batch_writer \<Rightarrow> llm_event \<Rightarrow>
    (store_error + write_request) \<times> 'g batch_writer" where
  "write_fire_and_forget bw event =
     (if bw_shutdown bw then (Inl ChannelClosed, bw)
      else
        (let (shard, bw) = pick_shard bw;
             req = \<lparr> wr_event = event, wr_result_tx = None \<rparr>
         in if sh_done (bw_shards bw ! shard) then (Inl ChannelClosed, bw)
            else if bw_shard_capacity bw \<le> length (sh_queue (bw_shards bw ! shard)) then (Inl ChannelFull, bw)
            else (Inr req, push_request bw shard req)))"

definition queue_depth :: "'g batch_writer \<Rightarrow> usize" where
  "queue_depth bw = sum_list (map (\<lambda>s. length (sh_queue s)) (bw_shards bw))"

definition max_capacity :: "'g batch_writer \<Rightarrow> usize" where
  "max_capacity bw = bw_total_capacity bw"

section \<open>Append loops\<close>

text \<open>The answers a written or failed batch sends to its callers.\<close>

definition replies_to :: "write_request list \<Rightarrow> (llm_event \<Rightarrow> store_error + event_id) \<Rightarrow>
    (nat \<times> (store_error + event_id)) list" where
  "replies_to pending answer =
     concat (map (\<lambda>req. case wr_result_tx req of None \<Rightarrow> [] | Some t \<Rightarrow> [(t, answer (wr_event req))]) pending)"

definition append_only :: "'g engine_ops \<Rightarrow> externals \<Rightarrow>
    ((str \<times> log_event list) list \<Rightarrow> (str \<times> log_event list) list) \<Rightarrow> 'g kdb_store \<Rightarrow>
    write_request list \<Rightarrow> bool \<times> (nat \<times> (store_error + event_id)) list \<times> 'g kdb_store" where
  "append_only ops ext ord st pending =
     (case append_batch_durable ops ext ord st (map wr_event pending) of
        (Inr _, st) \<Rightarrow> (True, replies_to pending (\<lambda>e. Inr (ev_id e)), st)
      | (Inl e, st) \<Rightarrow> (False, replies_to pending (\<lambda>_. Inl (StoreInternal (store_error_fmt e))), st))"

text \<open>What a move of the system did, for its history.\<close>

datatype batch_event =
    Submitted write_request | Cancelled write_request | Flushed "write_request list"
  | FlushFailed "write_request list" | Quiet

definition flush_shard :: "'g engine_ops \<Rightarrow> externals \<Rightarrow>
    ((str \<times> log_event list) list \<Rightarrow> (str \<times> log_event list) list) \<Rightarrow> usize \<Rightarrow> 'g batch_writer \<Rightarrow>
    batch_event \<times> 'g batch_writer" where
  "flush_shard ops ext ord i bw =
     (let s = bw_shards bw ! i in
      case append_only ops ext ord (bw_store bw) (sh_buffer s) of (ok, replies, st) \<Rightarrow>
        (if ok then Flushed (sh_buffer s) else FlushFailed (sh_buffer s),
         bw \<lparr> bw_shards := (bw_shards bw)[i := s \<lparr> sh_buffer := [] \<rparr>],
           bw_replies := bw_replies bw @ replies, bw_store := st \<rparr>))"

text \<open>
  One turn of \<open>append_loop\<close> on a message: it and more messages, up to the batch size, go to the
  buffer, and a full buffer is written.
\<close>

definition take_count :: "usize \<Rightarrow> shard \<Rightarrow> usize" where
  "take_count batch_size s = max 1 (batch_size - length (sh_buffer s))"

definition loop_recv :: "'g engine_ops \<Rightarrow> externals \<Rightarrow>
    ((str \<times> log_event list) list \<Rightarrow> (str \<times> log_event list) list) \<Rightarrow> usize \<Rightarrow> 'g batch_writer \<Rightarrow>
    batch_event \<times> 'g batch_writer" where
  "loop_recv ops ext ord i bw =
     (let s = bw_shards bw ! i;
          n = take_count (bw_shard_batch_size bw) s;
          s = s \<lparr> sh_buffer := sh_buffer s @ take n (sh_queue s), sh_queue := drop n (sh_queue s) \<rparr>;
          bw = bw \<lparr> bw_shards := (bw_shards bw)[i := s] \<rparr>
      in if bw_shard_batch_size bw \<le> length (sh_buffer s) then flush_shard ops ext ord i bw
         else (Quiet, bw))"

definition loop_tick :: "'g engine_ops \<Rightarrow> externals \<Rightarrow>
    ((str \<times> log_event list) list \<Rightarrow> (str \<times> log_event list) list) \<Rightarrow> usize \<Rightarrow> 'g batch_writer \<Rightarrow>
    batch_event \<times> 'g batch_writer" where
  "loop_tick ops ext ord i bw =
     (if sh_buffer (bw_shards bw ! i) \<noteq> [] then flush_shard ops ext ord i bw else (Quiet, bw))"

text \<open>The channel is closed and empty: the last buffer is written, the store checkpointed.\<close>

definition loop_closed :: "'g engine_ops \<Rightarrow> externals \<Rightarrow>
    ((str \<times> log_event list) list \<Rightarrow> (str \<times> log_event list) list) \<Rightarrow> usize \<Rightarrow> 'g batch_writer \<Rightarrow>
    batch_event \<times> 'g batch_writer" where
  "loop_closed ops ext ord i bw =
     (case loop_tick ops ext ord i bw of (l, bw) \<Rightarrow>
        (l, bw \<lparr> bw_store := snd (wal_checkpoint ops (bw_store bw)),
          bw_shards := (bw_shards bw)[i := (bw_shards bw ! i) \<lparr> sh_done := True \<rparr>] \<rparr>))"

definition rotator_tick :: "'g engine_ops \<Rightarrow> 'g batch_writer \<Rightarrow> 'g batch_writer" where
  "rotator_tick ops bw = bw \<lparr> bw_store := snd (wal_checkpoint ops (bw_store bw)) \<rparr>"

section \<open>Shutdown\<close>

text \<open>
  \<open>shutdown\<close> waits for the loops one after the other: \<open>finished_at\<close> has the time each returns at,
  if it does. It gives whether all returned in time and which loops were aborted.
\<close>

fun shutdown_wait :: "nat \<Rightarrow> nat \<Rightarrow> nat option list \<Rightarrow> bool \<times> bool list" where
  "shutdown_wait deadline now [] = (True, [])"
| "shutdown_wait deadline now (f # fs) =
     (if deadline \<le> now then
        (case shutdown_wait deadline now fs of (_, aborted) \<Rightarrow> (False, True # aborted))
      else case f of
        Some t \<Rightarrow>
          if t \<le> deadline then
            (case shutdown_wait deadline (max now t) fs of (ok, aborted) \<Rightarrow> (ok, False # aborted))
          else (case shutdown_wait deadline deadline fs of (_, aborted) \<Rightarrow> (False, False # aborted))
      | None \<Rightarrow> (case shutdown_wait deadline deadline fs of (_, aborted) \<Rightarrow> (False, False # aborted)))"

definition batch_shutdown :: "nat \<Rightarrow> nat \<Rightarrow> nat option list \<Rightarrow> 'g batch_writer \<Rightarrow> bool \<times> 'g batch_writer" where
  "batch_shutdown now timeout finished_at bw =
     (fst (shutdown_wait (now + timeout) now finished_at), bw \<lparr> bw_shutdown := True \<rparr>)"

section \<open>Steps\<close>

inductive batch_step :: "'g engine_ops \<Rightarrow> externals \<Rightarrow>
    ((str \<times> log_event list) list \<Rightarrow> (str \<times> log_event list) list) \<Rightarrow>
    'g batch_writer \<Rightarrow> batch_event \<Rightarrow> 'g batch_writer \<Rightarrow> bool"
  for ops ext ord where
  submit: "\<not> bw_dropped bw \<Longrightarrow> send_request bw event = (req, bw') \<Longrightarrow>
     batch_step ops ext ord bw (Submitted req) bw'"
| forget: "\<not> bw_dropped bw \<Longrightarrow> write_fire_and_forget bw event = (Inr req, bw') \<Longrightarrow>
     batch_step ops ext ord bw (Submitted req) bw'"
| refuse: "\<not> bw_dropped bw \<Longrightarrow> write_fire_and_forget bw event = (Inl e, bw') \<Longrightarrow>
     batch_step ops ext ord bw Quiet bw'"
| admit: "bw_waiting bw = ws @ (i, req) # ws' \<Longrightarrow> i < length (bw_shards bw) \<Longrightarrow>
     length (sh_queue (bw_shards bw ! i)) < bw_shard_capacity bw \<Longrightarrow>
     batch_step ops ext ord bw Quiet (push_request (bw \<lparr> bw_waiting := ws @ ws' \<rparr>) i req)"
| cancel: "bw_waiting bw = ws @ (i, req) # ws' \<Longrightarrow>
     batch_step ops ext ord bw (Cancelled req) (bw \<lparr> bw_waiting := ws @ ws' \<rparr>)"
| recv: "i < length (bw_shards bw) \<Longrightarrow> \<not> sh_done (bw_shards bw ! i) \<Longrightarrow> sh_queue (bw_shards bw ! i) \<noteq> [] \<Longrightarrow>
     loop_recv ops ext ord i bw = (l, bw') \<Longrightarrow> batch_step ops ext ord bw l bw'"
| tick: "i < length (bw_shards bw) \<Longrightarrow> \<not> sh_done (bw_shards bw ! i) \<Longrightarrow>
     loop_tick ops ext ord i bw = (l, bw') \<Longrightarrow> batch_step ops ext ord bw l bw'"
| rotate: "batch_step ops ext ord bw Quiet (rotator_tick ops bw)"
| stop: "batch_step ops ext ord bw Quiet (bw \<lparr> bw_shutdown := True \<rparr>)"
| drop: "bw_waiting bw = [] \<Longrightarrow> batch_step ops ext ord bw Quiet (bw \<lparr> bw_dropped := True \<rparr>)"
| closed: "bw_dropped bw \<Longrightarrow> i < length (bw_shards bw) \<Longrightarrow> \<not> sh_done (bw_shards bw ! i) \<Longrightarrow>
     sh_queue (bw_shards bw ! i) = [] \<Longrightarrow> loop_closed ops ext ord i bw = (l, bw') \<Longrightarrow>
     batch_step ops ext ord bw l bw'"

abbreviation batch_run :: "'g engine_ops \<Rightarrow> externals \<Rightarrow>
    ((str \<times> log_event list) list \<Rightarrow> (str \<times> log_event list) list) \<Rightarrow>
    'g batch_writer \<Rightarrow> batch_event list \<Rightarrow> 'g batch_writer \<Rightarrow> bool" where
  "batch_run ops ext ord \<equiv> steps (batch_step ops ext ord)"

section \<open>Histories\<close>

fun submitted_in :: "batch_event \<Rightarrow> write_request list" where
  "submitted_in (Submitted r) = [r]" | "submitted_in _ = []"

fun cancelled_in :: "batch_event \<Rightarrow> write_request list" where
  "cancelled_in (Cancelled r) = [r]" | "cancelled_in _ = []"

fun flushed_in :: "batch_event \<Rightarrow> write_request list" where
  "flushed_in (Flushed rs) = rs" | "flushed_in _ = []"

fun failed_in :: "batch_event \<Rightarrow> write_request list" where
  "failed_in (FlushFailed rs) = rs" | "failed_in _ = []"

definition submitted :: "batch_event list \<Rightarrow> write_request multiset" where
  "submitted ls = mset (concat (map submitted_in ls))"

definition cancelled :: "batch_event list \<Rightarrow> write_request multiset" where
  "cancelled ls = mset (concat (map cancelled_in ls))"

definition flushed :: "batch_event list \<Rightarrow> write_request multiset" where
  "flushed ls = mset (concat (map flushed_in ls))"

definition failed :: "batch_event list \<Rightarrow> write_request multiset" where
  "failed ls = mset (concat (map failed_in ls))"

definition pending :: "'g batch_writer \<Rightarrow> write_request multiset" where
  "pending bw = mset (map snd (bw_waiting bw)) +
     (\<Sum>s\<leftarrow>bw_shards bw. mset (sh_queue s) + mset (sh_buffer s))"

lemma history_snoc:
  "submitted (ls @ [l]) = submitted ls + mset (submitted_in l)"
  "cancelled (ls @ [l]) = cancelled ls + mset (cancelled_in l)"
  "flushed (ls @ [l]) = flushed ls + mset (flushed_in l)"
  "failed (ls @ [l]) = failed ls + mset (failed_in l)"
  by (simp_all add: submitted_def cancelled_def flushed_def failed_def)

lemma history_Nil [simp]: "submitted [] = {#}" "cancelled [] = {#}" "flushed [] = {#}" "failed [] = {#}"
  by (simp_all add: submitted_def cancelled_def flushed_def failed_def)

section \<open>Nothing is lost\<close>

lemma sum_list_update_mset:
  "i < length xs \<Longrightarrow> (\<Sum>s\<leftarrow>xs[i := y]. f s :: 'b multiset) + f (xs ! i) = (\<Sum>s\<leftarrow>xs. f s) + f y"
proof (induction xs arbitrary: i)
  case (Cons x xs)
  then show ?case by (cases i) (simp_all add: ac_simps)
qed simp

lemma pending_shard_update:
  assumes "i < length (bw_shards bw)"
    and "bw_shards bw' = (bw_shards bw)[i := s']" and "bw_waiting bw' = bw_waiting bw"
  shows "pending bw' + (mset (sh_queue (bw_shards bw ! i)) + mset (sh_buffer (bw_shards bw ! i))) =
    pending bw + (mset (sh_queue s') + mset (sh_buffer s'))"
  using sum_list_update_mset [OF assms(1), where y = s' and f = "\<lambda>s. mset (sh_queue s) + mset (sh_buffer s)"] assms(2,3)
  by (simp add: pending_def add.assoc)

text \<open>The requests a move of an append loop takes out of the system.\<close>

definition settles :: "'g batch_writer \<Rightarrow> batch_event \<Rightarrow> 'g batch_writer \<Rightarrow> bool" where
  "settles bw l bw' \<longleftrightarrow> pending bw' + mset (flushed_in l) + mset (failed_in l) = pending bw \<and>
     submitted_in l = [] \<and> cancelled_in l = []"

lemma settles_Quiet: "pending bw' = pending bw \<Longrightarrow> settles bw Quiet bw'"
  by (simp add: settles_def)

lemma flush_shard_settles:
  assumes "i < length (bw_shards bw)" and "flush_shard ops ext ord i bw = (l, bw')"
  shows "settles bw l bw'"
proof -
  let ?s = "bw_shards bw ! i"
  have "bw_shards bw' = (bw_shards bw)[i := ?s \<lparr> sh_buffer := [] \<rparr>]" "bw_waiting bw' = bw_waiting bw"
    and l: "l = Flushed (sh_buffer ?s) \<or> l = FlushFailed (sh_buffer ?s)"
    using assms(2) by (auto simp: flush_shard_def Let_def split: prod.splits if_splits)
  from pending_shard_update [OF assms(1) this(1,2)]
  have "pending bw' + mset (sh_buffer ?s) = pending bw"
    by (simp add: add.left_commute)
  with l show ?thesis by (auto simp: settles_def)
qed

lemma loop_recv_settles:
  assumes "i < length (bw_shards bw)" and "loop_recv ops ext ord i bw = (l, bw')"
  shows "settles bw l bw'"
proof -
  let ?s = "bw_shards bw ! i" and ?n = "take_count (bw_shard_batch_size bw) (bw_shards bw ! i)"
  let ?s1 = "?s \<lparr> sh_buffer := sh_buffer ?s @ take ?n (sh_queue ?s), sh_queue := drop ?n (sh_queue ?s) \<rparr>"
  let ?bw1 = "bw \<lparr> bw_shards := (bw_shards bw)[i := ?s1] \<rparr>"
  have split: "mset (sh_queue ?s) = mset (take ?n (sh_queue ?s)) + mset (drop ?n (sh_queue ?s))"
    by (metis append_take_drop_id mset_append)
  have "pending ?bw1 + (mset (sh_queue ?s) + mset (sh_buffer ?s)) = pending bw + (mset (sh_queue ?s1) + mset (sh_buffer ?s1))"
    by (rule pending_shard_update [OF assms(1)]) simp_all
  then have same: "pending ?bw1 = pending bw"
    by (simp add: split ac_simps)
  show ?thesis
  proof (cases "bw_shard_batch_size bw \<le> length (sh_buffer ?s1)")
    case True
    then have "flush_shard ops ext ord i ?bw1 = (l, bw')"
      using assms(2) by (simp add: loop_recv_def Let_def)
    with flush_shard_settles [of i ?bw1] assms(1) same show ?thesis
      by (simp add: settles_def)
  next
    case False
    then have "l = Quiet" "bw' = ?bw1"
      using assms(2) by (simp_all add: loop_recv_def Let_def)
    with same show ?thesis by (simp add: settles_Quiet)
  qed
qed

lemma loop_tick_settles:
  "i < length (bw_shards bw) \<Longrightarrow> loop_tick ops ext ord i bw = (l, bw') \<Longrightarrow> settles bw l bw'"
  by (auto simp: loop_tick_def settles_Quiet split: if_splits intro: flush_shard_settles)

lemma flush_shard_length: "length (bw_shards (snd (flush_shard ops ext ord i bw))) = length (bw_shards bw)"
  by (simp add: flush_shard_def Let_def split: prod.split)

lemma loop_closed_settles:
  assumes "i < length (bw_shards bw)" and "loop_closed ops ext ord i bw = (l, bw')"
  shows "settles bw l bw'"
proof -
  obtain bw1 where tick: "loop_tick ops ext ord i bw = (l, bw1)"
    and shards: "bw_shards bw' = (bw_shards bw1)[i := (bw_shards bw1 ! i) \<lparr> sh_done := True \<rparr>]"
    and waiting: "bw_waiting bw' = bw_waiting bw1"
    using assms(2) by (auto simp: loop_closed_def split: prod.splits)
  have "i < length (bw_shards bw1)"
    using tick assms(1) flush_shard_length [of ops ext ord i bw] by (auto simp: loop_tick_def split: if_splits)
  from pending_shard_update [OF this shards waiting] have "pending bw' = pending bw1" by simp
  with loop_tick_settles [OF assms(1) tick] show ?thesis by (simp add: settles_def)
qed

lemma push_request_pending:
  assumes "i < length (bw_shards bw)"
  shows "pending (push_request bw i req) = pending bw + {#req#}"
proof -
  have "pending (push_request bw i req) +
      (mset (sh_queue (bw_shards bw ! i)) + mset (sh_buffer (bw_shards bw ! i))) =
    pending bw + (mset (sh_queue (bw_shards bw ! i) @ [req]) + mset (sh_buffer (bw_shards bw ! i)))"
    using pending_shard_update [OF assms, of "push_request bw i req"
        "(bw_shards bw ! i) \<lparr> sh_queue := sh_queue (bw_shards bw ! i) @ [req] \<rparr>"]
    by (simp add: push_request_def)
  then show ?thesis by (simp add: ac_simps)
qed

lemma batch_step_pending:
  assumes "batch_step ops ext ord bw l bw'" and "bw_shards bw \<noteq> []"
  shows "pending bw' + mset (flushed_in l) + mset (failed_in l) + mset (cancelled_in l) =
    pending bw + mset (submitted_in l)"
  using assms
proof (cases rule: batch_step.cases)
  case (submit event req)
  then show ?thesis by (auto simp: send_request_def pick_shard_def Let_def pending_def)
next
  case (forget event req)
  then have "bw' = push_request (snd (pick_shard bw)) (fst (pick_shard bw)) req"
    by (auto simp: write_fire_and_forget_def pick_shard_def Let_def split: if_splits)
  then show ?thesis
    using push_request_pending [of "fst (pick_shard bw)" "snd (pick_shard bw)" req] forget(1) assms(2)
    by (simp add: pick_shard_def pending_def)
next
  case (refuse event e)
  then show ?thesis
    by (auto simp: write_fire_and_forget_def pick_shard_def Let_def pending_def split: if_splits)
next
  case (admit ws i req ws')
  then show ?thesis
    using push_request_pending [of i "bw \<lparr> bw_waiting := ws @ ws' \<rparr>" req] by (simp add: pending_def)
next
  case (cancel ws i req ws')
  then show ?thesis by (simp add: pending_def)
next
  case (recv i)
  then show ?thesis using loop_recv_settles [of i bw] by (simp add: settles_def)
next
  case (tick i)
  then show ?thesis using loop_tick_settles [of i bw] by (simp add: settles_def)
next
  case (closed i)
  then show ?thesis using loop_closed_settles [of i bw] by (simp add: settles_def)
qed (simp_all add: pending_def rotator_tick_def)

section \<open>Structure\<close>

definition shard_ok :: "'g batch_writer \<Rightarrow> shard \<Rightarrow> bool" where
  "shard_ok bw s \<longleftrightarrow> length (sh_queue s) \<le> bw_shard_capacity bw \<and>
     (sh_done s \<longrightarrow> bw_dropped bw \<and> sh_queue s = [] \<and> sh_buffer s = [])"

definition batch_inv :: "'g batch_writer \<Rightarrow> bool" where
  "batch_inv bw \<longleftrightarrow> bw_shards bw \<noteq> [] \<and> 0 < bw_shard_capacity bw \<and>
     bw_total_capacity bw = bw_shard_capacity bw * length (bw_shards bw) \<and>
     list_all (shard_ok bw) (bw_shards bw) \<and>
     (\<forall>(i, req)\<in>set (bw_waiting bw). i < length (bw_shards bw)) \<and>
     (bw_dropped bw \<longrightarrow> bw_waiting bw = [])"

lemma batch_new_inv: "batch_inv (batch_new st config)"
  by (auto simp: batch_new_def batch_inv_def shard_ok_def list_all_iff Let_def)

lemma batch_inv_update:
  assumes "batch_inv bw" and "shard_ok bw s'"
    and "bw_shards bw' = (bw_shards bw)[i := s']" and "bw_waiting bw' = bw_waiting bw"
    and "bw_shard_capacity bw' = bw_shard_capacity bw" and "bw_total_capacity bw' = bw_total_capacity bw"
    and "bw_dropped bw' = bw_dropped bw"
  shows "batch_inv bw'"
proof -
  have same: "shard_ok bw' = shard_ok bw"
    using assms(5,7) by (simp add: shard_ok_def fun_eq_iff)
  have "list_all (shard_ok bw) ((bw_shards bw)[i := s'])"
    using assms(1,2) set_update_subset_insert [of "bw_shards bw" i s']
    by (auto simp: batch_inv_def list_all_iff)
  then show ?thesis
    using assms(1,3-7) same by (simp add: batch_inv_def)
qed

lemma batch_inv_shard: "batch_inv bw \<Longrightarrow> i < length (bw_shards bw) \<Longrightarrow> shard_ok bw (bw_shards bw ! i)"
  by (simp add: batch_inv_def list_all_iff)

lemma flush_shard_frame:
  assumes "flush_shard ops ext ord i bw = (l, bw')"
  shows "bw_shards bw' = (bw_shards bw)[i := (bw_shards bw ! i) \<lparr> sh_buffer := [] \<rparr>] \<and>
    bw_waiting bw' = bw_waiting bw \<and> bw_shard_capacity bw' = bw_shard_capacity bw \<and>
    bw_total_capacity bw' = bw_total_capacity bw \<and> bw_dropped bw' = bw_dropped bw"
  using assms by (auto simp: flush_shard_def Let_def split: prod.splits)

lemma flush_shard_inv:
  assumes "batch_inv bw" and "i < length (bw_shards bw)" and "flush_shard ops ext ord i bw = (l, bw')"
  shows "batch_inv bw'"
proof -
  have "shard_ok bw ((bw_shards bw ! i) \<lparr> sh_buffer := [] \<rparr>)"
    using batch_inv_shard [OF assms(1,2)] by (simp add: shard_ok_def)
  from batch_inv_update [OF assms(1) this] flush_shard_frame [OF assms(3)] show ?thesis by blast
qed

lemma loop_tick_inv:
  "batch_inv bw \<Longrightarrow> i < length (bw_shards bw) \<Longrightarrow> loop_tick ops ext ord i bw = (l, bw') \<Longrightarrow> batch_inv bw'"
  by (auto simp: loop_tick_def split: if_splits intro: flush_shard_inv)

lemma loop_recv_inv:
  assumes "batch_inv bw" and "i < length (bw_shards bw)" and "\<not> sh_done (bw_shards bw ! i)"
    and "loop_recv ops ext ord i bw = (l, bw')"
  shows "batch_inv bw'"
proof -
  let ?s = "bw_shards bw ! i" and ?n = "take_count (bw_shard_batch_size bw) (bw_shards bw ! i)"
  let ?s1 = "?s \<lparr> sh_buffer := sh_buffer ?s @ take ?n (sh_queue ?s), sh_queue := drop ?n (sh_queue ?s) \<rparr>"
  let ?bw1 = "bw \<lparr> bw_shards := (bw_shards bw)[i := ?s1] \<rparr>"
  have "shard_ok bw ?s1"
    using batch_inv_shard [OF assms(1,2)] assms(3) by (auto simp: shard_ok_def)
  then have "batch_inv ?bw1"
    by (rule batch_inv_update [OF assms(1)]) simp_all
  then show ?thesis
    using assms(2,4) flush_shard_inv [of ?bw1 i ops ext ord]
    by (auto simp: loop_recv_def Let_def split: if_splits)
qed

lemma loop_tick_empties:
  assumes "i < length (bw_shards bw)" and "loop_tick ops ext ord i bw = (l, bw')"
  shows "bw_shards bw' = (bw_shards bw)[i := (bw_shards bw ! i) \<lparr> sh_buffer := [] \<rparr>]"
proof (cases "sh_buffer (bw_shards bw ! i) = []")
  case True
  then have "(bw_shards bw ! i) \<lparr> sh_buffer := [] \<rparr> = bw_shards bw ! i" "bw' = bw"
    using assms(2) by (simp_all add: loop_tick_def)
  then show ?thesis by (simp only: list_update_id)
next
  case False
  with assms flush_shard_frame [of ops ext ord i bw] show ?thesis by (simp add: loop_tick_def)
qed

lemma loop_tick_frame:
  assumes "loop_tick ops ext ord i bw = (l, bw')"
  shows "bw_waiting bw' = bw_waiting bw \<and> bw_shard_capacity bw' = bw_shard_capacity bw \<and>
    bw_total_capacity bw' = bw_total_capacity bw \<and> bw_dropped bw' = bw_dropped bw"
  using assms flush_shard_frame [of ops ext ord i bw] by (auto simp: loop_tick_def split: if_splits)

lemma loop_closed_inv:
  assumes "batch_inv bw" and "bw_dropped bw" and "i < length (bw_shards bw)"
    and "sh_queue (bw_shards bw ! i) = []" and "loop_closed ops ext ord i bw = (l, bw')"
  shows "batch_inv bw'"
proof -
  obtain bw1 where tick: "loop_tick ops ext ord i bw = (l, bw1)"
    and bw': "bw' = bw1 \<lparr> bw_store := snd (wal_checkpoint ops (bw_store bw1)),
      bw_shards := (bw_shards bw1)[i := (bw_shards bw1 ! i) \<lparr> sh_done := True \<rparr>] \<rparr>"
    using assms(5) by (auto simp: loop_closed_def split: prod.splits)
  have inv1: "batch_inv bw1" by (rule loop_tick_inv [OF assms(1,3) tick])
  have "bw_shards bw1 ! i = (bw_shards bw ! i) \<lparr> sh_buffer := [] \<rparr>" "bw_dropped bw1"
    using loop_tick_empties [OF assms(3) tick] loop_tick_frame [OF tick] assms(2,3) by simp_all
  then have "shard_ok bw1 ((bw_shards bw1 ! i) \<lparr> sh_done := True \<rparr>)"
    using assms(4) by (simp add: shard_ok_def)
  then show ?thesis by (rule batch_inv_update [OF inv1]) (simp_all add: bw')
qed

lemma push_request_inv:
  assumes "batch_inv bw" and "i < length (bw_shards bw)" and "\<not> sh_done (bw_shards bw ! i)"
    and "length (sh_queue (bw_shards bw ! i)) < bw_shard_capacity bw"
  shows "batch_inv (push_request bw i req)"
proof -
  have "shard_ok bw ((bw_shards bw ! i) \<lparr> sh_queue := sh_queue (bw_shards bw ! i) @ [req] \<rparr>)"
    using assms(3,4) by (simp add: shard_ok_def)
  then show ?thesis
    by (rule batch_inv_update [OF assms(1)]) (simp_all add: push_request_def)
qed

lemma batch_step_inv:
  assumes "batch_step ops ext ord bw l bw'" and "batch_inv bw"
  shows "batch_inv bw'"
  using assms(1)
proof (cases rule: batch_step.cases)
  case (submit event req)
  then show ?thesis
    using assms(2) by (auto simp: send_request_def pick_shard_def Let_def batch_inv_def shard_ok_def list_all_iff)
next
  case (forget event req)
  let ?bw = "snd (pick_shard bw)" and ?i = "fst (pick_shard bw)"
  have "batch_inv ?bw" "?i < length (bw_shards ?bw)"
    using assms(2) by (auto simp: pick_shard_def batch_inv_def shard_ok_def list_all_iff)
  with forget push_request_inv [of ?bw ?i req] show ?thesis
    by (auto simp: write_fire_and_forget_def Let_def case_prod_unfold split: if_splits)
next
  case (refuse event e)
  then show ?thesis
    using assms(2)
    by (auto simp: write_fire_and_forget_def pick_shard_def Let_def batch_inv_def shard_ok_def list_all_iff split: if_splits)
next
  case (admit ws i req ws')
  let ?bw = "bw \<lparr> bw_waiting := ws @ ws' \<rparr>"
  have inv: "batch_inv ?bw"
    using assms(2) admit(3) by (auto simp: batch_inv_def shard_ok_def list_all_iff)
  have "\<not> bw_dropped bw" using assms(2) admit(3) by (auto simp: batch_inv_def)
  then have "\<not> sh_done (bw_shards bw ! i)"
    using batch_inv_shard [OF assms(2) admit(4)] by (auto simp: shard_ok_def)
  with push_request_inv [OF inv, of i req] admit show ?thesis by simp
next
  case (cancel ws i req ws')
  then show ?thesis using assms(2) by (auto simp: batch_inv_def shard_ok_def list_all_iff)
next
  case (recv i)
  then show ?thesis using loop_recv_inv [OF assms(2)] by blast
next
  case (tick i)
  then show ?thesis using loop_tick_inv [OF assms(2)] by blast
next
  case (closed i)
  then show ?thesis using loop_closed_inv [OF assms(2)] by blast
qed (use assms(2) in \<open>auto simp: rotator_tick_def batch_inv_def shard_ok_def list_all_iff\<close>)

interpretation bi: step_invariant "batch_step ops ext ord" "\<lambda>_. batch_inv" for ops ext ord
  by unfold_locales (rule batch_step_inv)

lemmas batch_run_inv = bi.run_keeps

lemma batch_run_pending:
  assumes "batch_run ops ext ord bw0 ls bw" and "batch_inv bw0"
  shows "pending bw + flushed ls + failed ls + cancelled ls = pending bw0 + submitted ls"
  using assms
proof (induction rule: steps.induct)
  case (step ls bw l bw')
  have "bw_shards bw \<noteq> []"
    using batch_run_inv [OF step.hyps(1) step.prems] by (simp add: batch_inv_def)
  note now = batch_step_pending [OF step.hyps(2) this]
  have "pending bw' + flushed (ls @ [l]) + failed (ls @ [l]) + cancelled (ls @ [l]) =
      (pending bw' + mset (flushed_in l) + mset (failed_in l) + mset (cancelled_in l)) +
      (flushed ls + failed ls + cancelled ls)"
    by (simp add: history_snoc ac_simps)
  also have "\<dots> = (pending bw + flushed ls + failed ls + cancelled ls) + mset (submitted_in l)"
    unfolding now by (simp add: ac_simps)
  finally show ?case using step.IH [OF step.prems] by (simp add: history_snoc ac_simps)
qed simp

lemma queue_depth_bound:
  assumes "batch_inv bw"
  shows "queue_depth bw \<le> max_capacity bw"
proof -
  have "(\<Sum>s\<leftarrow>ss. length (sh_queue s)) \<le> bw_shard_capacity bw * length ss"
    if "list_all (shard_ok bw) ss" for ss
    using that by (induction ss) (auto simp: shard_ok_def)
  with assms show ?thesis by (simp add: batch_inv_def queue_depth_def max_capacity_def)
qed

lemma all_done_nothing_pending:
  assumes "batch_inv bw" and "list_all sh_done (bw_shards bw)"
  shows "pending bw = {#}"
proof -
  have "(\<Sum>s\<leftarrow>ss. mset (sh_queue s) + mset (sh_buffer s)) = {#}"
    if "list_all (shard_ok bw) ss" "list_all sh_done ss" for ss
    using that by (induction ss) (auto simp: shard_ok_def)
  moreover have "bw_waiting bw = []"
    using assms by (cases "bw_shards bw") (auto simp: batch_inv_def shard_ok_def)
  ultimately show ?thesis using assms by (simp add: pending_def batch_inv_def)
qed

lemma pending_new: "pending (batch_new st config) = {#}"
proof -
  have "(\<Sum>s\<leftarrow>replicate n \<lparr> sh_queue = [], sh_buffer = [], sh_done = False \<rparr>.
      mset (sh_queue s) + mset (sh_buffer s)) = {#}" for n
    by (induction n) simp_all
  then show ?thesis by (simp add: batch_new_def pending_def Let_def)
qed


end
