(* ===== verification/Batch_Durable.thy ===== *)
theory Batch_Durable
  imports Batch
begin

text \<open>
  What the answers of the batch writer mean and that it can always make progress: an
  acknowledged event is in the store, pending requests can always be drained, and what the
  shutdown reports.
\<close>

section \<open>The store only grows\<close>

text \<open>
  What the engine promises, for an abstraction \<open>rows\<close> of it: an append that succeeds adds its
  rows, one that fails removes none, and a flush changes no rows.
\<close>

definition engine_keeps :: "('g \<Rightarrow> log_event multiset) \<Rightarrow> 'g engine_ops \<Rightarrow> bool" where
  "engine_keeps rows ops \<longleftrightarrow> append_law rows (eng_append_batch_durable ops) \<and>
     (\<forall>eng logs. rows eng \<subseteq># rows (snd (eng_append_batch_durable ops eng logs))) \<and>
     (\<forall>eng. rows (snd (eng_flush ops eng)) = rows eng)"

lemma on_tier_grows:
  assumes "\<And>eng. rows eng \<subseteq># rows (snd (act eng))"
  shows "stored_rows ops rows st t \<subseteq># stored_rows ops rows (snd (on_tier ops act st tier)) t"
  using assms
  by (auto simp: on_tier_def engine_for_def stored_rows_def map_of_map_put
      split: option.splits sum.splits prod.splits) (metis snd_conv)+

lemma append_tiers_grows:
  assumes "\<And>eng logs. rows eng \<subseteq># rows (snd (act eng logs))"
  shows "stored_rows ops rows st t \<subseteq># stored_rows ops rows (snd (append_tiers ops act bs st)) t"
proof (induction bs arbitrary: st)
  case (Cons b rest)
  obtain tier logs where b: "b = (tier, logs)" by fastforce
  obtain r st1 where r: "on_tier ops (\<lambda>eng. act eng logs) st tier = (r, st1)" by fastforce
  have "stored_rows ops rows st t \<subseteq># stored_rows ops rows st1 t"
    using on_tier_grows [of rows "\<lambda>eng. act eng logs" ops st t tier] assms r by simp
  with Cons.IH [of st1] show ?case
    by (auto simp: b r split: sum.splits intro: subset_mset.order_trans)
qed simp

lemma each_engine_same_rows:
  assumes "\<And>eng. rows (snd (act eng)) = rows eng"
  shows "map_option rows (map_of (snd (each_engine act es)) tier) = map_option rows (map_of es tier)"
proof (induction es)
  case (Cons p rest)
  obtain t eng where p: "p = (t, eng)" by fastforce
  obtain r eng' where a: "act eng = (r, eng')" by fastforce
  have "rows eng' = rows eng" using assms [of eng] a by simp
  with Cons show ?case by (auto simp: p a split: sum.splits prod.splits)
qed simp

lemma wal_checkpoint_rows:
  assumes "\<And>eng. rows (snd (eng_flush ops eng)) = rows eng"
  shows "stored_rows ops rows (snd (wal_checkpoint ops st)) t = stored_rows ops rows st t"
proof -
  have st: "snd (wal_checkpoint ops st) = st \<lparr> ks_engines := snd (each_engine (eng_flush ops) (ks_engines st)) \<rparr>"
    by (simp add: wal_checkpoint_def over_engines_def split: prod.split sum.split)
  have "map_option rows (map_of (snd (each_engine (eng_flush ops) (ks_engines st))) t) =
      map_option rows (map_of (ks_engines st) t)"
    by (rule each_engine_same_rows) (rule assms)
  then show ?thesis
    unfolding st stored_rows_def
    by (cases "map_of (ks_engines st) t"; cases "map_of (snd (each_engine (eng_flush ops) (ks_engines st))) t") auto
qed

text \<open>The rows of requests that belong to a tier.\<close>

definition request_rows :: "externals \<Rightarrow> write_request multiset \<Rightarrow> str \<Rightarrow> log_event multiset" where
  "request_rows ext reqs t =
     image_mset (\<lambda>r. to_log_event ext (wr_event r)) (filter_mset (\<lambda>r. ev_tier (wr_event r) = t) reqs)"

lemma request_rows_add [simp]:
  "request_rows ext (A + B) t = request_rows ext A t + request_rows ext B t" "request_rows ext {#} t = {#}"
  by (simp_all add: request_rows_def)

lemma append_only_grows:
  assumes "engine_keeps rows ops" and "\<forall>m. mset (ord m) = mset m"
    and "append_only ops ext ord st reqs = (ok, replies, st')"
  shows "stored_rows ops rows st t + (if ok then request_rows ext (mset reqs) t else {#})
    \<subseteq># stored_rows ops rows st' t"
proof -
  let ?evs = "map wr_event reqs"
  obtain r st1 where ab: "append_batch_durable ops ext ord st ?evs = (r, st1)" by fastforce
  have st': "st' = st1" and ok: "ok \<longleftrightarrow> (\<exists>ids. r = Inr ids)"
    using assms(3) by (auto simp: append_only_def ab split: sum.splits)
  show ?thesis
  proof (cases "?evs = []")
    case True
    then show ?thesis using ab st' by (auto simp: append_batch_durable_def)
  next
    case False
    obtain q st2 where at: "append_tiers ops (eng_append_batch_durable ops) (ord (rows_by_tier ext ?evs)) st = (q, st2)"
      by fastforce
    have st2: "st1 = st2" and q: "ok \<longleftrightarrow> q = Inr ()"
      using False ab at ok by (auto simp: append_batch_durable_def split: sum.splits)
    show ?thesis
    proof (cases ok)
      case True
      have "stored_rows ops rows st2 t = stored_rows ops rows st t +
          mset (map (to_log_event ext) (filter (\<lambda>e. ev_tier e = t) ?evs))"
        using append_tiers_batch [of rows "eng_append_batch_durable ops" "ord (rows_by_tier ext ?evs)" ext ?evs ops st st2 t]
          assms(1,2) at q True by (simp add: engine_keeps_def)
      moreover have "mset (map (to_log_event ext) (filter (\<lambda>e. ev_tier e = t) ?evs)) = request_rows ext (mset reqs) t"
        by (simp add: request_rows_def filter_map comp_def flip: mset_filter mset_map)
      ultimately show ?thesis using True st' st2 by simp
    next
      case False
      then show ?thesis
        using append_tiers_grows [of rows "eng_append_batch_durable ops" ops st t "ord (rows_by_tier ext ?evs)"]
          assms(1) at st' st2 by (simp add: engine_keeps_def)
    qed
  qed
qed

section \<open>Acknowledged means stored\<close>

text \<open>
  The answers sent so far belong to written or failed requests, and the rows of written requests
  are in the store.
\<close>

definition answers_ok :: "batch_event list \<Rightarrow> 'g batch_writer \<Rightarrow> bool" where
  "answers_ok ls bw \<longleftrightarrow>
     (\<forall>t i. (t, Inr i) \<in> set (bw_replies bw) \<longrightarrow>
        (\<exists>r. r \<in># flushed ls \<and> wr_result_tx r = Some t \<and> ev_id (wr_event r) = i)) \<and>
     (\<forall>t e. (t, Inl e) \<in> set (bw_replies bw) \<longrightarrow> (\<exists>r. r \<in># failed ls \<and> wr_result_tx r = Some t))"

definition rows_kept :: "'g engine_ops \<Rightarrow> externals \<Rightarrow> ('g \<Rightarrow> log_event multiset) \<Rightarrow>
    batch_event list \<Rightarrow> 'g batch_writer \<Rightarrow> bool" where
  "rows_kept ops ext rows ls bw \<longleftrightarrow>
     (\<forall>t. request_rows ext (flushed ls) t \<subseteq># stored_rows ops rows (bw_store bw) t)"

lemma in_replies_to:
  "(t, res) \<in> set (replies_to reqs answer) \<longleftrightarrow>
     (\<exists>r\<in>set reqs. wr_result_tx r = Some t \<and> res = answer (wr_event r))"
  by (auto simp: replies_to_def split: option.splits) (metis option.inject)

lemma flush_shard_answers:
  assumes "flush_shard ops ext ord i bw = (l, bw')" and "answers_ok ls bw"
  shows "answers_ok (ls @ [l]) bw'"
proof -
  let ?reqs = "sh_buffer (bw_shards bw ! i)"
  obtain ok replies st' where ao: "append_only ops ext ord (bw_store bw) ?reqs = (ok, replies, st')"
    by (metis prod_cases3)
  have l: "l = (if ok then Flushed ?reqs else FlushFailed ?reqs)" and bw': "bw_replies bw' = bw_replies bw @ replies"
    using assms(1) ao by (auto simp: flush_shard_def Let_def)
  have "replies = replies_to ?reqs (\<lambda>e. Inr (ev_id e)) \<and> ok \<or> (\<exists>e. replies = replies_to ?reqs (\<lambda>_. Inl e)) \<and> \<not> ok"
    using ao by (auto simp: append_only_def split: prod.splits sum.splits)
  then show ?thesis
    using assms(2) by (cases ok) (auto simp: answers_ok_def bw' l history_snoc in_replies_to)
qed

lemma flush_shard_rows:
  assumes "engine_keeps rows ops" and "\<forall>m. mset (ord m) = mset m" and "flush_shard ops ext ord i bw = (l, bw')"
  shows "stored_rows ops rows (bw_store bw) t + request_rows ext (mset (flushed_in l)) t
    \<subseteq># stored_rows ops rows (bw_store bw') t"
proof -
  let ?reqs = "sh_buffer (bw_shards bw ! i)"
  obtain ok replies st' where ao: "append_only ops ext ord (bw_store bw) ?reqs = (ok, replies, st')"
    by (metis prod_cases3)
  have "l = (if ok then Flushed ?reqs else FlushFailed ?reqs)" and "bw_store bw' = st'"
    using assms(3) ao by (auto simp: flush_shard_def Let_def)
  then show ?thesis
    using append_only_grows [OF assms(1,2) ao, of t] by (cases ok) simp_all
qed

lemma quiet_answers:
  "answers_ok ls bw \<Longrightarrow> bw_replies bw' = bw_replies bw \<Longrightarrow> flushed_in l = [] \<Longrightarrow> failed_in l = [] \<Longrightarrow>
   answers_ok (ls @ [l]) bw'"
  by (simp add: answers_ok_def history_snoc)

lemma batch_step_answers:
  assumes "batch_step ops ext ord bw l bw'" and "answers_ok ls bw"
  shows "answers_ok (ls @ [l]) bw'"
proof -
  note quiet = quiet_answers [OF assms(2)]
  have tick: "answers_ok (ls @ [l]) bw1" if "loop_tick ops ext ord i bw = (l, bw1)" for i bw1
    using that flush_shard_answers [OF _ assms(2)] quiet [of bw Quiet] by (auto simp: loop_tick_def split: if_splits)
  show ?thesis
    using assms(1)
  proof (cases rule: batch_step.cases)
    case (recv i)
    let ?s = "bw_shards bw ! i"
    let ?n = "take_count (bw_shard_batch_size bw) ?s"
    let ?bw1 = "bw \<lparr> bw_shards := (bw_shards bw)[i := ?s \<lparr> sh_buffer := sh_buffer ?s @ take ?n (sh_queue ?s),
      sh_queue := drop ?n (sh_queue ?s) \<rparr>] \<rparr>"
    have "answers_ok ls ?bw1" using assms(2) by (simp add: answers_ok_def)
    then show ?thesis
      using recv(4) flush_shard_answers [of ops ext ord i ?bw1 l bw' ls] quiet [of ?bw1 Quiet]
      by (auto simp: loop_recv_def Let_def split: if_splits)
  next
    case (closed i)
    then obtain bw1 where "loop_tick ops ext ord i bw = (l, bw1)" and "bw_replies bw' = bw_replies bw1"
      by (auto simp: loop_closed_def split: prod.splits)
    with tick [of i bw1] show ?thesis by (simp add: answers_ok_def)
  qed (use tick in blast | rule quiet; auto simp: send_request_def write_fire_and_forget_def pick_shard_def
      push_request_def rotator_tick_def Let_def split: if_splits)+
qed

text \<open>A step of the writer keeps every row and adds those of the requests it writes.\<close>

lemma batch_step_rows:
  assumes "engine_keeps rows ops" and "\<forall>m. mset (ord m) = mset m" and "batch_step ops ext ord bw l bw'"
  shows "stored_rows ops rows (bw_store bw) t + request_rows ext (mset (flushed_in l)) t
    \<subseteq># stored_rows ops rows (bw_store bw') t"
proof -
  have flush: "rows (snd (eng_flush ops eng)) = rows eng" for eng
    using assms(1) by (simp add: engine_keeps_def)
  note rows = flush_shard_rows [OF assms(1,2)]
  have tick: "stored_rows ops rows (bw_store bw) t + request_rows ext (mset (flushed_in l)) t
      \<subseteq># stored_rows ops rows (bw_store bw1) t" if "loop_tick ops ext ord i bw = (l, bw1)" for i bw1
    using that rows [of ext i bw l bw1 t] by (auto simp: loop_tick_def split: if_splits)
  show ?thesis
    using assms(3)
  proof (cases rule: batch_step.cases)
    case (recv i)
    then show ?thesis
      using rows [of ext i _ l bw' t] by (fastforce simp: loop_recv_def Let_def split: if_splits)
  next
    case (closed i)
    then obtain bw1 where "loop_tick ops ext ord i bw = (l, bw1)"
      and "bw_store bw' = snd (wal_checkpoint ops (bw_store bw1))"
      by (auto simp: loop_closed_def split: prod.splits)
    with tick [of i bw1] wal_checkpoint_rows [of rows ops, OF flush] show ?thesis by simp
  qed (use tick in blast | auto simp: send_request_def write_fire_and_forget_def pick_shard_def push_request_def
      rotator_tick_def Let_def wal_checkpoint_rows [of rows ops, OF flush] split: if_splits)+
qed

lemma batch_step_rows_kept:
  assumes "engine_keeps rows ops" and "\<forall>m. mset (ord m) = mset m" and "batch_step ops ext ord bw l bw'"
    and "rows_kept ops ext rows ls bw"
  shows "rows_kept ops ext rows (ls @ [l]) bw'"
  unfolding rows_kept_def
proof
  fix t
  have "request_rows ext (flushed (ls @ [l])) t \<subseteq>#
      stored_rows ops rows (bw_store bw) t + request_rows ext (mset (flushed_in l)) t"
    using assms(4) by (simp add: history_snoc rows_kept_def subset_mset.add_right_mono)
  also have "\<dots> \<subseteq># stored_rows ops rows (bw_store bw') t" by (rule batch_step_rows [OF assms(1-3)])
  finally show "request_rows ext (flushed (ls @ [l])) t \<subseteq># stored_rows ops rows (bw_store bw') t" .
qed

lemma batch_run_answers:
  assumes "engine_keeps rows ops" and "\<forall>m. mset (ord m) = mset m"
  shows "batch_run ops ext ord bw0 ls bw \<Longrightarrow> bw_replies bw0 = [] \<Longrightarrow>
    answers_ok ls bw \<and> rows_kept ops ext rows ls bw"
proof (induction rule: steps.induct)
  case start
  then show ?case by (simp add: answers_ok_def rows_kept_def)
next
  case (step ls bw l bw')
  then show ?case using batch_step_answers batch_step_rows_kept [OF assms] by blast
qed

lemma acknowledged_row:
  assumes "engine_keeps rows ops" and "\<forall>m. mset (ord m) = mset m"
    and "batch_run ops ext ord (batch_new st config) ls bw" and "(t, Inr i) \<in> set (bw_replies bw)"
  shows "\<exists>r. r \<in># flushed ls \<and> wr_result_tx r = Some t \<and> ev_id (wr_event r) = i \<and>
      to_log_event ext (wr_event r) \<in># stored_rows ops rows (bw_store bw) (ev_tier (wr_event r))"
    and "\<forall>tier. request_rows ext (flushed ls) tier \<subseteq># stored_rows ops rows (bw_store bw) tier"
proof -
  have "bw_replies (batch_new st config) = []"
    by (simp add: batch_new_def Let_def)
  with batch_run_answers [OF assms(1-3)] have ok: "answers_ok ls bw" and kept: "rows_kept ops ext rows ls bw"
    by blast+
  from ok assms(4) obtain r where r: "r \<in># flushed ls" "wr_result_tx r = Some t" "ev_id (wr_event r) = i"
    by (force simp: answers_ok_def)
  have "to_log_event ext (wr_event r) \<in># request_rows ext (flushed ls) (ev_tier (wr_event r))"
    using r(1) by (auto simp: request_rows_def)
  then have "to_log_event ext (wr_event r) \<in># stored_rows ops rows (bw_store bw) (ev_tier (wr_event r))"
    using kept by (auto simp: rows_kept_def dest: mset_subset_eqD)
  with r show "\<exists>r. r \<in># flushed ls \<and> wr_result_tx r = Some t \<and> ev_id (wr_event r) = i \<and>
      to_log_event ext (wr_event r) \<in># stored_rows ops rows (bw_store bw) (ev_tier (wr_event r))" by blast
  show "\<forall>tier. request_rows ext (flushed ls) tier \<subseteq># stored_rows ops rows (bw_store bw) tier"
    using kept by (simp add: rows_kept_def)
qed

text \<open>
  C8: in every interleaving, an id is only ever acknowledged to a caller after the row of that
  caller's event is in its tier, where it stays; and the rows of all written requests are there,
  each as often as it was submitted.
\<close>

theorem acknowledged_is_stored:
  assumes "engine_keeps rows ops" and "\<forall>m. mset (ord m) = mset m"
    and "batch_run ops ext ord (batch_new st config) ls bw" and "(t, Inr i) \<in> set (bw_replies bw)"
  shows "(\<exists>r. r \<in># flushed ls \<and> wr_result_tx r = Some t \<and> ev_id (wr_event r) = i \<and>
      to_log_event ext (wr_event r) \<in># stored_rows ops rows (bw_store bw) (ev_tier (wr_event r))) \<and>
    (\<forall>tier. request_rows ext (flushed ls) tier \<subseteq># stored_rows ops rows (bw_store bw) tier)"
  using acknowledged_row [OF assms] by blast

section \<open>One answer channel per request\<close>

lemma loop_oneshots:
  "loop_tick ops ext ord i bw = (l, bw') \<Longrightarrow> bw_oneshots bw' = bw_oneshots bw"
  "loop_recv ops ext ord i bw = (l, bw') \<Longrightarrow> bw_oneshots bw' = bw_oneshots bw"
  "loop_closed ops ext ord i bw = (l, bw') \<Longrightarrow> bw_oneshots bw' = bw_oneshots bw"
  by (auto simp: loop_tick_def loop_recv_def loop_closed_def flush_shard_def Let_def split: if_splits prod.splits)

lemma loop_submits_nothing:
  "loop_tick ops ext ord i bw = (l, bw') \<Longrightarrow> submitted_in l = []"
  "loop_recv ops ext ord i bw = (l, bw') \<Longrightarrow> submitted_in l = []"
  "loop_closed ops ext ord i bw = (l, bw') \<Longrightarrow> submitted_in l = []"
  by (auto simp: loop_tick_def loop_recv_def loop_closed_def flush_shard_def Let_def split: if_splits prod.splits)

lemma batch_step_oneshots:
  assumes "batch_step ops ext ord bw l bw'"
  shows "bw_oneshots bw \<le> bw_oneshots bw' \<and>
    (\<forall>r\<in>set (submitted_in l). \<forall>t. wr_result_tx r = Some t \<longrightarrow> t = bw_oneshots bw \<and> t < bw_oneshots bw')"
  using assms
proof (cases rule: batch_step.cases)
  case (submit event req)
  then show ?thesis by (auto simp: send_request_def pick_shard_def Let_def)
next
  case (forget event req)
  then show ?thesis by (auto simp: write_fire_and_forget_def pick_shard_def push_request_def Let_def split: if_splits)
next
  case (refuse event e)
  then show ?thesis by (auto simp: write_fire_and_forget_def pick_shard_def push_request_def Let_def split: if_splits)
qed (auto simp: push_request_def rotator_tick_def loop_oneshots loop_submits_nothing)

section \<open>The invariant of the writer\<close>

text \<open>
  Every request is somewhere, no two share an answer channel, and the answers belong to settled
  requests. None of it depends on the store.
\<close>

definition distinct_channels :: "batch_event list \<Rightarrow> 'g batch_writer \<Rightarrow> bool" where
  "distinct_channels ls bw \<longleftrightarrow>
     (\<forall>r t. r \<in># submitted ls \<longrightarrow> wr_result_tx r = Some t \<longrightarrow> t < bw_oneshots bw) \<and>
     (\<forall>r r' t. r \<in># submitted ls \<longrightarrow> r' \<in># submitted ls \<longrightarrow>
        wr_result_tx r = Some t \<longrightarrow> wr_result_tx r' = Some t \<longrightarrow> r = r')"

definition writer_inv :: "batch_event list \<Rightarrow> 'g batch_writer \<Rightarrow> bool" where
  "writer_inv ls bw \<longleftrightarrow> batch_inv bw \<and> submitted ls = pending bw + flushed ls + failed ls + cancelled ls \<and>
     distinct_channels ls bw \<and> answers_ok ls bw"

lemma batch_step_channels:
  assumes "batch_step ops ext ord bw l bw'" and "distinct_channels ls bw"
  shows "distinct_channels (ls @ [l]) bw'"
proof -
  have "submitted_in l = [] \<or> (\<exists>r. submitted_in l = [r])" by (cases l) simp_all
  then show ?thesis
    using batch_step_oneshots [OF assms(1)] assms(2) by (auto simp: distinct_channels_def history_snoc)
qed

lemma batch_step_writer_inv:
  assumes "batch_step ops ext ord bw l bw'" and "writer_inv ls bw"
  shows "writer_inv (ls @ [l]) bw'"
proof -
  have "bw_shards bw \<noteq> []" using assms(2) by (simp add: writer_inv_def batch_inv_def)
  from batch_step_pending [OF assms(1) this] assms(2)
  have "submitted (ls @ [l]) = pending bw' + flushed (ls @ [l]) + failed (ls @ [l]) + cancelled (ls @ [l])"
    by (simp add: writer_inv_def history_snoc ac_simps)
  with assms(2) show ?thesis
    by (simp add: writer_inv_def batch_step_inv [OF assms(1)] batch_step_channels [OF assms(1)]
        batch_step_answers [OF assms(1)])
qed

lemma writer_inv_store [simp]: "writer_inv ls (bw \<lparr> bw_store := st \<rparr>) = writer_inv ls bw"
  by (simp add: writer_inv_def batch_inv_def shard_ok_def list_all_iff pending_def distinct_channels_def answers_ok_def)

lemma writer_inv_new: "writer_inv [] (batch_new st config)"
  by (simp add: writer_inv_def batch_new_inv pending_new distinct_channels_def answers_ok_def)
    (simp add: batch_new_def Let_def)

interpretation wi: step_invariant "batch_step ops ext ord" writer_inv for ops ext ord
  by unfold_locales (rule batch_step_writer_inv)

lemma batch_run_oneshots:
  assumes "batch_run ops ext ord (batch_new st config) ls bw"
  shows "distinct_channels ls bw"
  using wi.run_keeps [OF assms writer_inv_new] by (simp add: writer_inv_def)

lemma flushed_submitted:
  assumes "batch_run ops ext ord (batch_new st config) ls bw"
  shows "flushed ls \<subseteq># submitted ls"
proof -
  have "submitted ls = flushed ls + (pending bw + failed ls + cancelled ls)"
    using batch_run_pending [OF assms batch_new_inv] pending_new by (simp add: ac_simps)
  then show ?thesis by (metis mset_subset_eq_add_left)
qed

text \<open>A request that is answered with an id has its own row in the store, under that id.\<close>

lemma answered_request_stored:
  assumes "engine_keeps rows ops" and "\<forall>m. mset (ord m) = mset m"
    and run: "batch_run ops ext ord (batch_new st config) ls bw"
    and req: "req \<in># submitted ls" and answer: "write_result bw req = Inr i"
  shows "i = ev_id (wr_event req) \<and>
    to_log_event ext (wr_event req) \<in># stored_rows ops rows (bw_store bw) (ev_tier (wr_event req))"
proof -
  obtain t where t: "wr_result_tx req = Some t" and reply: "(t, Inr i) \<in> set (bw_replies bw)"
    using answer by (auto simp: write_result_def split: option.splits dest: map_of_SomeD)
  from acknowledged_row(1) [OF assms(1,2) run reply] obtain r where r: "r \<in># flushed ls" "wr_result_tx r = Some t"
    "ev_id (wr_event r) = i"
    "to_log_event ext (wr_event r) \<in># stored_rows ops rows (bw_store bw) (ev_tier (wr_event r))" by blast
  have "r \<in># submitted ls" using flushed_submitted [OF run] r(1) by (rule mset_subset_eqD)
  then have "r = req" using batch_run_oneshots [OF run] req t r(2) unfolding distinct_channels_def by blast
  with r show ?thesis by simp
qed

section \<open>Draining\<close>

definition backlog :: "'g batch_writer \<Rightarrow> nat" where
  "backlog bw = 3 * length (bw_waiting bw) +
     (\<Sum>s\<leftarrow>bw_shards bw. 2 * length (sh_queue s) + length (sh_buffer s))"

lemma sum_list_update_nat:
  "i < length xs \<Longrightarrow> (\<Sum>s\<leftarrow>xs[i := y]. f s :: nat) + f (xs ! i) = (\<Sum>s\<leftarrow>xs. f s) + f y"
proof (induction xs arbitrary: i)
  case (Cons x xs)
  then show ?case by (cases i) (simp_all add: ac_simps)
qed simp

lemma backlog_shard_update:
  assumes "i < length (bw_shards bw)"
    and "bw_shards bw' = (bw_shards bw)[i := s']" and "bw_waiting bw' = bw_waiting bw"
  shows "backlog bw' + (2 * length (sh_queue (bw_shards bw ! i)) + length (sh_buffer (bw_shards bw ! i))) =
    backlog bw + (2 * length (sh_queue s') + length (sh_buffer s'))"
  using sum_list_update_nat [OF assms(1), where y = s' and f = "\<lambda>s. 2 * length (sh_queue s) + length (sh_buffer s)"]
    assms(2,3)
  by (simp add: backlog_def)

lemma flush_shard_backlog:
  assumes "i < length (bw_shards bw)" and "flush_shard ops ext ord i bw = (l, bw')"
  shows "backlog bw' + length (sh_buffer (bw_shards bw ! i)) = backlog bw"
  using backlog_shard_update [OF assms(1), of bw' "(bw_shards bw ! i) \<lparr> sh_buffer := [] \<rparr>"]
    flush_shard_frame [OF assms(2)] by simp

lemma loop_recv_backlog:
  assumes "i < length (bw_shards bw)" and "sh_queue (bw_shards bw ! i) \<noteq> []"
    and "loop_recv ops ext ord i bw = (l, bw')"
  shows "backlog bw' < backlog bw"
proof -
  let ?s = "bw_shards bw ! i" and ?n = "take_count (bw_shard_batch_size bw) (bw_shards bw ! i)"
  let ?s1 = "?s \<lparr> sh_buffer := sh_buffer ?s @ take ?n (sh_queue ?s), sh_queue := drop ?n (sh_queue ?s) \<rparr>"
  let ?bw1 = "bw \<lparr> bw_shards := (bw_shards bw)[i := ?s1] \<rparr>"
  have "0 < ?n" by (simp add: take_count_def)
  moreover have "backlog ?bw1 + (2 * length (sh_queue ?s) + length (sh_buffer ?s)) =
      backlog bw + (2 * length (sh_queue ?s1) + length (sh_buffer ?s1))"
    by (rule backlog_shard_update [OF assms(1)]) simp_all
  moreover have "2 * length (sh_queue ?s1) + length (sh_buffer ?s1) < 2 * length (sh_queue ?s) + length (sh_buffer ?s)"
  proof -
    have "0 < length (sh_queue ?s)" using assms(2) by simp
    with \<open>0 < ?n\<close> show ?thesis by (cases "?n \<le> length (sh_queue ?s)") simp_all
  qed
  ultimately have less: "backlog ?bw1 < backlog bw" by linarith
  show ?thesis
  proof (cases "bw_shard_batch_size bw \<le> length (sh_buffer ?s1)")
    case True
    then have "flush_shard ops ext ord i ?bw1 = (l, bw')"
      using assms(3) by (simp add: loop_recv_def Let_def)
    with flush_shard_backlog [of i ?bw1] assms(1) have "backlog bw' \<le> backlog ?bw1" by fastforce
    with less show ?thesis by simp
  next
    case False
    with less assms(3) show ?thesis by (simp add: loop_recv_def Let_def)
  qed
qed

lemma admit_backlog:
  assumes "bw_waiting bw = (i, req) # ws" and "i < length (bw_shards bw)"
  shows "backlog (push_request (bw \<lparr> bw_waiting := ws \<rparr>) i req) < backlog bw"
proof -
  let ?bw = "bw \<lparr> bw_waiting := ws \<rparr>" and ?s = "bw_shards bw ! i"
  have "backlog (push_request ?bw i req) + (2 * length (sh_queue ?s) + length (sh_buffer ?s)) =
      backlog ?bw + (2 * length (sh_queue ?s @ [req]) + length (sh_buffer ?s))"
    using backlog_shard_update [of i ?bw "push_request ?bw i req" "?s \<lparr> sh_queue := sh_queue ?s @ [req] \<rparr>"] assms(2)
    by (simp add: push_request_def)
  moreover have "backlog bw = backlog ?bw + 3" using assms(1) by (simp add: backlog_def)
  ultimately show ?thesis by simp
qed

lemma empty_shards:
  "list_all (\<lambda>s. sh_queue s = [] \<and> sh_buffer s = []) ss \<Longrightarrow>
     (\<Sum>s\<leftarrow>ss. mset (sh_queue s) + mset (sh_buffer s)) = {#}"
  by (induction ss) auto

lemma pending_cases:
  assumes "batch_inv bw" and "pending bw \<noteq> {#}"
  obtains (buffered) i where "i < length (bw_shards bw)" "\<not> sh_done (bw_shards bw ! i)" "sh_buffer (bw_shards bw ! i) \<noteq> []"
  | (queued) i where "i < length (bw_shards bw)" "\<not> sh_done (bw_shards bw ! i)" "sh_queue (bw_shards bw ! i) \<noteq> []"
  | (waiting) i req ws where "bw_waiting bw = (i, req) # ws" "i < length (bw_shards bw)"
      "sh_queue (bw_shards bw ! i) = []"
proof (cases "\<exists>i < length (bw_shards bw). sh_queue (bw_shards bw ! i) \<noteq> [] \<or> sh_buffer (bw_shards bw ! i) \<noteq> []")
  case True
  then obtain i where i: "i < length (bw_shards bw)"
    "sh_queue (bw_shards bw ! i) \<noteq> [] \<or> sh_buffer (bw_shards bw ! i) \<noteq> []" by blast
  then have "\<not> sh_done (bw_shards bw ! i)"
    using batch_inv_shard [OF assms(1) i(1)] by (auto simp: shard_ok_def)
  with i show ?thesis using buffered queued by blast
next
  case False
  then have empty: "list_all (\<lambda>s. sh_queue s = [] \<and> sh_buffer s = []) (bw_shards bw)"
    by (auto simp: list_all_length)
  then have "bw_waiting bw \<noteq> []" using assms(2) by (auto simp: pending_def empty_shards)
  then obtain i req ws where w: "bw_waiting bw = (i, req) # ws" by (metis list.exhaust surj_pair)
  then have i: "i < length (bw_shards bw)" using assms(1) by (simp add: batch_inv_def)
  have "sh_queue (bw_shards bw ! i) = []" using empty i by (simp add: list_all_length)
  with w i show ?thesis by (rule waiting)
qed

lemma progress:
  assumes "batch_inv bw" and "pending bw \<noteq> {#}"
  shows "\<exists>l bw'. batch_step ops ext ord bw l bw' \<and> backlog bw' < backlog bw \<and> (\<forall>r. l \<noteq> Cancelled r)"
  using assms
proof (cases rule: pending_cases)
  case (buffered i)
  obtain l bw' where f: "flush_shard ops ext ord i bw = (l, bw')" by fastforce
  then have "batch_step ops ext ord bw l bw'"
    using buffered batch_step.tick [of i bw ops ext ord l bw'] by (simp add: loop_tick_def)
  moreover have "backlog bw' < backlog bw"
    using flush_shard_backlog [OF buffered(1) f] buffered(3) by (metis length_greater_0_conv less_add_same_cancel1)
  ultimately show ?thesis
    using flush_shard_settles [OF buffered(1) f] by (fastforce simp: settles_def)
next
  case (queued i)
  obtain l bw' where r: "loop_recv ops ext ord i bw = (l, bw')" by fastforce
  with queued have "batch_step ops ext ord bw l bw'" by (intro batch_step.recv)
  with loop_recv_backlog [OF queued(1,3) r] loop_recv_settles [OF queued(1) r] show ?thesis
    by (fastforce simp: settles_def)
next
  case (waiting i req ws)
  have "batch_step ops ext ord bw Quiet (push_request (bw \<lparr> bw_waiting := [] @ ws \<rparr>) i req)"
    using waiting assms(1) by (intro batch_step.admit) (auto simp: batch_inv_def)
  with admit_backlog [OF waiting(1,2)] show ?thesis by fastforce
qed

lemma can_drain:
  "batch_inv bw \<Longrightarrow> \<exists>ls bw'. batch_run ops ext ord bw ls bw' \<and> pending bw' = {#} \<and> cancelled ls = {#}"
proof (induction "backlog bw" arbitrary: bw rule: less_induct)
  case less
  show ?case
  proof (cases "pending bw = {#}")
    case True
    then show ?thesis using steps.start by fastforce
  next
    case False
    then obtain l bw1 where step: "batch_step ops ext ord bw l bw1" "backlog bw1 < backlog bw" "\<forall>r. l \<noteq> Cancelled r"
      using progress [OF less.prems] by blast
    have one: "batch_run ops ext ord bw [l] bw1"
      by (rule steps_one [where stp = "batch_step ops ext ord", OF step(1)])
    obtain ls bw' where "batch_run ops ext ord bw1 ls bw'" "pending bw' = {#}" "cancelled ls = {#}"
      using less.hyps [OF step(2) batch_step_inv [OF step(1) less.prems]] by blast
    moreover have "cancelled ([l] @ ls) = {#}"
      using step(3) \<open>cancelled ls = {#}\<close> by (cases l) (simp_all add: cancelled_def)
    ultimately show ?thesis using steps_append [OF _ one] by blast
  qed
qed


section \<open>Shutdown\<close>

lemma shutdown_wait_past: "deadline \<le> now \<Longrightarrow> shutdown_wait deadline now fs = (fs = [], map (\<lambda>_. True) fs)"
  by (induction fs) auto

lemma shutdown_wait_never:
  "now < deadline \<Longrightarrow> shutdown_wait deadline now (None # fs) = (False, False # map (\<lambda>_. True) fs)"
  by (simp add: shutdown_wait_past)


section \<open>A concrete run\<close>

definition one_shard :: batch_config where
  "one_shard = \<lparr> bc_batch_size = 4, bc_flush_interval_ms = 50, bc_channel_capacity = 2, bc_flush_shards = 1 \<rparr>"

definition sample_req :: write_request where
  "sample_req = \<lparr> wr_event = sample_event, wr_result_tx = Some 0 \<rparr>"

definition writer_at :: "nat \<Rightarrow> (nat \<times> write_request) list \<Rightarrow> write_request list \<Rightarrow> write_request list \<Rightarrow>
    (nat \<times> (store_error + event_id)) list \<Rightarrow> log_event list kdb_store \<Rightarrow> log_event list batch_writer" where
  "writer_at n waiting queue buffer replies st = \<lparr>
     bw_shards = [\<lparr> sh_queue = queue, sh_buffer = buffer, sh_done = False \<rparr>],
     bw_shard_capacity = 2, bw_shard_batch_size = 8, bw_next_tx = n, bw_shutdown = False,
     bw_dropped = False, bw_total_capacity = 2, bw_waiting = waiting, bw_oneshots = n,
     bw_replies = replies, bw_store = st \<rparr>"

definition stored_once :: "log_event list kdb_store" where
  "stored_once = empty_store \<lparr> ks_engines := [(''free'', [to_log_event sample_ext sample_event])] \<rparr>"

lemma sample_appended:
  "append_batch_durable list_engine sample_ext id empty_store [sample_event] = (Inr [EventId 7], stored_once)"
proof -
  have "rows_by_tier sample_ext [sample_event] = [(''free'', [to_log_event sample_ext sample_event])]"
    by (simp add: rows_by_tier_def hash_push_def entries_of_def) (simp add: sample_event_def)
  moreover have "ev_id sample_event = EventId 7" by (simp add: sample_event_def)
  ultimately show ?thesis
    by (simp add: append_batch_durable_def on_tier_def engine_for_def open_engine_def list_engine_def
        empty_store_def stored_once_def)
qed

lemma sample_run:
  "batch_run list_engine sample_ext id (batch_new empty_store one_shard)
     [Submitted sample_req, Quiet, Quiet, Flushed [sample_req]]
     (writer_at 1 [] [] [] [(0, Inr (EventId 7))] stored_once)"
proof -
  let ?run = "batch_run list_engine sample_ext id (batch_new empty_store one_shard)"
  let ?step = "batch_step list_engine sample_ext id"
  have "batch_new empty_store one_shard = writer_at 0 [] [] [] [] empty_store"
    by (simp add: batch_new_def one_shard_def writer_at_def div_ceil_def Let_def)
  then have r0: "?run [] (writer_at 0 [] [] [] [] empty_store)"
    using steps.start [of "batch_step list_engine sample_ext id" "batch_new empty_store one_shard"] by simp
  have s1: "?step (writer_at 0 [] [] [] [] empty_store) (Submitted sample_req)
      (writer_at 1 [(0, sample_req)] [] [] [] empty_store)"
    by (rule batch_step.submit [of _ sample_event])
      (simp_all add: writer_at_def send_request_def pick_shard_def sample_req_def Let_def)
  have s2: "?step (writer_at 1 [(0, sample_req)] [] [] [] empty_store) Quiet
      (writer_at 1 [] [sample_req] [] [] empty_store)"
    using batch_step.admit [of "writer_at 1 [(0, sample_req)] [] [] [] empty_store" "[]" 0 sample_req "[]"]
    by (simp add: writer_at_def push_request_def)
  have s3: "?step (writer_at 1 [] [sample_req] [] [] empty_store) Quiet
      (writer_at 1 [] [] [sample_req] [] empty_store)"
    by (rule batch_step.recv [of 0]) (simp_all add: writer_at_def loop_recv_def take_count_def Let_def)
  have s4: "?step (writer_at 1 [] [] [sample_req] [] empty_store) (Flushed [sample_req])
      (writer_at 1 [] [] [] [(0, Inr (EventId 7))] stored_once)"
  proof (rule batch_step.tick [of 0])
    have "append_only list_engine sample_ext id empty_store [sample_req] =
        (True, [(0, Inr (EventId 7))], stored_once)"
      using sample_appended by (simp add: append_only_def sample_req_def replies_to_def) (simp add: sample_event_def)
    then show "loop_tick list_engine sample_ext id 0 (writer_at 1 [] [] [sample_req] [] empty_store) =
        (Flushed [sample_req], writer_at 1 [] [] [] [(0, Inr (EventId 7))] stored_once)"
      by (simp add: loop_tick_def flush_shard_def writer_at_def Let_def)
  qed (simp_all add: writer_at_def)
  note r1 = steps.step [OF r0 s1]
  note r2 = steps.step [OF r1 s2]
  note r3 = steps.step [OF r2 s3]
  show ?thesis using steps.step [OF r3 s4] by (simp only: append.simps)
qed

lemma list_engine_keeps: "engine_keeps mset list_engine"
  using list_engine_laws(1) by (simp add: engine_keeps_def list_engine_def)


theorem acknowledged_is_stored_witness:
  "\<exists>r. r \<in># flushed [Submitted sample_req, Quiet, Quiet, Flushed [sample_req]] \<and>
     wr_result_tx r = Some 0 \<and> ev_id (wr_event r) = EventId 7 \<and>
     to_log_event sample_ext (wr_event r) \<in># stored_rows list_engine mset stored_once (ev_tier (wr_event r))"
proof -
  have "(0, Inr (EventId 7)) \<in> set (bw_replies (writer_at 1 [] [] [] [(0, Inr (EventId 7))] stored_once))"
    by (simp add: writer_at_def)
  from acknowledged_is_stored [OF list_engine_keeps _ sample_run this] show ?thesis
    by (simp add: writer_at_def)
qed



end
