(* ===== verification/Civil.thy ===== *)
theory Civil
  imports Prelude
begin

text \<open>
  Days and civil dates: the date arithmetic of \<open>crates/keplor-store/src/archive.rs\<close>. The
  days of a 400-year era are counted from the first of March, so that the leap day comes last.
  The unsigned 32-bit intermediate values are non-negative integers below \<open>2 ^ 32\<close>; no
  subtraction of the code goes below zero on them.
\<close>

definition year_of_era :: "int \<Rightarrow> int" where
  "year_of_era doe = (doe - doe div 1460 + doe div 36524 - doe div 146096) div 365"

definition day_of_year :: "int \<Rightarrow> int \<Rightarrow> int" where
  "day_of_year doe yoe = doe - (365 * yoe + yoe div 4 - yoe div 100)"

definition month_day :: "int \<Rightarrow> int \<times> int" where
  "month_day doy =
     (let mp = (5 * doy + 2) div 153;
          d = doy - (153 * mp + 2) div 5 + 1;
          m = (if mp < 10 then mp + 3 else mp - 9)
      in (m, d))"

definition civil_from_days :: "i64 \<Rightarrow> i64 \<times> int \<times> int" where
  "civil_from_days z =
     (let z = z + 719468;
          era = (if z \<ge> 0 then z else z - 146096) sdiv 146097;
          doe = z - era * 146097;
          yoe = year_of_era doe;
          y = yoe + era * 400;
          doy = day_of_year doe yoe;
          (m, d) = month_day doy;
          y = (if m \<le> 2 then y + 1 else y)
      in (y, m, d))"

definition ts_ns_to_day :: "i64 \<Rightarrow> str" where
  "ts_ns_to_day ts_ns =
     (let secs = ts_ns sdiv 1000000000;
          days_since_epoch = secs sdiv 86400;
          (y, m, d) = civil_from_days days_since_epoch
      in (if y < 0 then CHR ''-'' # zero_pad 3 (nat_to_string (nat (- y)))
          else zero_pad 4 (nat_to_string (nat y))) @
         ''-'' @ zero_pad 2 (nat_to_string (nat m)) @ ''-'' @ zero_pad 2 (nat_to_string (nat d)))"

section \<open>The calendar\<close>

definition is_leap :: "int \<Rightarrow> bool" where
  "is_leap y \<longleftrightarrow> y mod 4 = 0 \<and> (y mod 100 = 0 \<longrightarrow> y mod 400 = 0)"

definition month_len :: "int \<Rightarrow> int \<Rightarrow> int" where
  "month_len y m =
     (if m = 2 then (if is_leap y then 29 else 28)
      else if m = 4 \<or> m = 6 \<or> m = 9 \<or> m = 11 then 30 else 31)"

definition next_day :: "int \<times> int \<times> int \<Rightarrow> int \<times> int \<times> int" where
  "next_day = (\<lambda>(y, m, d).
     if d < month_len y m then (y, m, d + 1)
     else if m < 12 then (y, m + 1, 1)
     else (y + 1, 1, 1))"

section \<open>Years of an era\<close>

definition year_start :: "int \<Rightarrow> int" where
  "year_start y = 365 * y + y div 4 - y div 100"

definition year_len :: "int \<Rightarrow> int" where
  "year_len y = (if is_leap (y + 1) then 366 else 365)"

lemma year_len_pos: "0 < year_len y"
  by (simp add: year_len_def)

definition scaled :: "int \<Rightarrow> int" where
  "scaled n = n - n div 1460 + n div 36524 - n div 146096"

lemma div_next: "0 < k \<Longrightarrow> (n + 1) div k \<le> n div k + (1 :: int)"
  using zdiv_mono1 [of "n + 1" "n + k" k] div_add_self2 [of k n] by simp

lemma scaled_next: "scaled n \<le> scaled (n + 1)"
proof -
  define a b where "a = n div 36524" and "b = (n + 1) div 36524"
  have ab: "a \<le> b" "b \<le> a + 1"
    by (simp_all add: a_def b_def zdiv_mono1 div_next)
  have q: "n div 146096 = a div 4" "(n + 1) div 146096 = b div 4"
    using zdiv_zmult2_eq [of 4 n 36524] zdiv_zmult2_eq [of 4 "n + 1" 36524]
    by (simp_all add: a_def b_def)
  have "b = a \<or> b = a + 1" using ab by linarith
  then have "b - b div 4 \<ge> a - a div 4"
    using div_next [of 4 a] by (elim disjE) simp_all
  moreover have "scaled n = n - n div 1460 + (a - a div 4)"
    unfolding scaled_def q by (simp only: a_def algebra_simps)
  moreover have "scaled (n + 1) = n + 1 - (n + 1) div 1460 + (b - b div 4)"
    unfolding scaled_def q by (simp only: b_def algebra_simps)
  ultimately show ?thesis
    using div_next [of 1460 n] by linarith
qed

lemma scaled_mono: "m \<le> n \<Longrightarrow> scaled m \<le> scaled n"
  by (induction n rule: int_ge_induct) (auto intro: order_trans [OF _ scaled_next])

lemma year_of_era_mono: "m \<le> n \<Longrightarrow> year_of_era m \<le> year_of_era n"
  unfolding year_of_era_def scaled_def [symmetric] by (intro zdiv_mono1 scaled_mono) simp_all

lemma era_years_table:
  "list_all (\<lambda>y. year_of_era (year_start y) = y \<and>
     year_of_era (year_start y + year_len y - 1) = y \<and>
     year_start y + year_len y = (if y = 399 then 146097 else year_start (y + 1)) \<and>
     year_start y + year_len y \<le> 146097 \<and> 0 \<le> year_start y) [0..399]"
  by code_simp

lemma months_table:
  "list_all (\<lambda>doy. let (m, d) = month_day doy; (m', d') = month_day (doy + 1) in
     1 \<le> m \<and> m \<le> 12 \<and> 1 \<le> d \<and>
     (if m = 2 then (if doy < 364 then m' = 2 \<and> d' = d + 1 \<and> d < 28
          else d = doy - 336 \<and> (doy = 364 \<longrightarrow> m' = 2 \<and> d' = 29))
      else if d < month_len 1 m then m' = m \<and> d' = d + 1
      else d = month_len 1 m \<and> m' = (if m = 12 then 1 else m + 1) \<and> d' = 1)) [0..365]"
  by code_simp

lemma era_year:
  assumes "0 \<le> y" and "y < 400"
  shows "year_of_era (year_start y) = y" "year_of_era (year_start y + year_len y - 1) = y"
    "year_start y + year_len y = (if y = 399 then 146097 else year_start (y + 1))"
    "year_start y + year_len y \<le> 146097" "0 \<le> year_start y"
proof -
  have "y \<in> set [0..399]" using assms by simp
  then show "year_of_era (year_start y) = y" "year_of_era (year_start y + year_len y - 1) = y"
    "year_start y + year_len y = (if y = 399 then 146097 else year_start (y + 1))"
    "year_start y + year_len y \<le> 146097" "0 \<le> year_start y"
    using era_years_table unfolding list_all_iff by blast+
qed

lemma era_year_exists:
  "0 \<le> doe \<Longrightarrow> k \<le> 400 \<Longrightarrow> doe < (if k = 400 then 146097 else year_start (int k)) \<Longrightarrow>
     \<exists>y. 0 \<le> y \<and> y < int k \<and> year_start y \<le> doe \<and> doe < year_start y + year_len y"
proof (induction k)
  case 0
  then show ?case by (simp add: year_start_def)
next
  case (Suc k)
  show ?case
  proof (cases "year_start (int k) \<le> doe")
    case True
    with Suc.prems era_year(3) [of "int k"] show ?thesis
      by (intro exI [of _ "int k"]) (auto simp: add.commute split: if_splits)
  next
    case False
    with Suc show ?thesis by force
  qed
qed

lemma year_of_era_bounds:
  assumes "0 \<le> doe" and "doe < 146097"
  shows "0 \<le> year_of_era doe \<and> year_of_era doe < 400 \<and> year_start (year_of_era doe) \<le> doe \<and>
    doe < year_start (year_of_era doe) + year_len (year_of_era doe)"
proof -
  obtain y where y: "0 \<le> y" "y < 400" "year_start y \<le> doe" "doe < year_start y + year_len y"
    using era_year_exists [of doe 400] assms by auto
  have "year_of_era doe = y"
    using year_of_era_mono [of "year_start y" doe]
      year_of_era_mono [of doe "year_start y + year_len y - 1"] era_year [OF y(1,2)] y
    by simp
  with y show ?thesis by simp
qed

lemma year_of_era_unique:
  assumes "0 \<le> y" and "y < 400" and "0 \<le> doy" and "doy < year_len y"
  shows "year_of_era (year_start y + doy) = y"
  using year_of_era_mono [of "year_start y" "year_start y + doy"]
    year_of_era_mono [of "year_start y + doy" "year_start y + year_len y - 1"]
    era_year [OF assms(1,2)] assms
  by simp

section \<open>Dates from era, year and day\<close>

text \<open>The date of day \<open>doy\<close> of the March-based year \<open>yoe\<close> of an era.\<close>

definition date_of :: "int \<Rightarrow> int \<Rightarrow> int \<Rightarrow> int \<times> int \<times> int" where
  "date_of era yoe doy =
     (let (m, d) = month_day doy; y = yoe + era * 400 in (if m \<le> 2 then y + 1 else y, m, d))"

lemma floor_sdiv: "(if z \<ge> 0 then z else z - 146096) sdiv 146097 = (z :: int) div 146097"
proof (cases "z \<ge> 0")
  case False
  define q r where "q = z div 146097" and "r = z mod 146097"
  have z: "z = 146097 * q + r" "0 \<le> r" "r < 146097"
    by (simp_all add: q_def r_def)
  have split: "- z + 146096 = (146096 - r) + 146097 * (- q)"
    by (simp add: z(1))
  have "(- z + 146096) div 146097 = - q"
    unfolding split using z(2,3) by simp
  then have "- ((- z + 146096) div 146097) = z div 146097"
    by (simp add: q_def)
  with False show ?thesis
    by (simp add: signed_divide_int_def sgn_if)
qed (auto simp: signed_divide_int_def sgn_if)

lemma civil_from_days_eq:
  assumes "z + 719468 = era * 146097 + (year_start yoe + doy)"
    and "0 \<le> yoe" and "yoe < 400" and "0 \<le> doy" and "doy < year_len yoe"
  shows "civil_from_days z = date_of era yoe doy"
proof -
  have "year_start yoe + doy < 146097" "0 \<le> year_start yoe + doy"
    using era_year(4,5) [OF assms(2,3)] assms(4,5) by simp_all
  then have era: "(z + 719468) div 146097 = era"
    unfolding assms(1) by simp
  have yoe: "year_of_era (year_start yoe + doy) = yoe"
    by (rule year_of_era_unique [OF assms(2-5)])
  have doe: "z + 719468 - era * 146097 = year_start yoe + doy"
    using assms(1) by simp
  have doy: "day_of_year (year_start yoe + doy) yoe = doy"
    by (simp add: day_of_year_def year_start_def)
  show ?thesis
    unfolding civil_from_days_def Let_def floor_sdiv era doe yoe doy date_of_def ..
qed

lemma civil_cases:
  obtains era yoe doy where "z + 719468 = era * 146097 + (year_start yoe + doy)"
    and "0 \<le> yoe" and "yoe < 400" and "0 \<le> doy" and "doy < year_len yoe"
proof -
  define doe where "doe = (z + 719468) mod 146097"
  have doe: "0 \<le> doe" "doe < 146097"
    by (simp_all add: doe_def)
  note b = year_of_era_bounds [OF doe]
  show ?thesis
  proof (rule that)
    show "z + 719468 = (z + 719468) div 146097 * 146097 +
        (year_start (year_of_era doe) + (doe - year_start (year_of_era doe)))"
      by (simp add: doe_def)
  qed (use b in auto)
qed

lemma is_leap_era: "is_leap (y + era * 400) = is_leap y"
proof -
  have "(y + era * 400) mod 4 = y mod 4" "(y + era * 400) mod 100 = y mod 100"
    "(y + era * 400) mod 400 = y mod 400"
    using mod_mult_self1 [of y "era * 100" 4] mod_mult_self1 [of y "era * 4" 100]
      mod_mult_self1 [of y era 400] by (simp_all add: mult.commute)
  then show ?thesis by (simp add: is_leap_def)
qed

lemma next_in_year:
  assumes "0 \<le> doy" and "doy + 1 < year_len yoe"
  shows "next_day (date_of era yoe doy) = date_of era yoe (doy + 1)"
proof -
  obtain m d m' d' where md: "month_day doy = (m, d)" "month_day (doy + 1) = (m', d')"
    by fastforce
  have leap: "is_leap (yoe + era * 400 + 1) \<longleftrightarrow> is_leap (yoe + 1)"
    using is_leap_era [of "yoe + 1" era] by (simp add: algebra_simps)
  have len: "year_len yoe \<le> 366" "year_len yoe = 366 \<longleftrightarrow> is_leap (yoe + 1)"
    by (simp_all add: year_len_def)
  have row: "1 \<le> m \<and> m \<le> 12 \<and> 1 \<le> d \<and>
     (if m = 2 then (if doy < 364 then m' = 2 \<and> d' = d + 1 \<and> d < 28
          else d = doy - 336 \<and> (doy = 364 \<longrightarrow> m' = 2 \<and> d' = 29))
      else if d < month_len 1 m then m' = m \<and> d' = d + 1
      else d = month_len 1 m \<and> m' = (if m = 12 then 1 else m + 1) \<and> d' = 1)"
  proof -
    have "doy \<in> set [0..365]" using assms len by simp
    from bspec [OF months_table [unfolded list_all_iff] this] show ?thesis
      by (simp add: md)
  qed
  then have tab: "1 \<le> m" "m \<le> 12" "1 \<le> d"
    "m = 2 \<Longrightarrow> doy < 364 \<Longrightarrow> m' = 2 \<and> d' = d + 1 \<and> d < 28"
    "m = 2 \<Longrightarrow> \<not> doy < 364 \<Longrightarrow> d = doy - 336 \<and> (doy = 364 \<longrightarrow> m' = 2 \<and> d' = 29)"
    "m \<noteq> 2 \<Longrightarrow> d < month_len 1 m \<Longrightarrow> m' = m \<and> d' = d + 1"
    "m \<noteq> 2 \<Longrightarrow> \<not> d < month_len 1 m \<Longrightarrow>
       d = month_len 1 m \<and> m' = (if m = 12 then 1 else m + 1) \<and> d' = 1"
    by (simp_all split: if_splits)
  show ?thesis
  proof (cases "m = 2")
    case True
    have goal: "next_day (date_of era yoe doy) = next_day (yoe + era * 400 + 1, 2, d)"
      "date_of era yoe (doy + 1) = (if m' \<le> 2 then yoe + era * 400 + 1 else yoe + era * 400, m', d')"
      by (simp_all add: date_of_def md True)
    have "m' = 2 \<and> d' = d + 1 \<and> (d < 28 \<or> d = 28 \<and> is_leap (yoe + 1))"
      using tab(4,5) [OF True] assms(2) len by (cases "doy < 364") auto
    then show ?thesis
      unfolding goal using leap by (auto simp: next_day_def month_len_def)
  next
    case False
    have same: "month_len (yoe + era * 400) m = month_len 1 m"
      "month_len (yoe + era * 400 + 1) m = month_len 1 m"
      using False by (simp_all add: month_len_def)
    show ?thesis
    proof (cases "d < month_len 1 m")
      case True
      with tab(6) [OF False] show ?thesis
        by (simp add: date_of_def md next_day_def same Let_def)
    next
      case ge: False
      then have wrap: "\<not> d < month_len (yoe + era * 400) m" "\<not> d < month_len (yoe + era * 400 + 1) m"
        by (simp_all add: same)
      from tab(7) [OF False ge] have m': "m' = (if m = 12 then 1 else m + 1)" "d' = 1"
        by simp_all
      have "m = 1 \<or> 3 \<le> m \<and> m < 12 \<or> m = 12"
        using tab(1,2) False by linarith
      then show ?thesis
        using wrap by (auto simp: date_of_def md next_day_def Let_def m')
    qed
  qed
qed

lemma next_at_year_end:
  assumes "0 \<le> doy" and "doy + 1 = year_len yoe"
  shows "next_day (date_of era yoe doy) = (yoe + era * 400 + 1, 3, 1)"
proof -
  have leap: "is_leap (yoe + era * 400 + 1) \<longleftrightarrow> is_leap (yoe + 1)"
    using is_leap_era [of "yoe + 1" era] by (simp add: algebra_simps)
  have last: "month_day 365 = (2, 29)" "month_day 364 = (2, 28)"
    by (simp_all add: month_day_def)
  have "doy = (if is_leap (yoe + 1) then 365 else 364)"
    using assms by (auto simp: year_len_def split: if_splits)
  then have "date_of era yoe doy =
      (yoe + era * 400 + 1, 2, if is_leap (yoe + 1) then 29 else 28)"
    by (simp add: date_of_def last)
  then show ?thesis
    using leap by (simp add: next_day_def month_len_def)
qed

lemma civil_from_days_next: "civil_from_days (z + 1) = next_day (civil_from_days z)"
proof -
  obtain era yoe doy where z: "z + 719468 = era * 146097 + (year_start yoe + doy)"
    and b: "0 \<le> yoe" "yoe < 400" "0 \<le> doy" "doy < year_len yoe"
    by (rule civil_cases)
  have this_day: "civil_from_days z = date_of era yoe doy"
    by (rule civil_from_days_eq [OF z b])
  have march: "date_of e y 0 = (y + e * 400, 3, 1)" for e y
    by (simp add: date_of_def month_day_def)
  consider "doy + 1 < year_len yoe" | "doy + 1 = year_len yoe" "yoe < 399"
    | "doy + 1 = year_len yoe" "yoe = 399"
    using b by linarith
  then show ?thesis
  proof cases
    case 1
    have "civil_from_days (z + 1) = date_of era yoe (doy + 1)"
      using z b 1 by (intro civil_from_days_eq) auto
    then show ?thesis using next_in_year [OF b(3) 1] this_day by simp
  next
    case 2
    have "civil_from_days (z + 1) = date_of era (yoe + 1) 0"
      using z b 2 era_year(3) [OF b(1,2)] year_len_pos [of "yoe + 1"] by (intro civil_from_days_eq) auto
    then show ?thesis using next_at_year_end [OF b(3) 2(1)] this_day march by simp
  next
    case 3
    have "civil_from_days (z + 1) = date_of (era + 1) 0 0"
      using z b 3 era_year(3) [OF b(1,2)] year_len_pos [of 0]
      by (intro civil_from_days_eq) (auto simp: year_start_def)
    then show ?thesis using next_at_year_end [OF b(3) 3(1)] this_day march 3 by simp
  qed
qed

text \<open>
  C29: the date of day zero is 1970-01-01 and the date of each next day is its successor in the
  Gregorian calendar with its leap-year rule, for every day number, before the epoch too; so the
  date of any day is the one reached by counting days from the epoch.
\<close>

theorem civil_from_days_gregorian:
  "civil_from_days 0 = (1970, 1, 1) \<and> civil_from_days (z + 1) = next_day (civil_from_days z)"
proof
  show "civil_from_days 0 = (1970, 1, 1)" by code_simp
  show "civil_from_days (z + 1) = next_day (civil_from_days z)" by (rule civil_from_days_next)
qed

end
