(* ===== verification/Archive.thy ===== *)
theory Archive
  imports Kdb_Query Civil
begin

text \<open>
  The archiver: \<open>crates/keplor-store/src/archive.rs\<close>. Old events are grouped by user and day, cut
  into chunks, written as compressed JSON lines to an object store, recorded in the manifest log
  and only then deleted. The object store, the compressor and the JSON codec are parameters, and
  so is what the outside world gives to each chunk: a fresh archive id, the clock, and how the
  write to the manifest file ends.
\<close>

section \<open>The outside\<close>

record archive_s3_config =
  s3_bucket :: str
  s3_endpoint :: str
  s3_region :: str
  s3_access_key_id :: str
  s3_secret_access_key :: str
  s3_prefix :: str
  s3_path_style :: bool

record s3_builder =
  sb_bucket_name :: str
  sb_endpoint :: str
  sb_region :: str
  sb_access_key_id :: str
  sb_secret_access_key :: str
  sb_allow_http :: bool
  sb_virtual_hosted_style :: "bool option"

datatype object_error = NotFound str | ObjectError str

fun object_error_fmt :: "object_error \<Rightarrow> str" where
  "object_error_fmt (NotFound e) = e"
| "object_error_fmt (ObjectError e) = e"

record 'o object_ops =
  obj_build :: "s3_builder \<Rightarrow> str + 'o"
  obj_path :: "str \<Rightarrow> str"
  obj_put :: "'o \<Rightarrow> str \<Rightarrow> str \<Rightarrow> (str + unit) \<times> 'o"
  obj_head :: "'o \<Rightarrow> str \<Rightarrow> object_error + unit"
  obj_get :: "'o \<Rightarrow> str \<Rightarrow> str + (str + str)"

record archive_codec =
  ac_to_json :: "stored_event \<Rightarrow> str + str"
  ac_from_json :: "str \<Rightarrow> str + stored_event"
  ac_compress :: "str \<Rightarrow> str + str"
  ac_decompress :: "str \<Rightarrow> usize \<Rightarrow> str + str"
  ac_utf8_error :: "str \<Rightarrow> str"

record chunk_env =
  ce_archive_id :: str
  ce_now :: i64
  ce_append :: append_outcome

section \<open>The archiver\<close>

record ('g, 'o) archiver =
  ar_store :: "'g kdb_store"
  ar_client :: 'o
  ar_prefix :: str

definition build_s3_client :: "'o object_ops \<Rightarrow> archive_s3_config \<Rightarrow> store_error + 'o" where
  "build_s3_client oo config =
     (let builder = \<lparr> sb_bucket_name = s3_bucket config, sb_endpoint = s3_endpoint config,
            sb_region = s3_region config, sb_access_key_id = s3_access_key_id config,
            sb_secret_access_key = s3_secret_access_key config,
            sb_allow_http = (strip_prefix (s3_endpoint config) ''http://'' \<noteq> None),
            sb_virtual_hosted_style = (if s3_path_style config then Some False else None) \<rparr>
      in case obj_build oo builder of
           Inl e \<Rightarrow> Inl (ArchiveS3 (''build client: '' @ e)) | Inr client \<Rightarrow> Inr client)"

definition archiver_new :: "'o object_ops \<Rightarrow> 'g kdb_store \<Rightarrow> archive_s3_config \<Rightarrow>
    store_error + ('g, 'o) archiver" where
  "archiver_new oo st config =
     (case build_s3_client oo config of Inl e \<Rightarrow> Inl e
      | Inr client \<Rightarrow> Inr \<lparr> ar_store = st, ar_client = client, ar_prefix = s3_prefix config \<rparr>)"

definition probe :: "'o object_ops \<Rightarrow> ('g, 'o) archiver \<Rightarrow> store_error + unit" where
  "probe oo ar =
     (case obj_head oo (ar_client ar) (obj_path oo (ar_prefix ar @ ''/_probe'')) of
        Inr _ \<Rightarrow> Inr ()
      | Inl (NotFound _) \<Rightarrow> Inr ()
      | Inl e \<Rightarrow> Inl (ArchiveS3 (''probe failed: '' @ object_error_fmt e)))"

record archive_result =
  events_archived :: usize
  files_uploaded :: usize
  compressed_bytes :: usize
  events_failed :: usize

definition archive_result_default :: archive_result where
  "archive_result_default = \<lparr> events_archived = 0, files_uploaded = 0, compressed_bytes = 0, events_failed = 0 \<rparr>"

definition group_key :: "llm_event \<Rightarrow> str \<times> str" where
  "group_key event =
     ((case ev_user_id event of Some u \<Rightarrow> user_str u | None \<Rightarrow> ''_none''), ts_ns_to_day (ev_ts_ns event))"

definition group_events :: "llm_event list \<Rightarrow> ((str \<times> str) \<times> llm_event list) list" where
  "group_events events = fold (\<lambda>event groups. btree_push (group_key event) event groups) events []"

text \<open>The loop over a chunk: the lines, the least and greatest timestamp, the ids.\<close>

fun chunk_lines :: "archive_codec \<Rightarrow> externals \<Rightarrow> llm_event list \<Rightarrow> str \<Rightarrow> i64 \<Rightarrow> i64 \<Rightarrow> event_id list \<Rightarrow>
    store_error + str \<times> i64 \<times> i64 \<times> event_id list" where
  "chunk_lines ac ext [] jsonl min_ts max_ts ids = Inr (jsonl, min_ts, max_ts, ids)"
| "chunk_lines ac ext (event # events) jsonl min_ts max_ts ids =
     (case ac_to_json ac (stored_from ext event) of
        Inl e \<Rightarrow> Inl (StoreInternal (''json serialize: '' @ e))
      | Inr t \<Rightarrow> chunk_lines ac ext events (jsonl @ t @ [newline])
          (min min_ts (ev_ts_ns event)) (max max_ts (ev_ts_ns event)) (ids @ [ev_id event]))"

definition archive_key :: "str \<Rightarrow> str \<Rightarrow> str \<Rightarrow> str \<Rightarrow> str" where
  "archive_key pfx user day i =
     pfx @ ''/user_id='' @ user @ ''/day='' @ day @ ''/'' @ i @ ''.jsonl.zstd''"

definition archive_chunk :: "'o object_ops \<Rightarrow> archive_codec \<Rightarrow> externals \<Rightarrow> record_json \<Rightarrow> chunk_env \<Rightarrow>
    ('g, 'o) archiver \<Rightarrow> llm_event list \<Rightarrow> str \<Rightarrow> str \<Rightarrow>
    (store_error + usize \<times> event_id list) \<times> ('g, 'o) archiver" where
  "archive_chunk oo ac ext rj env ar chunk user_key day =
     (case chunk_lines ac ext chunk [] i64_max i64_min [] of
        Inl e \<Rightarrow> (Inl e, ar)
      | Inr (jsonl, min_ts, max_ts, ids) \<Rightarrow>
          (case ac_compress ac jsonl of
             Inl e \<Rightarrow> (Inl (StoreInternal (''zstd compress: '' @ e)), ar)
           | Inr compressed \<Rightarrow>
               (let s3_key = archive_key (ar_prefix ar) user_key day (ce_archive_id env) in
                case obj_put oo (ar_client ar) (obj_path oo s3_key) compressed of
                  (Inl e, client) \<Rightarrow>
                    (Inl (ArchiveS3 (''put '' @ s3_key @ '': '' @ e)), ar \<lparr> ar_client := client \<rparr>)
                | (Inr _, client) \<Rightarrow>
                    (let ar = ar \<lparr> ar_client := client \<rparr>;
                         manifest = \<lparr> am_archive_id = ce_archive_id env, am_user_id = user_key,
                           am_day = day, am_s3_key = s3_key, am_event_count = length chunk,
                           am_min_ts_ns = min_ts, am_max_ts_ns = max_ts,
                           am_compressed_bytes = length compressed, am_created_at = ce_now env \<rparr>
                     in case insert_archive_manifest rj (ce_append env) (ar_store ar) manifest of
                          (Inl e, st) \<Rightarrow> (Inl e, ar \<lparr> ar_store := st \<rparr>)
                        | (Inr _, st) \<Rightarrow> (Inr (length compressed, ids), ar \<lparr> ar_store := st \<rparr>)))))"

text \<open>\<open>slice::chunks\<close>, which panics on size zero.\<close>

fun chunks_of :: "usize \<Rightarrow> 'a list \<Rightarrow> 'a list list" where
  "chunks_of n [] = []"
| "chunks_of n (x # xs) = (x # take (n - 1) xs) # chunks_of n (drop (n - 1) xs)"

definition chunks :: "usize \<Rightarrow> 'a list \<Rightarrow> 'a list list run" where
  "chunks n xs = (if n = 0 then Panic else Ret (chunks_of n xs))"

text \<open>
  One chunk of the cycle. The state is the archiver, the number of chunks tried so far and the
  totals; \<open>env\<close> gives what the outside world supplies to each try.
\<close>

definition archive_step :: "'g engine_ops \<Rightarrow> 'o object_ops \<Rightarrow> archive_codec \<Rightarrow> externals \<Rightarrow> record_json \<Rightarrow>
    (nat \<Rightarrow> chunk_env) \<Rightarrow> str \<Rightarrow> str \<Rightarrow> llm_event list \<Rightarrow> ('g, 'o) archiver \<times> nat \<times> archive_result \<Rightarrow>
    ('g, 'o) archiver \<times> nat \<times> archive_result" where
  "archive_step ops oo ac ext rj env user_key day chunk = (\<lambda>(ar, n, total).
     case archive_chunk oo ac ext rj (env n) ar chunk user_key day of
       (Inr (compressed, ids), ar) \<Rightarrow>
         (case delete_events_by_ids ops ext (ar_store ar) ids of
            (Inl e, st) \<Rightarrow> (ar \<lparr> ar_store := st \<rparr>, n + 1, total)
          | (Inr _, st) \<Rightarrow> (ar \<lparr> ar_store := st \<rparr>, n + 1,
              total \<lparr> events_archived := events_archived total + length ids,
                files_uploaded := files_uploaded total + 1,
                compressed_bytes := compressed_bytes total + compressed \<rparr>))
     | (Inl e, ar) \<Rightarrow> (ar, n + 1, total \<lparr> events_failed := events_failed total + length chunk \<rparr>))"

fun archive_groups :: "'g engine_ops \<Rightarrow> 'o object_ops \<Rightarrow> archive_codec \<Rightarrow> externals \<Rightarrow> record_json \<Rightarrow>
    (nat \<Rightarrow> chunk_env) \<Rightarrow> usize \<Rightarrow> ((str \<times> str) \<times> llm_event list) list \<Rightarrow>
    ('g, 'o) archiver \<times> nat \<times> archive_result \<Rightarrow> (('g, 'o) archiver \<times> nat \<times> archive_result) run" where
  "archive_groups ops oo ac ext rj env batch_size [] s = Ret s"
| "archive_groups ops oo ac ext rj env batch_size (((user_key, day), events) # groups) s =
     run_bind (chunks batch_size events) (\<lambda>cs.
       archive_groups ops oo ac ext rj env batch_size groups
         (fold (archive_step ops oo ac ext rj env user_key day) cs s))"

definition archive_old_events :: "'g engine_ops \<Rightarrow> 'o object_ops \<Rightarrow> archive_codec \<Rightarrow> externals \<Rightarrow> record_json \<Rightarrow>
    (nat \<Rightarrow> chunk_env) \<Rightarrow> ('g, 'o) archiver \<Rightarrow> i64 \<Rightarrow> usize \<Rightarrow>
    ((store_error + archive_result) \<times> ('g, 'o) archiver) run" where
  "archive_old_events ops oo ac ext rj env ar older_than_ns batch_size =
     (case rollup_days_for_range (ar_store ar) 0 older_than_ns of Inl e \<Rightarrow> Ret (Inl e, ar) | Inr _ \<Rightarrow>
      (case query_events_for_archive ops ext (ar_store ar) older_than_ns of
         Panic \<Rightarrow> Panic
       | Ret (Inl e) \<Rightarrow> Ret (Inl e, ar)
       | Ret (Inr events) \<Rightarrow>
           if events = [] then Ret (Inr archive_result_default, ar)
           else run_bind (archive_groups ops oo ac ext rj env batch_size (group_events events)
                  (ar, 0, archive_result_default)) (\<lambda>(ar, _, total).
             (let _ = (if 0 < events_archived total then vacuum (ar_store ar) else Inr ()) in
              Ret (Inr total, ar)))))"

section \<open>Reading archives back\<close>

definition decompress_limit :: usize where
  "decompress_limit = 100 * 1024 * 1024"

fun parse_lines :: "archive_codec \<Rightarrow> externals \<Rightarrow> str list \<Rightarrow> store_error + llm_event list" where
  "parse_lines ac ext [] = Inr []"
| "parse_lines ac ext (line # lines) =
     (if line = [] then parse_lines ac ext lines
      else case ac_from_json ac line of
        Inl e \<Rightarrow> Inl (StoreInternal (''json parse: '' @ e))
      | Inr stored \<Rightarrow> res_bind (llm_try_from ext stored) (\<lambda>event.
          res_bind (parse_lines ac ext lines) (\<lambda>events. Inr (event # events))))"

definition fetch_one :: "'o object_ops \<Rightarrow> archive_codec \<Rightarrow> externals \<Rightarrow> ('g, 'o) archiver \<Rightarrow>
    archive_manifest \<Rightarrow> store_error + llm_event list" where
  "fetch_one oo ac ext ar manifest =
     (case obj_get oo (ar_client ar) (obj_path oo (am_s3_key manifest)) of
        Inl e \<Rightarrow> Inl (ArchiveS3 (''get '' @ am_s3_key manifest @ '': '' @ e))
      | Inr (Inl e) \<Rightarrow> Inl (ArchiveS3 (''read '' @ am_s3_key manifest @ '': '' @ e))
      | Inr (Inr compressed) \<Rightarrow>
          (case ac_decompress ac compressed decompress_limit of
             Inl e \<Rightarrow> Inl (StoreInternal (''zstd decompress: '' @ e))
           | Inr text \<Rightarrow>
               if is_utf8 text then parse_lines ac ext (buf_lines [] text)
               else Inl (StoreInternal (''invalid utf8: '' @ ac_utf8_error ac text))))"

fun fetch_archived_events :: "'o object_ops \<Rightarrow> archive_codec \<Rightarrow> externals \<Rightarrow> ('g, 'o) archiver \<Rightarrow>
    archive_manifest list \<Rightarrow> store_error + llm_event list" where
  "fetch_archived_events oo ac ext ar [] = Inr []"
| "fetch_archived_events oo ac ext ar (manifest # manifests) =
     res_bind (fetch_one oo ac ext ar manifest) (\<lambda>chunk.
       res_bind (fetch_archived_events oo ac ext ar manifests) (\<lambda>events. Inr (chunk @ events)))"

end
