(* ===== verification/Archive_Safe.thy ===== *)
theory Archive_Safe
  imports Archive
begin

text \<open>
  An archive cycle loses nothing: every row it takes from the store can be read back from a
  listed archive. The laws of the object store, the compressor and the JSON codec are stated
  first; then what one chunk does, then the invariant of the cycle.
\<close>

section \<open>Laws of the outside\<close>

definition object_law :: "'o object_ops \<Rightarrow> bool" where
  "object_law oo \<longleftrightarrow>
     (\<forall>c p d res c'. obj_put oo c p d = (res, c') \<longrightarrow>
        (res = Inr () \<longrightarrow> obj_get oo c' p = Inr (Inr d)) \<and>
        (\<forall>q. q \<noteq> p \<longrightarrow> obj_get oo c' q = obj_get oo c q))"

definition fresh_paths :: "'o object_ops \<Rightarrow> (nat \<Rightarrow> chunk_env) \<Rightarrow> str \<Rightarrow> bool" where
  "fresh_paths oo env pfx \<longleftrightarrow>
     (\<forall>i j u d u' d'. i \<noteq> j \<longrightarrow>
        obj_path oo (archive_key pfx u d (ce_archive_id (env i))) \<noteq>
        obj_path oo (archive_key pfx u' d' (ce_archive_id (env j))))"

definition codec_law :: "archive_codec \<Rightarrow> bool" where
  "codec_law ac \<longleftrightarrow>
     (\<forall>s t. ac_to_json ac s = Inr t \<longrightarrow> ac_from_json ac t = Inr s \<and>
        t \<noteq> [] \<and> is_utf8 t \<and> newline \<notin> set t \<and> CHR 0x0D \<notin> set t) \<and>
     (\<forall>x c. ac_compress ac x = Inr c \<longrightarrow> length x \<le> decompress_limit \<longrightarrow>
        ac_decompress ac c decompress_limit = Inr x)"

text \<open>Whatever a delete does, it leaves the rows with other ids alone.\<close>

definition delete_keeps :: "('g \<Rightarrow> log_event multiset) \<Rightarrow> 'g engine_ops \<Rightarrow> bool" where
  "delete_keeps rows ops \<longleftrightarrow>
     (\<forall>eng ids res eng'. eng_delete_events ops eng ids = (res, eng') \<longrightarrow>
        filter_mset (\<lambda>r. le_id r \<notin> set ids) (rows eng') = filter_mset (\<lambda>r. le_id r \<notin> set ids) (rows eng))"

text \<open>An event whose texts parse back and whose JSON text is shorter than a bound.\<close>

definition archivable :: "archive_codec \<Rightarrow> externals \<Rightarrow> nat \<Rightarrow> llm_event \<Rightarrow> bool" where
  "archivable ac ext bound e \<longleftrightarrow> stored_texts_parse ext e \<and>
     (case ac_to_json ac (stored_from ext e) of Inl _ \<Rightarrow> True | Inr t \<Rightarrow> length t < bound)"

section \<open>The text of a chunk\<close>

lemma utf8_char_len_append: "0 < utf8_char_len s \<Longrightarrow> utf8_char_len (s @ t) = utf8_char_len s"
proof (cases s)
  case (Cons a s1)
  assume pos: "0 < utf8_char_len s"
  consider "byte_in 0 127 a" | b s2 where "\<not> byte_in 0 127 a" "byte_in 194 223 a" "s1 = b # s2"
    | b c s3 where "\<not> byte_in 0 127 a" "\<not> byte_in 194 223 a" "s1 = b # c # s3"
    using pos Cons by (auto simp: utf8_char_len_def split: list.splits if_splits)
  then show ?thesis
  proof cases
    case 3
    then show ?thesis using pos Cons by (cases s3; cases "byte_in 224 239 a") (simp_all add: utf8_char_len_def)
  qed (simp_all add: Cons utf8_char_len_def)
qed (simp add: utf8_char_len_def)

lemma is_utf8_append: "is_utf8 s \<Longrightarrow> is_utf8 t \<Longrightarrow> is_utf8 (s @ t)"
proof (induction s rule: is_utf8.induct)
  case (1 s)
  show ?case
  proof (cases "s = []")
    case False
    then have n: "0 < utf8_char_len s" and rest: "is_utf8 (drop (utf8_char_len s) s)"
      using 1(2) by (auto simp: is_utf8.simps [of s] split: if_splits)
    have "is_utf8 (drop (utf8_char_len s) s @ t)"
      using 1(1) [OF False] n rest 1(3) by simp
    then show ?thesis
      using False n utf8_char_len_le [of s] by (simp add: is_utf8.simps [of "s @ t"] utf8_char_len_append)
  qed (use 1(3) in simp)
qed

definition chunk_text :: "str list \<Rightarrow> str" where
  "chunk_text ts = concat (map (\<lambda>t. t @ [newline]) ts)"

lemma chunk_lines_ok:
  "chunk_lines ac ext events jsonl lo hi ids = Inr (jsonl', lo', hi', ids') \<Longrightarrow>
   ids' = ids @ map ev_id events \<and>
   (\<exists>ts. list_all2 (\<lambda>e t. ac_to_json ac (stored_from ext e) = Inr t) events ts \<and>
      jsonl' = jsonl @ chunk_text ts)"
proof (induction events arbitrary: jsonl lo hi ids)
  case Nil
  then show ?case by (auto simp: chunk_text_def)
next
  case (Cons e events)
  then obtain t where t: "ac_to_json ac (stored_from ext e) = Inr t"
    and rest: "chunk_lines ac ext events (jsonl @ t @ [newline]) (min lo (ev_ts_ns e)) (max hi (ev_ts_ns e))
      (ids @ [ev_id e]) = Inr (jsonl', lo', hi', ids')"
    by (auto split: sum.splits)
  from Cons.IH [OF rest] obtain ts where
    "list_all2 (\<lambda>e t. ac_to_json ac (stored_from ext e) = Inr t) events ts"
    "jsonl' = (jsonl @ t @ [newline]) @ chunk_text ts" "ids' = (ids @ [ev_id e]) @ map ev_id events"
    by blast
  with t show ?case by (intro conjI exI [of _ "t # ts"]) (simp_all add: chunk_text_def)
qed

lemma is_utf8_newline: "is_utf8 [newline]"
  by (subst is_utf8.simps) (simp add: utf8_char_len_def byte_in_def newline_def)

lemma line_law:
  assumes "codec_law ac" and "ac_to_json ac s = Inr t"
  shows "is_utf8 (t @ [newline])" and "buf_lines [] (t @ newline # rest) = t # buf_lines [] rest"
proof -
  have t: "t \<noteq> []" "is_utf8 t" "newline \<notin> set t" "CHR 0x0D \<notin> set t"
    using assms by (auto simp: codec_law_def)
  show "is_utf8 (t @ [newline])" by (rule is_utf8_append [OF t(2) is_utf8_newline])
  have "strip_cr t = t" using t last_in_set [OF t(1)] by (metis strip_cr_def)
  then show "buf_lines [] (t @ newline # rest) = t # buf_lines [] rest"
    using buf_lines_no_newline [OF t(3), of "[]" "newline # rest"] by simp
qed

lemma chunk_text_reads_back:
  assumes "codec_law ac" and "list_all2 (\<lambda>e t. ac_to_json ac (stored_from ext e) = Inr t) events ts"
    and "list_all (archivable ac ext bound) events"
  shows "is_utf8 (chunk_text ts) \<and> parse_lines ac ext (buf_lines [] (chunk_text ts)) = Inr (map without_hashes events) \<and>
    length (chunk_text ts) \<le> length events * bound"
  using assms(2,3)
proof (induction rule: list_all2_induct)
  case Nil
  then show ?case by (simp add: chunk_text_def)
next
  case (Cons e events t ts)
  have eq: "chunk_text (t # ts) = t @ newline # chunk_text ts" by (simp add: chunk_text_def)
  have t: "ac_from_json ac t = Inr (stored_from ext e)" "t \<noteq> []"
    using assms(1) Cons.hyps(1) by (auto simp: codec_law_def)
  have e: "llm_try_from ext (stored_from ext e) = Inr (without_hashes e)" "length t < bound"
    using Cons.prems Cons.hyps(1) by (simp_all add: archivable_def llm_try_from_stored_from)
  have "is_utf8 (chunk_text (t # ts))"
    using is_utf8_append [OF line_law(1) [OF assms(1) Cons.hyps(1)], of "chunk_text ts"] Cons by (simp add: eq)
  moreover have "length (chunk_text (t # ts)) \<le> length (e # events) * bound"
    using Cons e(2) by (simp add: eq)
  ultimately show ?case
    using Cons t e by (simp add: eq line_law(2) [OF assms(1) Cons.hyps(1)])
qed

section \<open>One chunk\<close>

definition listed :: "('g, 'o) archiver \<Rightarrow> archive_manifest set" where
  "listed ar = set (concat (map snd (ms_entries (ks_manifests (ar_store ar)))))"

lemma set_btree_push: "set (concat (map snd (btree_push k v m))) = insert v (set (concat (map snd m)))"
  by (induction k v m rule: btree_push.induct) auto

lemma insert_manifest_ok:
  "insert_archive_manifest rj io st m = (Inr u, st') \<Longrightarrow> ks_engines st' = ks_engines st \<and>
     set (concat (map snd (ms_entries (ks_manifests st')))) =
       insert m (set (concat (map snd (ms_entries (ks_manifests st)))))"
  by (simp add: insert_archive_manifest_def manifest_insert_def index_manifest_def set_btree_push del: set_concat
      split: sum.splits append_outcome.splits) (auto simp: index_manifest_def set_btree_push simp del: set_concat)

lemma insert_manifest_error:
  "insert_archive_manifest rj io st m = (Inl e, st') \<Longrightarrow> ks_engines st' = ks_engines st \<and>
     ks_manifests st' = ks_manifests st"
  by (auto simp: insert_archive_manifest_def manifest_insert_def split: sum.splits append_outcome.splits)

text \<open>
  What a try at a chunk leaves alone: the engines, the listed archives, and what any object at
  another path reads as.
\<close>

lemma archive_chunk_shape:
  assumes "archive_chunk oo ac ext rj env ar chunk user day = (res, ar')"
  shows "ar' = ar \<or>
    (\<exists>d put client. obj_put oo (ar_client ar) (obj_path oo (archive_key (ar_prefix ar) user day (ce_archive_id env))) d = (put, client) \<and>
      (ar' = ar \<lparr> ar_client := client \<rparr> \<or>
       (\<exists>m ins st. insert_archive_manifest rj (ce_append env) (ar_store ar) m = (ins, st) \<and>
          ar' = ar \<lparr> ar_client := client, ar_store := st \<rparr>)))"
  using assms by (auto simp: archive_chunk_def Let_def split: sum.splits prod.splits) blast+

lemma insert_manifest_frame:
  "insert_archive_manifest rj io st m = (res, st') \<Longrightarrow> ks_engines st' = ks_engines st \<and>
     set (concat (map snd (ms_entries (ks_manifests st)))) \<subseteq> set (concat (map snd (ms_entries (ks_manifests st'))))"
  using insert_manifest_ok [of rj io st m _ st'] insert_manifest_error [of rj io st m _ st']
  by (cases res) auto

lemma archive_chunk_frame:
  assumes "object_law oo" and "archive_chunk oo ac ext rj env ar chunk user day = (res, ar')"
  shows "ar_prefix ar' = ar_prefix ar \<and> ks_engines (ar_store ar') = ks_engines (ar_store ar) \<and>
    listed ar \<subseteq> listed ar' \<and>
    (\<forall>m. obj_path oo (am_s3_key m) \<noteq> obj_path oo (archive_key (ar_prefix ar) user day (ce_archive_id env)) \<longrightarrow>
      fetch_one oo ac ext ar' m = fetch_one oo ac ext ar m)"
  using archive_chunk_shape [OF assms(2)]
proof (elim disjE exE conjE)
  fix d put client
  let ?p = "obj_path oo (archive_key (ar_prefix ar) user day (ce_archive_id env))"
  assume "obj_put oo (ar_client ar) ?p d = (put, client)"
  then have get: "q \<noteq> ?p \<Longrightarrow> obj_get oo client q = obj_get oo (ar_client ar) q" for q
    using assms(1) by (simp add: object_law_def)
  { assume "ar' = ar \<lparr> ar_client := client \<rparr>"
    then show ?thesis by (simp add: get fetch_one_def listed_def) }
  { fix m ins st
    assume "insert_archive_manifest rj (ce_append env) (ar_store ar) m = (ins, st)"
      and "ar' = ar \<lparr> ar_client := client, ar_store := st \<rparr>"
    then show ?thesis
      using insert_manifest_frame [of rj "ce_append env" "ar_store ar" m ins st]
      by (simp add: get fetch_one_def listed_def) }
qed simp

lemma archive_chunk_success:
  assumes "archive_chunk oo ac ext rj env ar chunk user day = (Inr (bytes, ids), ar')"
  obtains jsonl lo hi compressed m where "chunk_lines ac ext chunk [] i64_max i64_min [] = Inr (jsonl, lo, hi, ids)"
    and "ac_compress ac jsonl = Inr compressed"
    and "obj_put oo (ar_client ar) (obj_path oo (am_s3_key m)) compressed = (Inr (), ar_client ar')"
    and "am_s3_key m = archive_key (ar_prefix ar) user day (ce_archive_id env)" and "m \<in> listed ar'"
proof -
  obtain jsonl lo hi compressed client st where lines: "chunk_lines ac ext chunk [] i64_max i64_min [] = Inr (jsonl, lo, hi, ids)"
    and compressed: "ac_compress ac jsonl = Inr compressed"
    and put: "obj_put oo (ar_client ar) (obj_path oo (archive_key (ar_prefix ar) user day (ce_archive_id env))) compressed = (Inr (), client)"
    and manifest: "insert_archive_manifest rj (ce_append env) (ar_store ar)
      \<lparr> am_archive_id = ce_archive_id env, am_user_id = user, am_day = day,
        am_s3_key = archive_key (ar_prefix ar) user day (ce_archive_id env), am_event_count = length chunk,
        am_min_ts_ns = lo, am_max_ts_ns = hi, am_compressed_bytes = length compressed,
        am_created_at = ce_now env \<rparr> = (Inr (), st)" (is "insert_archive_manifest _ _ _ ?m = _")
    and ar': "ar' = ar \<lparr> ar_client := client, ar_store := st \<rparr>"
    using assms by (auto simp: archive_chunk_def Let_def split: sum.splits prod.splits)
  have "?m \<in> listed ar'"
    using insert_manifest_ok [OF manifest] by (simp add: listed_def ar')
  with that [OF lines compressed, of ?m] put ar' show ?thesis by simp
qed

lemma archive_chunk_archives:
  assumes "object_law oo" and "codec_law ac"
    and "list_all (archivable ac ext bound) chunk" and "length chunk * bound \<le> decompress_limit"
    and "archive_chunk oo ac ext rj env ar chunk user day = (Inr (bytes, ids), ar')"
  shows "ids = map ev_id chunk \<and>
    (\<exists>m\<in>listed ar'. am_s3_key m = archive_key (ar_prefix ar) user day (ce_archive_id env) \<and>
      fetch_one oo ac ext ar' m = Inr (map without_hashes chunk))"
proof -
  from assms(5) obtain jsonl lo hi compressed m where lines: "chunk_lines ac ext chunk [] i64_max i64_min [] = Inr (jsonl, lo, hi, ids)"
    and compressed: "ac_compress ac jsonl = Inr compressed"
    and put: "obj_put oo (ar_client ar) (obj_path oo (am_s3_key m)) compressed = (Inr (), ar_client ar')"
    and m: "am_s3_key m = archive_key (ar_prefix ar) user day (ce_archive_id env)" "m \<in> listed ar'"
    by (rule archive_chunk_success)
  from chunk_lines_ok [OF lines] obtain ts where ids: "ids = map ev_id chunk"
    and ts: "list_all2 (\<lambda>e t. ac_to_json ac (stored_from ext e) = Inr t) chunk ts" and jsonl: "jsonl = chunk_text ts"
    by auto
  note reads = chunk_text_reads_back [OF assms(2) ts assms(3)]
  have "obj_get oo (ar_client ar') (obj_path oo (am_s3_key m)) = Inr (Inr compressed)"
    using assms(1) put by (simp add: object_law_def)
  moreover have "ac_decompress ac compressed decompress_limit = Inr jsonl"
    using assms(2,4) compressed reads by (auto simp: codec_law_def jsonl)
  ultimately have "fetch_one oo ac ext ar' m = Inr (map without_hashes chunk)"
    using reads by (simp add: fetch_one_def jsonl)
  with m ids show ?thesis by blast
qed

section \<open>The cycle\<close>

text \<open>The ids of the events that can be read back from a listed archive.\<close>

definition readable_ids :: "'o object_ops \<Rightarrow> archive_codec \<Rightarrow> externals \<Rightarrow> ('g, 'o) archiver \<Rightarrow> str set" where
  "readable_ids oo ac ext ar = {s. \<exists>m\<in>listed ar. \<exists>es. fetch_one oo ac ext ar m = Inr es \<and>
     s \<in> (\<lambda>e. event_id_fmt (ulid_to_string ext) (ev_id e)) ` set es}"

text \<open>Those among them that the first \<open>n\<close> tries of the cycle wrote.\<close>

definition written_ids :: "'o object_ops \<Rightarrow> archive_codec \<Rightarrow> externals \<Rightarrow> (nat \<Rightarrow> chunk_env) \<Rightarrow> nat \<Rightarrow>
    ('g, 'o) archiver \<Rightarrow> str set" where
  "written_ids oo ac ext env n ar = {s. \<exists>m\<in>listed ar. \<exists>es k u d. k < n \<and>
     am_s3_key m = archive_key (ar_prefix ar) u d (ce_archive_id (env k)) \<and>
     fetch_one oo ac ext ar m = Inr es \<and> s \<in> (\<lambda>e. event_id_fmt (ulid_to_string ext) (ev_id e)) ` set es}"

definition rows_outside :: "str set \<Rightarrow> ('g \<Rightarrow> log_event multiset) \<Rightarrow> 'g kdb_store \<Rightarrow> log_event multiset" where
  "rows_outside A rows st = filter_mset (\<lambda>r. le_id r \<notin> A) (engine_rows rows st)"

lemma rows_outside_mono:
  assumes "rows_outside A rows st = rows_outside A rows st'" and "A \<subseteq> B"
  shows "rows_outside B rows st = rows_outside B rows st'"
proof -
  have B: "rows_outside B rows s = filter_mset (\<lambda>r. le_id r \<notin> B) (rows_outside A rows s)" for s
    using assms(2) by (auto simp: rows_outside_def filter_filter_mset intro!: filter_mset_cong)
  show ?thesis unfolding B assms(1) ..
qed

lemma each_engine_keeps:
  assumes "\<And>eng res eng'. act eng = (res, eng') \<Longrightarrow> filter_mset P (rows eng') = filter_mset P (rows eng)"
  shows "each_engine act es = (res, es') \<Longrightarrow>
    filter_mset P (\<Sum>p\<leftarrow>es'. rows (snd p)) = filter_mset P (\<Sum>p\<leftarrow>es. rows (snd p))"
proof (induction es arbitrary: res es')
  case (Cons p es)
  obtain tier eng where p: "p = (tier, eng)" by (cases p)
  obtain r eng' where act: "act eng = (r, eng')" by fastforce
  obtain rs es1 where rest: "each_engine act es = (rs, es1)" by fastforce
  show ?case
    using Cons.prems assms [OF act] Cons.IH [OF rest] act rest p
    by (cases r; cases rs) auto
qed simp

lemma delete_events_by_ids_keeps:
  assumes "delete_keeps rows ops" and "delete_events_by_ids ops ext st ids = (res, st')"
  shows "ks_manifests st' = ks_manifests st \<and>
    rows_outside (event_id_fmt (ulid_to_string ext) ` set ids) rows st' =
    rows_outside (event_id_fmt (ulid_to_string ext) ` set ids) rows st"
proof (cases "ids = []")
  case False
  let ?fmt = "event_id_fmt (ulid_to_string ext)"
  let ?act = "\<lambda>eng. eng_delete_events ops eng (map ?fmt ids)"
  obtain r es where each: "each_engine ?act (ks_engines st) = (r, es)" by fastforce
  have "filter_mset (\<lambda>r. le_id r \<notin> ?fmt ` set ids) (rows eng') = filter_mset (\<lambda>r. le_id r \<notin> ?fmt ` set ids) (rows eng)"
    if "?act eng = (res, eng')" for eng res eng'
    using assms(1) that unfolding delete_keeps_def set_map [symmetric] by blast
  from each_engine_keeps [OF this each] False assms(2) each show ?thesis
    by (auto simp: delete_events_by_ids_def over_engines_def rows_outside_def engine_rows_def all_engines_def
        comp_def Let_def split: sum.splits)
qed (use assms(2) in \<open>simp add: delete_events_by_ids_def\<close>)

lemma written_ids_frame:
  assumes "ar_prefix ar' = ar_prefix ar" and "listed ar \<subseteq> listed ar'" and "fresh_paths oo env (ar_prefix ar)"
    and "\<And>m. obj_path oo (am_s3_key m) \<noteq> obj_path oo (archive_key (ar_prefix ar) user day (ce_archive_id (env n))) \<Longrightarrow>
      fetch_one oo ac ext ar' m = fetch_one oo ac ext ar m"
  shows "written_ids oo ac ext env n ar \<subseteq> written_ids oo ac ext env (Suc n) ar'"
proof
  fix s assume "s \<in> written_ids oo ac ext env n ar"
  then obtain m es k u d where m: "m \<in> listed ar" "k < n"
    "am_s3_key m = archive_key (ar_prefix ar) u d (ce_archive_id (env k))" "fetch_one oo ac ext ar m = Inr es"
    "s \<in> (\<lambda>e. event_id_fmt (ulid_to_string ext) (ev_id e)) ` set es"
    by (auto simp: written_ids_def)
  have "k \<noteq> n" using m(2) by simp
  with assms(3) have "obj_path oo (am_s3_key m) \<noteq> obj_path oo (archive_key (ar_prefix ar) user day (ce_archive_id (env n)))"
    unfolding m(3) fresh_paths_def by blast
  from assms(4) [OF this] m(4) have "fetch_one oo ac ext ar' m = Inr es" by simp
  moreover have "m \<in> listed ar'" "k < Suc n" using m(1,2) assms(2) by auto
  ultimately show "s \<in> written_ids oo ac ext env (Suc n) ar'"
    unfolding written_ids_def using m(3,5) assms(1) by (intro CollectI bexI exI conjI) auto
qed

definition cycle_inv :: "'o object_ops \<Rightarrow> archive_codec \<Rightarrow> externals \<Rightarrow> (nat \<Rightarrow> chunk_env) \<Rightarrow>
    ('g \<Rightarrow> log_event multiset) \<Rightarrow> ('g, 'o) archiver \<Rightarrow> ('g, 'o) archiver \<times> nat \<times> archive_result \<Rightarrow> bool" where
  "cycle_inv oo ac ext env rows ar0 = (\<lambda>(ar, n, total).
     ar_prefix ar = ar_prefix ar0 \<and>
     rows_outside (written_ids oo ac ext env n ar) rows (ar_store ar) =
     rows_outside (written_ids oo ac ext env n ar) rows (ar_store ar0))"

lemma archive_step_inv:
  assumes laws: "object_law oo" "codec_law ac" "delete_keeps rows ops" "fresh_paths oo env (ar_prefix ar0)"
    and chunk: "list_all (archivable ac ext bound) chunk" "length chunk * bound \<le> decompress_limit"
    and inv: "cycle_inv oo ac ext env rows ar0 (ar, n, acc)"
  shows "cycle_inv oo ac ext env rows ar0 (archive_step ops oo ac ext rj env user day chunk (ar, n, acc))"
proof -
  obtain res ar1 where step: "archive_chunk oo ac ext rj (env n) ar chunk user day = (res, ar1)" by fastforce
  note frame = archive_chunk_frame [OF laws(1) step]
  have pfx: "ar_prefix ar = ar_prefix ar0" using inv by (simp add: cycle_inv_def)
  let ?W = "written_ids oo ac ext env n ar" and ?W1 = "written_ids oo ac ext env (Suc n) ar1"
  have W: "?W \<subseteq> ?W1"
    by (rule written_ids_frame [where user = user and day = day]) (use frame pfx laws(4) in simp_all)
  have "rows_outside ?W rows (ar_store ar1) = rows_outside ?W rows (ar_store ar)"
    using frame by (simp add: rows_outside_def engine_rows_def all_engines_def)
  then have "rows_outside ?W rows (ar_store ar1) = rows_outside ?W rows (ar_store ar0)"
    using inv by (simp add: cycle_inv_def)
  from rows_outside_mono [OF this W]
  have kept: "rows_outside ?W1 rows (ar_store ar1) = rows_outside ?W1 rows (ar_store ar0)" .
  show ?thesis
  proof (cases res)
    case (Inl e)
    then show ?thesis using step frame pfx kept by (simp add: archive_step_def cycle_inv_def)
  next
    case (Inr p)
    obtain bytes ids where p: "p = (bytes, ids)" by (cases p)
    obtain dres st where del: "delete_events_by_ids ops ext (ar_store ar1) ids = (dres, st)" by fastforce
    have ok: "archive_chunk oo ac ext rj (env n) ar chunk user day = (Inr (bytes, ids), ar1)"
      using step Inr p by simp
    have "event_id_fmt (ulid_to_string ext) ` set ids \<subseteq> ?W1"
    proof -
      from archive_chunk_archives [OF laws(1,2) chunk ok] obtain m where ids: "ids = map ev_id chunk"
        and m: "m \<in> listed ar1" "am_s3_key m = archive_key (ar_prefix ar1) user day (ce_archive_id (env n))"
          "fetch_one oo ac ext ar1 m = Inr (map without_hashes chunk)"
        using frame by auto
      have "event_id_fmt (ulid_to_string ext) ` set ids =
          (\<lambda>e. event_id_fmt (ulid_to_string ext) (ev_id e)) ` set (map without_hashes chunk)"
        by (simp add: ids image_image without_hashes_def)
      with m show ?thesis unfolding written_ids_def by blast
    qed
    from rows_outside_mono [OF conjunct2 [OF delete_events_by_ids_keeps [OF laws(3) del]] this] kept
    have "rows_outside ?W1 rows st = rows_outside ?W1 rows (ar_store ar0)" by simp
    moreover have "written_ids oo ac ext env (Suc n) (ar1 \<lparr> ar_store := st \<rparr>) = ?W1"
      using delete_events_by_ids_keeps [OF laws(3) del]
      by (simp add: written_ids_def listed_def fetch_one_def)
    ultimately show ?thesis
      using ok del frame pfx by (cases dres) (simp_all add: archive_step_def cycle_inv_def)
  qed
qed

lemma chunks_of_concat: "concat (chunks_of n xs) = xs"
  by (induction n xs rule: chunks_of.induct) simp_all

lemma chunks_of_length: "0 < n \<Longrightarrow> c \<in> set (chunks_of n xs) \<Longrightarrow> length c \<le> n"
  by (induction n xs rule: chunks_of.induct) auto

lemma archive_fold_inv:
  assumes laws: "object_law oo" "codec_law ac" "delete_keeps rows ops" "fresh_paths oo env (ar_prefix ar0)"
    and "list_all (\<lambda>c. list_all (archivable ac ext bound) c \<and> length c * bound \<le> decompress_limit) cs"
    and "cycle_inv oo ac ext env rows ar0 s"
  shows "cycle_inv oo ac ext env rows ar0 (fold (archive_step ops oo ac ext rj env user day) cs s)"
  using assms(5,6)
proof (induction cs arbitrary: s)
  case (Cons c cs)
  obtain ar n acc where s: "s = (ar, n, acc)" by (cases s)
  have "cycle_inv oo ac ext env rows ar0 (archive_step ops oo ac ext rj env user day c s)"
    unfolding s by (rule archive_step_inv [OF laws, where bound = bound]) (use Cons.prems s in simp_all)
  with Cons show ?case by simp
qed simp

lemma chunk_limits:
  assumes "0 < batch_size" and "batch_size * bound \<le> decompress_limit"
    and "list_all P events" and "c \<in> set (chunks_of batch_size events)"
  shows "list_all P c" and "length c * bound \<le> decompress_limit"
proof -
  have "set c \<subseteq> set events"
    using assms(4) chunks_of_concat [of batch_size events] by (metis UN_upper set_concat)
  then show "list_all P c" using assms(3) by (auto simp: list_all_iff)
  have "length c * bound \<le> batch_size * bound" using chunks_of_length [OF assms(1,4)] by simp
  then show "length c * bound \<le> decompress_limit" using assms(2) by (rule order_trans)
qed

lemma archive_groups_inv:
  assumes laws: "object_law oo" "codec_law ac" "delete_keeps rows ops" "fresh_paths oo env (ar_prefix ar0)"
    and batch: "0 < batch_size" "batch_size * bound \<le> decompress_limit"
    and "list_all (\<lambda>g. list_all (archivable ac ext bound) (snd g)) groups"
    and "cycle_inv oo ac ext env rows ar0 s"
  shows "\<exists>s'. archive_groups ops oo ac ext rj env batch_size groups s = Ret s' \<and>
    cycle_inv oo ac ext env rows ar0 s'"
  using assms(7,8)
proof (induction groups arbitrary: s)
  case (Cons g groups)
  obtain user day events where g: "g = ((user, day), events)" by (metis prod.exhaust)
  have "list_all (archivable ac ext bound) c \<and> length c * bound \<le> decompress_limit"
    if "c \<in> set (chunks_of batch_size events)" for c
    using chunk_limits [OF batch _ that, of "archivable ac ext bound"] Cons.prems(1) g by simp
  then have "cycle_inv oo ac ext env rows ar0
      (fold (archive_step ops oo ac ext rj env user day) (chunks_of batch_size events) s)"
    by (intro archive_fold_inv [OF laws, where bound = bound] Cons.prems(2)) (simp add: list_all_iff)
  from Cons.IH [OF _ this] Cons.prems(1) show ?case
    using batch(1) by (simp add: g chunks_def)
qed simp

lemma group_events_grouped: "group_events events = bt.grouped group_key events"
  by (simp add: group_events_def bt.grouped_def)

lemma readable_written: "written_ids oo ac ext env n ar \<subseteq> readable_ids oo ac ext ar"
  unfolding written_ids_def readable_ids_def by blast

text \<open>
  C7: with a positive chunk size the archive cycle ends without a panic, and it loses nothing,
  whichever uploads, manifest writes and deletes fail: the rows whose event cannot be read back
  from a listed archive are exactly those that were there before, as long as a chunk of JSON
  lines stays below the limit the reader decompresses to.
\<close>

theorem archive_loses_nothing:
  assumes laws: "object_law oo" "codec_law ac" "delete_keeps rows ops" "fresh_paths oo env (ar_prefix ar)"
    and batch: "0 < batch_size" "batch_size * bound \<le> decompress_limit"
    and events: "query_events_for_archive ops ext (ar_store ar) older_than_ns = Ret (Inr events)"
      "list_all (archivable ac ext bound) events"
  shows "\<exists>res ar'. archive_old_events ops oo ac ext rj env ar older_than_ns batch_size = Ret (Inr res, ar') \<and>
    filter_mset (\<lambda>r. le_id r \<notin> readable_ids oo ac ext ar') (engine_rows rows (ar_store ar')) =
    filter_mset (\<lambda>r. le_id r \<notin> readable_ids oo ac ext ar') (engine_rows rows (ar_store ar))"
proof (cases "events = []")
  case True
  then show ?thesis using events(1) by (simp add: archive_old_events_def rollup_days_for_range_def)
next
  case False
  have "list_all (\<lambda>g. list_all (archivable ac ext bound) (snd g)) (group_events events)"
    using events(2) by (auto simp: group_events_grouped bt.in_grouped_iff list_all_iff)
  from archive_groups_inv [OF laws batch this, of "(ar, 0, archive_result_default)" rj]
  obtain ar' n total where groups: "archive_groups ops oo ac ext rj env batch_size (group_events events)
      (ar, 0, archive_result_default) = Ret (ar', n, total)"
    and inv: "cycle_inv oo ac ext env rows ar (ar', n, total)"
    by (auto simp: cycle_inv_def)
  have "rows_outside (written_ids oo ac ext env n ar') rows (ar_store ar') =
      rows_outside (written_ids oo ac ext env n ar') rows (ar_store ar)"
    using inv by (simp add: cycle_inv_def)
  from rows_outside_mono [OF this readable_written] show ?thesis
    using False events(1) groups by (simp add: archive_old_events_def rollup_days_for_range_def rows_outside_def)
qed

section \<open>A concrete cycle\<close>

definition map_objects :: "(str \<times> str) list object_ops" where
  "map_objects = \<lparr> obj_build = (\<lambda>_. Inr []), obj_path = id,
     obj_put = (\<lambda>c p d. (Inr (), map_put p d c)),
     obj_head = (\<lambda>c p. if map_of c p = None then Inl (NotFound p) else Inr ()),
     obj_get = (\<lambda>c p. case map_of c p of None \<Rightarrow> Inl ''404'' | Some d \<Rightarrow> Inr (Inr d)) \<rparr>"

definition one_event_codec :: archive_codec where
  "one_event_codec = \<lparr>
     ac_to_json = (\<lambda>s. if s = stored_from sample_ext (persisted sample_event) then Inr ''{}'' else Inl ''no''),
     ac_from_json = (\<lambda>t. if t = ''{}'' then Inr (stored_from sample_ext (persisted sample_event)) else Inl ''no''),
     ac_compress = Inr, ac_decompress = (\<lambda>c n. Inr c), ac_utf8_error = (\<lambda>_. []) \<rparr>"

definition nth_env :: "nat \<Rightarrow> chunk_env" where
  "nth_env n = \<lparr> ce_archive_id = replicate n (CHR ''a''), ce_now = 0, ce_append = Appended \<rparr>"

definition sample_archiver :: "(log_event list, (str \<times> str) list) archiver" where
  "sample_archiver = \<lparr> ar_store = empty_store \<lparr> ks_engines := [(''free'', [to_log_event sample_ext sample_event])] \<rparr>,
     ar_client = [], ar_prefix = ''events'' \<rparr>"

lemma map_objects_law: "object_law map_objects"
  by (simp add: object_law_def map_objects_def map_of_map_put)

lemma one_event_codec_law: "codec_law one_event_codec"
  by (simp add: codec_law_def one_event_codec_def is_utf8.simps [of "''{}''"] is_utf8.simps [of "''}''"]
      utf8_char_len_def byte_in_def newline_def)

lemma list_engine_delete_keeps: "delete_keeps mset list_engine"
  by (simp add: delete_keeps_def list_engine_def filter_filter_mset)

lemma nth_env_fresh: "fresh_paths map_objects nth_env pfx"
proof -
  have last_segment: "takeWhile (\<lambda>c. c \<noteq> CHR ''/'') (rev (archive_key pfx u d (replicate n (CHR ''a'')))) =
      rev ''.jsonl.zstd'' @ replicate n (CHR ''a'')" for u d n
    by (simp add: archive_key_def takeWhile_append)
  show ?thesis
    unfolding fresh_paths_def
  proof (intro allI impI notI)
    fix i j u d u' d'
    assume ne: "i \<noteq> (j :: nat)"
    assume "obj_path map_objects (archive_key pfx u d (ce_archive_id (nth_env i))) =
      obj_path map_objects (archive_key pfx u' d' (ce_archive_id (nth_env j)))"
    then have "rev ''.jsonl.zstd'' @ replicate i (CHR ''a'') = rev ''.jsonl.zstd'' @ replicate j (CHR ''a'')"
      using last_segment [of u d i] last_segment [of u' d' j] by (simp add: nth_env_def map_objects_def)
    with ne show False by simp
  qed
qed

lemma sample_archive_events:
  "query_events_for_archive list_engine sample_ext (ar_store sample_archiver) 1800000000000000000 =
     Ret (Inr [persisted sample_event])"
proof -
  have "row_matches (query_filter_default \<lparr> qf_to_ts_ns := Some 1800000000000000000 \<rparr>) (to_log_event sample_ext sample_event)"
    by (auto simp: row_matches_def query_filter_default_def to_log_event_def Let_def list_all_iff)
      (simp_all add: sample_event_def)
  then show ?thesis
    by (simp add: query_events_for_archive_def sample_archiver_def all_engines_def list_engine_def newest_first_def
        sample_row_decodes u64_max_def)
qed

theorem archive_loses_nothing_witness:
  "\<exists>res ar'. archive_old_events list_engine map_objects one_event_codec sample_ext sample_rj nth_env sample_archiver
      1800000000000000000 10000 = Ret (Inr res, ar') \<and>
    filter_mset (\<lambda>r. le_id r \<notin> readable_ids map_objects one_event_codec sample_ext ar') (engine_rows mset (ar_store ar')) =
    filter_mset (\<lambda>r. le_id r \<notin> readable_ids map_objects one_event_codec sample_ext ar')
      (engine_rows mset (ar_store sample_archiver))"
proof -
  have "list_all (archivable one_event_codec sample_ext 3) [persisted sample_event]"
    by (simp add: archivable_def one_event_codec_def stored_texts_parse_def persisted_def sample_ext_def)
      (simp add: sample_event_def)
  moreover have "(0 :: nat) < 10000" "10000 * 3 \<le> decompress_limit" by (simp_all add: decompress_limit_def)
  ultimately show ?thesis
    using archive_loses_nothing [OF map_objects_law one_event_codec_law list_engine_delete_keeps nth_env_fresh
        _ _ sample_archive_events] by blast
qed

text \<open>
  The reader's limit binds: a chunk whose text is longer is uploaded, listed and reported as
  archived, so its rows are deleted, and can never be read back.
\<close>

lemma oversized_archive_unreadable:
  assumes "object_law oo" and "archive_chunk oo ac ext rj env ar chunk user day = (Inr (bytes, ids), ar')"
    and "\<And>x c. ac_compress ac x = Inr c \<Longrightarrow> decompress_limit < length x \<Longrightarrow> ac_decompress ac c decompress_limit = Inl e"
    and "chunk_lines ac ext chunk [] i64_max i64_min [] = Inr (jsonl, lo, hi, ids)" and "decompress_limit < length jsonl"
  shows "\<exists>m\<in>listed ar'. am_s3_key m = archive_key (ar_prefix ar) user day (ce_archive_id env) \<and>
    fetch_one oo ac ext ar' m = Inl (StoreInternal (''zstd decompress: '' @ e))"
proof -
  from assms(2) obtain compressed m where compressed: "ac_compress ac jsonl = Inr compressed"
    and put: "obj_put oo (ar_client ar) (obj_path oo (am_s3_key m)) compressed = (Inr (), ar_client ar')"
    and m: "am_s3_key m = archive_key (ar_prefix ar) user day (ce_archive_id env)" "m \<in> listed ar'"
    using assms(4) by (auto elim!: archive_chunk_success)
  have "fetch_one oo ac ext ar' m = Inl (StoreInternal (''zstd decompress: '' @ e))"
    using assms(1) put assms(3) [OF compressed assms(5)] by (simp add: fetch_one_def object_law_def)
  with m show ?thesis by blast
qed

end
