(* ===== verification/Pipeline.thy ===== *)
theory Pipeline
  imports Batch_Durable Validate Normalize Compute Idempotency
begin

text \<open>
  The ingestion pipeline: \<open>crates/keplor-server/src/pipeline.rs\<close>. A request is validated,
  normalised, priced and handed to the batch writer. A durable ingest waits for the writer in the
  middle, while other requests run, so it is two operations: what happens before the wait and
  what happens after it, given how the wait ended. Metrics and log lines are left out.
\<close>

section \<open>Environment and state\<close>

text \<open>The code outside, and what one request reads from it: clocks, a fresh id, a lock.\<close>

record ('g, 'c) pipe_env =
  pe_ops :: "'g engine_ops"
  pe_ext :: externals
  pe_hex_decode :: "str \<Rightarrow> u8 list option"
  pe_rfc3339 :: "str \<Rightarrow> str + int"
  pe_lru :: "'c lru_ops"
  pe_hash :: "str \<Rightarrow> u64"

record pipe_call =
  pc_validate_now :: i64
  pc_now_ns :: i64
  pc_ulid :: nat
  pc_size_now :: i64
  pc_size_lock_free :: bool
  pc_instant :: nat

definition DEFAULT_COST_OPTS :: cost_opts where
  "DEFAULT_COST_OPTS = \<lparr> is_batch = False, opts_service_tier = TierStandard, opts_inference_geo = Us,
     opts_cache_ttl = Minutes5, opts_context_bucket = ContextStandard \<rparr>"

definition DEFAULT_WRITE_TIMEOUT :: nat where
  "DEFAULT_WRITE_TIMEOUT = 10 * 1000000000"

record ('g, 'c) pipeline =
  pl_writer :: "'g batch_writer"
  pl_catalog :: catalog
  pl_idempotency :: "'c idempotency_cache option"
  pl_max_db_bytes :: u64
  pl_write_timeout :: nat

definition pipeline_new :: "'g batch_writer \<Rightarrow> catalog \<Rightarrow> ('g, 'c) pipeline" where
  "pipeline_new writer cat = \<lparr> pl_writer = writer, pl_catalog = cat, pl_idempotency = None,
     pl_max_db_bytes = 0, pl_write_timeout = DEFAULT_WRITE_TIMEOUT \<rparr>"

definition with_max_db_size_mb :: "u64 \<Rightarrow> ('g, 'c) pipeline \<Rightarrow> ('g, 'c) pipeline" where
  "with_max_db_size_mb mb p = p \<lparr> pl_max_db_bytes := (mb * 1024 * 1024) mod 2 ^ 64 \<rparr>"

definition with_idempotency :: "'c idempotency_cache \<Rightarrow> ('g, 'c) pipeline \<Rightarrow> ('g, 'c) pipeline" where
  "with_idempotency cache p = p \<lparr> pl_idempotency := Some cache \<rparr>"

definition with_write_timeout :: "nat \<Rightarrow> ('g, 'c) pipeline \<Rightarrow> ('g, 'c) pipeline" where
  "with_write_timeout timeout p = p \<lparr> pl_write_timeout := timeout \<rparr>"

section \<open>Steps of a request\<close>

text \<open>A byte count in megabytes with one decimal, as \<open>{:.1}\<close> prints the quotient of doubles.\<close>

definition fmt_mb :: "u64 \<Rightarrow> str" where
  "fmt_mb n =
     (case f64_div (f64_of_int (int n)) (f64_of_int (1024 * 1024)) of
        Fin x \<Rightarrow> (let t = nat (round_half_even (10 * x)) in
          nat_to_string (t div 10) @ ''.'' @ nat_to_string (t mod 10))
      | _ \<Rightarrow> [])"

definition check_db_size :: "('g, 'c) pipe_env \<Rightarrow> pipe_call \<Rightarrow> ('g, 'c) pipeline \<Rightarrow>
    (server_error + unit) \<times> ('g, 'c) pipeline" where
  "check_db_size env call p =
     (if pl_max_db_bytes p = 0 then (Inr (), p)
      else case db_size_bytes (pe_ops env) (pc_size_now call) (pc_size_lock_free call) (bw_store (pl_writer p)) of
        (res, st) \<Rightarrow>
          (case res of
             Inr bytes \<Rightarrow> if pl_max_db_bytes p \<le> bytes
               then Inl (StorageFull (''database size '' @ fmt_mb bytes @ '' MB exceeds limit of '' @
                 fmt_mb (pl_max_db_bytes p) @ '' MB''))
               else Inr ()
           | Inl _ \<Rightarrow> Inr (),
           p \<lparr> pl_writer := (pl_writer p) \<lparr> bw_store := st \<rparr> \<rparr>))"

definition usage_from_ingest :: "ingest_usage \<Rightarrow> usage" where
  "usage_from_ingest u = usage_default \<lparr>
     input_tokens := iu_input_tokens u, output_tokens := iu_output_tokens u,
     cache_read_input_tokens := iu_cache_read_input_tokens u,
     cache_creation_input_tokens := iu_cache_creation_input_tokens u,
     reasoning_tokens := iu_reasoning_tokens u, audio_input_tokens := iu_audio_input_tokens u,
     audio_output_tokens := iu_audio_output_tokens u, image_tokens := iu_image_tokens u,
     tool_use_tokens := iu_tool_use_tokens u \<rparr>"

definition price_event :: "('g, 'c) pipeline \<Rightarrow> provider \<Rightarrow> str \<Rightarrow> usage \<Rightarrow> i64 run" where
  "price_event p provider model u =
     run_bind (catalog_lookup (pl_catalog p) (from_normalized model)) (\<lambda>found.
       case found of
         Some pricing \<Rightarrow> Ret (nanodollars (compute_cost provider pricing u DEFAULT_COST_OPTS))
       | None \<Rightarrow> Ret 0)"

definition parse_iso8601 :: "('g, 'c) pipe_env \<Rightarrow> str \<Rightarrow> server_error + i64" where
  "parse_iso8601 env s =
     (case pe_rfc3339 env s of
        Inl e \<Rightarrow> Inl (InvalidTimestamp (s @ '': '' @ e))
      | Inr nanos \<Rightarrow> Inr (wrap_i64 nanos))"

definition error_from_ingest :: "ingest_error \<Rightarrow> provider_error" where
  "error_from_ingest e =
     (let msg = (case ie_message e of Some m \<Rightarrow> m | None \<Rightarrow> []) in
      if ie_kind e = ''rate_limited'' then RateLimited None
      else if ie_kind e = ''invalid_request'' then InvalidRequest msg
      else if ie_kind e = ''auth_failed'' then AuthFailed
      else if ie_kind e = ''context_length_exceeded'' then ContextLengthExceeded 0
      else if ie_kind e = ''content_filtered'' then ContentFiltered msg
      else if ie_kind e = ''upstream_timeout'' then UpstreamTimeout
      else if ie_kind e = ''upstream_unavailable'' then UpstreamUnavailable
      else OtherError (case ie_status e of Some s \<Rightarrow> s | None \<Rightarrow> 0) msg)"

definition flags_from_ingest :: "ingest_flags \<Rightarrow> u32" where
  "flags_from_ingest f =
     set_flag (if_cache_used f) CACHED_USED (set_flag (if_stream_incomplete f) STREAM_INCOMPLETE
       (set_flag (if_reasoning f) REASONING (set_flag (if_tool_calls f) TOOL_CALLS
         (set_flag (if_streaming f) STREAMING 0))))"

definition build_llm_event :: "('g, 'c) pipe_env \<Rightarrow> pipe_call \<Rightarrow> ingest_event \<Rightarrow> provider \<Rightarrow> str \<Rightarrow> i64 \<Rightarrow>
    usage \<Rightarrow> str \<Rightarrow> server_error + llm_event" where
  "build_llm_event env call event provider model cost u tier =
     (let now_ns = pc_now_ns call in
      res_bind (case in_timestamp event of
          Some (EpochNanos ns) \<Rightarrow> Inr ns
        | Some (Iso8601 s) \<Rightarrow> parse_iso8601 env s
        | None \<Rightarrow> Inr now_ns) (\<lambda>ts_ns.
      Inr \<lparr> ev_id = EventId (pc_ulid call), ev_ts_ns = ts_ns,
        ev_user_id = map_option UserId (in_user_id event),
        ev_api_key_id = map_option ApiKeyId (in_api_key_id event),
        ev_org_id = map_option OrgId (in_org_id event),
        ev_project_id = map_option ProjectId (in_project_id event),
        ev_route_id = RouteId (case in_route_id event of Some r \<Rightarrow> r | None \<Rightarrow> ''default''),
        ev_provider = provider, ev_model = model, ev_model_family = None,
        ev_endpoint = in_endpoint event,
        ev_method = (case method_from_bytes (pe_ext env) (in_method event) of Some m \<Rightarrow> m | None \<Rightarrow> ''POST''),
        ev_http_status = in_http_status event, ev_usage = u, ev_cost_nanodollars = cost,
        ev_latency = \<lparr> ttft_ms = il_ttft_ms (in_latency event), total_ms = il_total_ms (in_latency event),
          time_to_close_ms = il_time_to_close_ms (in_latency event) \<rparr>,
        ev_flags = flags_from_ingest (in_flags event),
        ev_error = map_option error_from_ingest (in_error event),
        ev_request_sha256 = replicate 32 0, ev_response_sha256 = replicate 32 0,
        ev_client_ip = Option.bind (in_client_ip event) (ip_from_str (pe_ext env)),
        ev_user_agent = in_user_agent event, ev_request_id = in_request_id event,
        ev_trace_id = Option.bind (in_trace_id event) (\<lambda>s.
          case trace_id_from_str (pe_hex_decode env) s of Inl _ \<Rightarrow> None | Inr t \<Rightarrow> Some t),
        ev_source = in_source event, ev_ingested_at = now_ns,
        ev_metadata = in_metadata event, ev_tier = tier \<rparr>))"

type_synonym processed = "llm_event \<times> provider \<times> str \<times> i64"

definition process_event :: "('g, 'c) pipe_env \<Rightarrow> pipe_call \<Rightarrow> ('g, 'c) pipeline \<Rightarrow> ingest_event \<Rightarrow>
    str option \<Rightarrow> str \<Rightarrow> (server_error + processed) run" where
  "process_event env call p event authenticated_key_id tier =
     (let event = (case authenticated_key_id of
            Some key_id \<Rightarrow> event \<lparr> in_api_key_id := Some key_id \<rparr> | None \<Rightarrow> event) in
      case validate (pe_ext env) (pc_validate_now call) event of Inl e \<Rightarrow> Ret (Inl e) | Inr _ \<Rightarrow>
      (let provider = normalize_provider (in_provider event);
           model = normalize_model (in_model event);
           u = usage_from_ingest (in_usage event)
       in run_bind (case in_cost_nanodollars event of
              Some c \<Rightarrow> Ret c | None \<Rightarrow> price_event p provider model u) (\<lambda>cost.
          case build_llm_event env call event provider model cost u tier of
            Inl e \<Rightarrow> Ret (Inl e)
          | Inr llm_event \<Rightarrow> Ret (Inr (llm_event, provider, model, cost)))))"

definition response_for :: "('g, 'c) pipe_env \<Rightarrow> event_id \<Rightarrow> provider \<Rightarrow> str \<Rightarrow> i64 \<Rightarrow> ingest_response" where
  "response_for env i provider model cost = \<lparr> resp_id = event_id_fmt (ulid_to_string (pe_ext env)) i,
     resp_cost_nanodollars = cost, resp_model = model, resp_provider = id_key provider \<rparr>"

section \<open>Durable ingest\<close>

definition idem_lookup :: "('g, 'c) pipe_env \<Rightarrow> pipe_call \<Rightarrow> ('g, 'c) pipeline \<Rightarrow> str option \<Rightarrow>
    ingest_response option \<times> ('g, 'c) pipeline" where
  "idem_lookup env call p idempotency_key =
     (case (idempotency_key, pl_idempotency p) of
        (Some key, Some cache) \<Rightarrow>
          (case idem_get (pe_lru env) (pe_hash env) cache (pc_instant call) key of
             (cache, found) \<Rightarrow> (found, p \<lparr> pl_idempotency := Some cache \<rparr>))
      | _ \<Rightarrow> (None, p))"

definition idem_remember :: "('g, 'c) pipe_env \<Rightarrow> pipe_call \<Rightarrow> ('g, 'c) pipeline \<Rightarrow> str option \<Rightarrow>
    ingest_response \<Rightarrow> ('g, 'c) pipeline" where
  "idem_remember env call p idempotency_key resp =
     (case (idempotency_key, pl_idempotency p) of
        (Some key, Some cache) \<Rightarrow>
          p \<lparr> pl_idempotency := Some (idem_insert (pe_lru env) (pe_hash env) cache (pc_instant call) key resp) \<rparr>
      | _ \<Rightarrow> p)"

text \<open>Up to the wait: the request is answered already, or its event goes to the writer.\<close>

datatype ingest_progress = Replied "server_error + ingest_response" | Writing processed

definition ingest_begin :: "('g, 'c) pipe_env \<Rightarrow> pipe_call \<Rightarrow> ('g, 'c) pipeline \<Rightarrow> ingest_event \<Rightarrow>
    str option \<Rightarrow> str option \<Rightarrow> str \<Rightarrow> (ingest_progress \<times> ('g, 'c) pipeline) run" where
  "ingest_begin env call p event authenticated_key_id idempotency_key tier =
     (case idem_lookup env call p idempotency_key of
        (Some cached, p) \<Rightarrow> Ret (Replied (Inr cached), p)
      | (None, p) \<Rightarrow>
          (case check_db_size env call p of
             (Inl e, p) \<Rightarrow> Ret (Replied (Inl e), p)
           | (Inr _, p) \<Rightarrow>
               run_bind (process_event env call p event authenticated_key_id tier) (\<lambda>res.
                 case res of Inl e \<Rightarrow> Ret (Replied (Inl e), p) | Inr q \<Rightarrow> Ret (Writing q, p))))"

text \<open>How the wait ended, and the rest of the request.\<close>

datatype 'r wait = TimedOut | Answered 'r

definition timeout_text :: "('g, 'c) pipeline \<Rightarrow> str" where
  "timeout_text p = ''write timed out after '' @ nat_to_string (pl_write_timeout p div 1000000000) @ ''s''"

definition ingest_end :: "('g, 'c) pipe_env \<Rightarrow> pipe_call \<Rightarrow> ('g, 'c) pipeline \<Rightarrow> str option \<Rightarrow> processed \<Rightarrow>
    (store_error + event_id) wait \<Rightarrow> (server_error + ingest_response) \<times> ('g, 'c) pipeline" where
  "ingest_end env call p idempotency_key q w =
     (case w of
        TimedOut \<Rightarrow> (Inl (Internal (timeout_text p)), p)
      | Answered (Inl e) \<Rightarrow> (Inl (StoreErr e), p)
      | Answered (Inr i) \<Rightarrow>
          (case q of (_, provider, model, cost) \<Rightarrow>
             (let resp = response_for env i provider model cost in
              (Inr resp, idem_remember env call p idempotency_key resp))))"

section \<open>Batches\<close>

text \<open>
  The vectors of \<open>ingest_batch_durable\<close>: the events to write, what their responses need, the
  positions they came from, and the results known so far.
\<close>

record batch_acc =
  ba_llm_events :: "llm_event list"
  ba_responses :: "(provider \<times> str \<times> i64) list"
  ba_ok_indices :: "usize list"
  ba_results :: "(server_error + ingest_response) option list"

fun process_batch :: "('g, 'c) pipe_env \<Rightarrow> (nat \<Rightarrow> pipe_call) \<Rightarrow> ('g, 'c) pipeline \<Rightarrow> str option \<Rightarrow> str \<Rightarrow>
    usize \<Rightarrow> ingest_event list \<Rightarrow> batch_acc \<Rightarrow> batch_acc run" where
  "process_batch env calls p authenticated_key_id tier i [] acc = Ret acc"
| "process_batch env calls p authenticated_key_id tier i (event # events) acc =
     run_bind (process_event env (calls i) p event authenticated_key_id tier) (\<lambda>res.
       process_batch env calls p authenticated_key_id tier (i + 1) events
         (case res of
            Inr (llm_event, provider, model, cost) \<Rightarrow>
              acc \<lparr> ba_responses := ba_responses acc @ [(provider, model, cost)],
                ba_llm_events := ba_llm_events acc @ [llm_event],
                ba_ok_indices := ba_ok_indices acc @ [i] \<rparr>
          | Inl e \<Rightarrow> acc \<lparr> ba_results := (ba_results acc)[i := Some (Inl e)] \<rparr>))"

definition batch_acc_new :: "usize \<Rightarrow> batch_acc" where
  "batch_acc_new n = \<lparr> ba_llm_events = [], ba_responses = [], ba_ok_indices = [], ba_results = replicate n None \<rparr>"

text \<open>Up to the wait for all writes: the results of a full store, or what is to be written.\<close>

definition ingest_batch_begin :: "('g, 'c) pipe_env \<Rightarrow> (nat \<Rightarrow> pipe_call) \<Rightarrow> ('g, 'c) pipeline \<Rightarrow>
    ingest_event list \<Rightarrow> str option \<Rightarrow> str \<Rightarrow>
    (((server_error + ingest_response) list + batch_acc) \<times> ('g, 'c) pipeline) run" where
  "ingest_batch_begin env calls p events authenticated_key_id tier =
     (case check_db_size env (calls 0) p of
        (Inl e, p) \<Rightarrow> Ret (Inl (map (\<lambda>_. Inl (StorageFull (server_error_fmt e))) events), p)
      | (Inr _, p) \<Rightarrow>
          run_bind (process_batch env calls p authenticated_key_id tier 0 events (batch_acc_new (length events)))
            (\<lambda>acc. Ret (Inr acc, p)))"

definition write_answer :: "('g, 'c) pipe_env \<Rightarrow> provider \<times> str \<times> i64 \<Rightarrow> store_error + event_id \<Rightarrow>
    server_error + ingest_response" where
  "write_answer env r w =
     (case w of Inl e \<Rightarrow> Inl (StoreErr e)
      | Inr i \<Rightarrow> (case r of (provider, model, cost) \<Rightarrow> Inr (response_for env i provider model cost)))"

text \<open>The loop over the write results: an index out of range panics.\<close>

fun settle_writes :: "('g, 'c) pipe_env \<Rightarrow> batch_acc \<Rightarrow> usize \<Rightarrow> (store_error + event_id) list \<Rightarrow>
    (server_error + ingest_response) option list \<Rightarrow> (server_error + ingest_response) option list run" where
  "settle_writes env acc j [] results = Ret results"
| "settle_writes env acc j (w # ws) results =
     (if j < length (ba_ok_indices acc) \<and> j < length (ba_responses acc) \<and> ba_ok_indices acc ! j < length results
      then settle_writes env acc (j + 1) ws
        (results[ba_ok_indices acc ! j := Some (write_answer env (ba_responses acc ! j) w)])
      else Panic)"

definition ingest_batch_end :: "('g, 'c) pipe_env \<Rightarrow> ('g, 'c) pipeline \<Rightarrow> batch_acc \<Rightarrow>
    (store_error + event_id) list wait \<Rightarrow> (server_error + ingest_response) list run" where
  "ingest_batch_end env p acc w =
     (let write_results = (case w of Answered ws \<Rightarrow> ws
          | TimedOut \<Rightarrow> map (\<lambda>_. Inl (StoreInternal (timeout_text p))) (ba_ok_indices acc))
      in run_bind (settle_writes env acc 0 write_results (ba_results acc)) (\<lambda>results.
           Ret (map (\<lambda>r. case r of Some x \<Rightarrow> x | None \<Rightarrow> Inl (Internal ''unreachable'')) results)))"

section \<open>Fire and forget\<close>

definition ingest_fire_and_forget :: "('g, 'c) pipe_env \<Rightarrow> pipe_call \<Rightarrow> ('g, 'c) pipeline \<Rightarrow> ingest_event \<Rightarrow>
    str option \<Rightarrow> str \<Rightarrow> ((server_error + ingest_response) \<times> ('g, 'c) pipeline) run" where
  "ingest_fire_and_forget env call p event authenticated_key_id tier =
     (case check_db_size env call p of
        (Inl e, p) \<Rightarrow> Ret (Inl e, p)
      | (Inr _, p) \<Rightarrow>
          run_bind (process_event env call p event authenticated_key_id tier) (\<lambda>res.
            case res of
              Inl e \<Rightarrow> Ret (Inl e, p)
            | Inr (llm_event, provider, model, cost) \<Rightarrow>
                (case write_fire_and_forget (pl_writer p) llm_event of
                   (Inl e, writer) \<Rightarrow> Ret (Inl (StoreErr e), p \<lparr> pl_writer := writer \<rparr>)
                 | (Inr _, writer) \<Rightarrow>
                     Ret (Inr (response_for env (ev_id llm_event) provider model cost),
                       p \<lparr> pl_writer := writer \<rparr>))))"

end
