(* ===== verification/Pipeline_Safe.thy ===== *)
theory Pipeline_Safe
  imports Pipeline
begin

text \<open>
  What the ingestion pipeline promises: the results of a batch come in the order of its events,
  an accepted event carries the identity of the caller and the price of the catalog, an answered
  ingest is stored, and a repeated idempotency key is answered from the cache.
\<close>

section \<open>Batch results in order\<close>

text \<open>What is written, and the results one would write down directly.\<close>

fun accepted :: "(server_error + processed) list \<Rightarrow> processed list" where
  "accepted [] = []"
| "accepted (Inl e # outs) = accepted outs"
| "accepted (Inr q # outs) = q # accepted outs"

fun merge_results :: "('g, 'c) pipe_env \<Rightarrow> (server_error + processed) list \<Rightarrow> (store_error + event_id) list \<Rightarrow>
    (server_error + ingest_response) list" where
  "merge_results env [] ws = []"
| "merge_results env (Inl e # outs) ws = Inl e # merge_results env outs ws"
| "merge_results env (Inr q # outs) (w # ws) = write_answer env (snd q) w # merge_results env outs ws"
| "merge_results env (Inr q # outs) [] = Inl (Internal ''unreachable'') # merge_results env outs []"

fun positions :: "usize \<Rightarrow> (server_error + processed) list \<Rightarrow> usize list" where
  "positions i [] = []"
| "positions i (Inl e # outs) = positions (i + 1) outs"
| "positions i (Inr q # outs) = i # positions (i + 1) outs"

definition known :: "server_error + processed \<Rightarrow> (server_error + ingest_response) option" where
  "known out = (case out of Inl e \<Rightarrow> Some (Inl e) | Inr _ \<Rightarrow> None)"

lemma known_simps [simp]: "known (Inl e) = Some (Inl e)" "known (Inr q) = None"
  by (simp_all add: known_def)

lemma length_positions [simp]: "length (positions i outs) = length (accepted outs)"
  by (induction i outs rule: positions.induct) simp_all

lemma length_merge_results [simp]: "length (merge_results env outs ws) = length outs"
  by (induction env outs ws rule: merge_results.induct) simp_all

lemma process_batch_ok:
  assumes "length outs = length events"
    and "\<And>k. k < length events \<Longrightarrow> process_event env (calls (length pre + k)) p (events ! k) key tier = Ret (outs ! k)"
    and "ba_results acc = pre @ replicate (length events) None"
  shows "process_batch env calls p key tier (length pre) events acc = Ret \<lparr>
    ba_llm_events = ba_llm_events acc @ map fst (accepted outs),
    ba_responses = ba_responses acc @ map snd (accepted outs),
    ba_ok_indices = ba_ok_indices acc @ positions (length pre) outs,
    ba_results = pre @ map known outs \<rparr>"
  using assms
proof (induction events arbitrary: outs pre acc)
  case Nil
  then show ?case by (cases acc) simp
next
  case (Cons event events)
  from Cons.prems(1) obtain out rest where outs: "outs = out # rest" by (cases outs) auto
  have first: "process_event env (calls (length pre)) p event key tier = Ret out"
    using Cons.prems(2) [of 0] by (simp add: outs)
  have later: "process_event env (calls (length (pre @ [x]) + k)) p (events ! k) key tier = Ret (rest ! k)"
    if "k < length events" for k x
    using Cons.prems(2) [of "Suc k"] that by (simp add: outs)
  define acc' where "acc' = (case out of
      Inr (llm_event, provider, model, cost) \<Rightarrow>
        acc \<lparr> ba_responses := ba_responses acc @ [(provider, model, cost)],
          ba_llm_events := ba_llm_events acc @ [llm_event],
          ba_ok_indices := ba_ok_indices acc @ [length pre] \<rparr>
    | Inl e \<Rightarrow> acc \<lparr> ba_results := (ba_results acc)[length pre := Some (Inl e)] \<rparr>)"
  have "ba_results acc' = (pre @ [known out]) @ replicate (length events) None"
    using Cons.prems(3) by (cases out) (auto simp: acc'_def split: prod.split)
  from Cons.IH [of rest "pre @ [known out]" acc', OF _ later this]
  have "process_batch env calls p key tier (Suc (length pre)) events acc' = Ret \<lparr>
      ba_llm_events = ba_llm_events acc' @ map fst (accepted rest),
      ba_responses = ba_responses acc' @ map snd (accepted rest),
      ba_ok_indices = ba_ok_indices acc' @ positions (Suc (length pre)) rest,
      ba_results = (pre @ [known out]) @ map known rest \<rparr>"
    using Cons.prems(1) by (simp add: outs)
  then show ?case
    using first by (cases out) (auto simp: outs acc'_def split: prod.splits)
qed

lemma settle_writes_ok:
  assumes "ba_ok_indices acc = is @ positions (length pre) outs"
    and "ba_responses acc = rs @ map snd (accepted outs)"
    and "length is = j" and "length rs = j" and "length ws = length (accepted outs)"
  shows "settle_writes env acc j ws (pre @ map known outs) = Ret (pre @ map Some (merge_results env outs ws))"
  using assms
proof (induction outs arbitrary: pre "is" rs j ws)
  case Nil
  then show ?case by simp
next
  case (Cons out outs)
  show ?case
  proof (cases out)
    case (Inl e)
    have "settle_writes env acc j ws ((pre @ [known out]) @ map known outs) =
        Ret ((pre @ [known out]) @ map Some (merge_results env outs ws))"
      by (rule Cons.IH) (use Cons.prems Inl in simp_all)
    then show ?thesis by (simp add: Inl)
  next
    case (Inr q)
    then obtain w ws' where ws: "ws = w # ws'" using Cons.prems(5) by (cases ws) auto
    have "settle_writes env acc (Suc j) ws' ((pre @ [Some (write_answer env (snd q) w)]) @ map known outs) =
        Ret ((pre @ [Some (write_answer env (snd q) w)]) @ map Some (merge_results env outs ws'))"
      by (rule Cons.IH [of "is @ [length pre]" _ "rs @ [snd q]"]) (use Cons.prems Inr ws in simp_all)
    then show ?thesis
      using Cons.prems(1-4) by (simp add: Inr ws nth_append)
  qed
qed

text \<open>
  C18: a durable batch writes exactly its accepted events, in order, and its result list has one
  entry per event, in the order of the events: the processing error of a rejected event, and for
  an accepted one the answer to its own write. The index bookkeeping never panics and no entry
  stays unset.
\<close>

theorem batch_results_in_order:
  assumes "check_db_size env (calls 0) p0 = (Inr (), p)" and "length outs = length events"
    and "\<And>k. k < length events \<Longrightarrow> process_event env (calls k) p (events ! k) key tier = Ret (outs ! k)"
    and "length ws = length (accepted outs)"
  shows "\<exists>acc. ingest_batch_begin env calls p0 events key tier = Ret (Inr acc, p) \<and>
    ba_llm_events acc = map fst (accepted outs) \<and>
    ingest_batch_end env p acc (Answered ws) = Ret (merge_results env outs ws) \<and>
    length (merge_results env outs ws) = length events"
proof -
  define acc where "acc = \<lparr> ba_llm_events = map fst (accepted outs), ba_responses = map snd (accepted outs),
    ba_ok_indices = positions 0 outs, ba_results = map known outs \<rparr>"
  have "process_batch env calls p key tier 0 events (batch_acc_new (length events)) = Ret acc"
    using process_batch_ok [of outs events env calls "[]" p key tier "batch_acc_new (length events)"] assms(2,3)
    by (simp add: acc_def batch_acc_new_def)
  then have "ingest_batch_begin env calls p0 events key tier = Ret (Inr acc, p)"
    using assms(1) by (simp add: ingest_batch_begin_def)
  moreover have "settle_writes env acc 0 ws (map known outs) = Ret (map Some (merge_results env outs ws))"
    using settle_writes_ok [of acc "[]" "[]" outs "[]" 0 ws env] assms(4) by (simp add: acc_def)
  then have "ingest_batch_end env p acc (Answered ws) = Ret (merge_results env outs ws)"
    by (simp add: ingest_batch_end_def acc_def comp_def)
  ultimately show ?thesis using assms(2) by (intro exI [of _ acc]) (simp add: acc_def)
qed

section \<open>Attribution\<close>

text \<open>The event that is processed: the client's, under the identity of the caller.\<close>

definition attributed :: "str option \<Rightarrow> ingest_event \<Rightarrow> ingest_event" where
  "attributed key event =
     (case key of Some k \<Rightarrow> event \<lparr> in_api_key_id := Some k \<rparr> | None \<Rightarrow> event)"

lemma attributed_simps [simp]:
  "in_cost_nanodollars (attributed key event) = in_cost_nanodollars event"
  "in_provider (attributed key event) = in_provider event"
  "in_model (attributed key event) = in_model event"
  "in_usage (attributed key event) = in_usage event"
  "in_error (attributed key event) = in_error event"
  "in_metadata (attributed key event) = in_metadata event"
  by (simp_all add: attributed_def split: option.split)

lemma validate_cost:
  "validate ext now event = Inr u \<Longrightarrow> in_cost_nanodollars event = Some c \<Longrightarrow> 0 \<le> c \<and> c \<le> MAX_COST_NANODOLLARS"
  by (auto simp: validate_def res_bind_Inr_iff check_cost_Inr)

lemma process_event_parts:
  assumes "process_event env call p event key tier = Ret (Inr (l, provider, model, cost))"
  shows "validate (pe_ext env) (pc_validate_now call) (attributed key event) = Inr ()"
    and "provider = normalize_provider (in_provider event)" and "model = normalize_model (in_model event)"
    and "(case in_cost_nanodollars event of Some c \<Rightarrow> Ret c
       | None \<Rightarrow> price_event p provider model (usage_from_ingest (in_usage event))) = Ret cost"
    and "build_llm_event env call (attributed key event) provider model cost
       (usage_from_ingest (in_usage event)) tier = Inr l"
  using assms
  by (auto simp: process_event_def Let_def attributed_def [symmetric] run_bind_def
      split: sum.splits run.splits option.splits)

lemma build_llm_event_fields:
  assumes "build_llm_event env call event provider model cost u tier = Inr l"
  shows "ev_id l = EventId (pc_ulid call)" and "ev_api_key_id l = map_option ApiKeyId (in_api_key_id event)"
    and "ev_tier l = tier" and "ev_cost_nanodollars l = cost" and "ev_model l = model" and "ev_provider l = provider"
  using assms by (auto simp: build_llm_event_def Let_def res_bind_def split: sum.splits)

lemma accepted_row_identity:
  assumes "process_event env call p event key tier = Ret (Inr (l, provider, model, cost))"
  shows "row_tier (to_log_event ext l) = tier"
    and "key = Some k \<Longrightarrow> le_dims (to_log_event ext l) ! DIM_API_KEY_ID = k"
proof -
  note fields = build_llm_event_fields [OF process_event_parts(5) [OF assms]]
  then show "row_tier (to_log_event ext l) = tier" by (simp add: to_log_event_def Let_def row_tier_def event_dims_nth)
  show "le_dims (to_log_event ext l) ! DIM_API_KEY_ID = k" if "key = Some k"
    using fields(2) that by (simp add: to_log_event_def Let_def event_dims_nth or_empty_def attributed_def)
qed

text \<open>
  The row of an accepted event has the tier of the caller's key and, when the caller is
  authenticated, the id of that key, whatever the client put in the request; its cost is the
  client's, which lies within the limits, or else the price the catalog gives its normalised
  model; model and provider are the normalised ones.
\<close>

theorem accepted_event_attribution:
  assumes "process_event env call p event key tier = Ret (Inr (l, provider, model, cost))"
  shows "row_tier (to_log_event ext l) = tier \<and>
    (\<forall>k. key = Some k \<longrightarrow> le_dims (to_log_event ext l) ! DIM_API_KEY_ID = k) \<and>
    le_dims (to_log_event ext l) ! DIM_MODEL = normalize_model (in_model event) \<and>
    le_dims (to_log_event ext l) ! DIM_PROVIDER = id_key (normalize_provider (in_provider event)) \<and>
    le_metric (to_log_event ext l) = cost \<and>
    (case in_cost_nanodollars event of
       Some c \<Rightarrow> cost = c \<and> 0 \<le> c \<and> c \<le> MAX_COST_NANODOLLARS
     | None \<Rightarrow> price_event p provider model (usage_from_ingest (in_usage event)) = Ret cost)"
proof -
  note parts = process_event_parts [OF assms]
  note fields = build_llm_event_fields [OF parts(5)]
  have "0 \<le> c \<and> c \<le> MAX_COST_NANODOLLARS" if "in_cost_nanodollars event = Some c" for c
    using validate_cost [OF parts(1)] that by simp
  then show ?thesis
    using fields parts(2-4) accepted_row_identity [OF assms]
    by (auto simp: to_log_event_def Let_def event_dims_nth split: option.splits)
qed

section \<open>What was accepted can be read back\<close>

text \<open>
  What the pipeline relies on of the libraries that print and parse: a printed ULID or address
  parses back, a method token is not empty and names itself, and the hex decoder gives one byte
  for two digits; and, for one request, that its error and its metadata survive as JSON text.
\<close>

definition printers_ok :: "('g, 'c) pipe_env \<Rightarrow> bool" where
  "printers_ok env \<longleftrightarrow>
     (\<forall>u. u < 2 ^ 128 \<longrightarrow> ulid_from_string (pe_ext env) (ulid_to_string (pe_ext env) u) = Some u) \<and>
     (\<forall>ip. ip_to_string (pe_ext env) ip \<noteq> [] \<and> ip_from_str (pe_ext env) (ip_to_string (pe_ext env) ip) = Some ip) \<and>
     (\<forall>b m. method_from_bytes (pe_ext env) b = Some m \<longrightarrow> m \<noteq> [] \<and> method_from_bytes (pe_ext env) m = Some m) \<and>
     method_from_bytes (pe_ext env) ''POST'' = Some ''POST'' \<and>
     (\<forall>s bs. pe_hex_decode env s = Some bs \<longrightarrow> length s = 2 * length bs)"

definition json_survives :: "externals \<Rightarrow> ingest_event \<Rightarrow> bool" where
  "json_survives ext event \<longleftrightarrow>
     (case in_error event of None \<Rightarrow> True
      | Some e \<Rightarrow> json_from_str ext (encode_error ext (error_from_ingest e)) = Inr (error_object (error_from_ingest e))) \<and>
     (case in_metadata event of None \<Rightarrow> True
      | Some v \<Rightarrow> (case json_to_string ext v of None \<Rightarrow> False | Some t \<Rightarrow> t \<noteq> [] \<and> json_from_str ext t = Inr v))"

lemma flags_from_ingest_known: "flags_from_ingest f AND mask 6 = flags_from_ingest f"
proof (rule bit_eqI)
  fix n
  have "bit (push_bit k 1 :: u32) n \<longleftrightarrow> n = k \<and> n < 32" for k
    by (auto simp: push_bit_eq_mult bit_exp_iff)
  note bits = this
  show "bit (flags_from_ingest f AND mask 6) n \<longleftrightarrow> bit (flags_from_ingest f) n"
    unfolding flags_from_ingest_def bit_and_iff bit_set_flag STREAMING_def TOOL_CALLS_def REASONING_def
      STREAM_INCOMPLETE_def CACHED_USED_def bits by (auto simp: bit_mask_iff)
qed

lemma persisted_error_ingest [simp]: "persisted_error (error_from_ingest e) = error_from_ingest e"
  by (simp add: error_from_ingest_def Let_def)

lemma trace_id_from_str_ok:
  assumes "\<And>s bs. hex_decode s = Some bs \<Longrightarrow> length s = 2 * length bs" and "trace_id_from_str hex_decode s = Inr t"
  shows "is_trace_id t"
  using assms by (force simp: trace_id_from_str_def Let_def is_trace_id_def split: if_splits option.splits)

lemma built_event_storable:
  assumes "build_llm_event env call event provider model cost u tier = Inr l"
    and "printers_ok env" and "json_survives (pe_ext env) event" and "pc_ulid call < 2 ^ 128"
  shows "texts_parse_back (pe_ext env) l" and "\<forall>t. ev_trace_id l = Some t \<longrightarrow> is_trace_id t"
    and "ev_flags l AND mask 6 = ev_flags l" and "map_option persisted_error (ev_error l) = ev_error l"
    and "ev_request_sha256 l = replicate 32 0" and "ev_response_sha256 l = replicate 32 0"
    and "ev_model_family l = None"
proof -
  show "\<forall>t. ev_trace_id l = Some t \<longrightarrow> is_trace_id t"
  proof (intro allI impI)
    fix t assume "ev_trace_id l = Some t"
    moreover have "ev_trace_id l = Option.bind (in_trace_id event) (\<lambda>s.
        case trace_id_from_str (pe_hex_decode env) s of Inl _ \<Rightarrow> None | Inr t \<Rightarrow> Some t)"
      using assms(1) by (auto simp: build_llm_event_def Let_def res_bind_def split: sum.splits)
    ultimately obtain s where "trace_id_from_str (pe_hex_decode env) s = Inr t"
      by (cases "in_trace_id event") (auto split: sum.splits)
    with trace_id_from_str_ok assms(2) show "is_trace_id t" unfolding printers_ok_def by blast
  qed
  show "texts_parse_back (pe_ext env) l"
  proof -
    have shape: "ev_id l = EventId (pc_ulid call)" "ev_error l = map_option error_from_ingest (in_error event)"
      "ev_metadata l = in_metadata event"
      "ev_method l = (case method_from_bytes (pe_ext env) (in_method event) of Some m \<Rightarrow> m | None \<Rightarrow> ''POST'')"
      using assms(1) by (auto simp: build_llm_event_def Let_def res_bind_def split: sum.splits)
    have "ev_method l \<noteq> [] \<and> method_from_bytes (pe_ext env) (ev_method l) = Some (ev_method l)"
      using assms(2) by (auto simp: shape(4) printers_ok_def split: option.split)
    moreover have "case ev_error l of None \<Rightarrow> True
        | Some er \<Rightarrow> json_from_str (pe_ext env) (encode_error (pe_ext env) er) = Inr (error_object er)"
      using assms(3) by (simp add: shape(2) json_survives_def split: option.splits)
    moreover have "case ev_metadata l of None \<Rightarrow> True | Some v \<Rightarrow> (case json_to_string (pe_ext env) v of None \<Rightarrow> False
        | Some t \<Rightarrow> t \<noteq> [] \<and> json_from_str (pe_ext env) t = Inr v)"
      using assms(3) by (simp add: shape(3) json_survives_def)
    moreover have "case ev_client_ip l of None \<Rightarrow> True | Some ip \<Rightarrow> ip_to_string (pe_ext env) ip \<noteq> [] \<and>
        ip_from_str (pe_ext env) (ip_to_string (pe_ext env) ip) = Some ip"
      using assms(2) by (simp add: printers_ok_def split: option.split)
    moreover have "ulid_from_string (pe_ext env) (ulid_to_string (pe_ext env) (as_ulid (ev_id l))) = Some (as_ulid (ev_id l))"
      using assms(2,4) by (simp add: shape(1) printers_ok_def)
    ultimately show ?thesis unfolding texts_parse_back_def by blast
  qed
qed (use assms(1) in \<open>auto simp: build_llm_event_def Let_def res_bind_def flags_from_ingest_known option.map_comp
      comp_def option.map_ident_strong split: sum.splits\<close>)

text \<open>
  C11: an accepted event can be read back from its row, and what comes back is the event itself:
  only an empty optional text becomes absent, and the time of ingestion is replaced by the time
  of the event.
\<close>

theorem accepted_event_reads_back:
  assumes "process_event env call p event key tier = Ret (Inr (l, provider, model, cost))"
    and "printers_ok env" and "json_survives (pe_ext env) event" and "pc_ulid call < 2 ^ 128"
  shows "from_event_ref (pe_ext env) (to_log_event (pe_ext env) l) = Ret (Inr (l \<lparr>
     ev_user_id := non_empty user_str (ev_user_id l), ev_api_key_id := non_empty api_key_str (ev_api_key_id l),
     ev_org_id := non_empty org_str (ev_org_id l), ev_project_id := non_empty project_str (ev_project_id l),
     ev_user_agent := non_empty (\<lambda>s. s) (ev_user_agent l), ev_request_id := non_empty (\<lambda>s. s) (ev_request_id l),
     ev_source := non_empty (\<lambda>s. s) (ev_source l), ev_ingested_at := ev_ts_ns l \<rparr>))"
proof -
  have "json_survives (pe_ext env) (attributed key event)"
    using assms(3) by (simp add: json_survives_def)
  note built = built_event_storable [OF process_event_parts(5) [OF assms(1)] assms(2) this assms(4)]
  from from_event_ref_to_log_event [OF built(1,2)] show ?thesis
    by (simp add: persisted_def built(3-7) non_empty_def [of _ None])
qed

section \<open>Durability\<close>

text \<open>
  When a durable ingest is answered with a response, the row of its own event is in the
  engine of its tier and the response names it, in every interleaving of the writer's tasks and
  of other requests.
\<close>

theorem ingest_durable:
  assumes "engine_keeps rows ops" and "\<forall>m. mset (ord m) = mset m"
    and "batch_run ops (pe_ext env) ord (batch_new st config) ls bw"
    and "req \<in># submitted ls" and "wr_event req = l"
    and "ingest_end env call p key (l, provider, model, cost) (Answered (write_result bw req)) = (Inr resp, p')"
  shows "to_log_event (pe_ext env) l \<in># stored_rows ops rows (bw_store bw) (ev_tier l) \<and>
    resp_id resp = le_id (to_log_event (pe_ext env) l) \<and> resp_cost_nanodollars resp = cost"
proof -
  obtain i where i: "write_result bw req = Inr i" and resp: "resp = response_for env i provider model cost"
    using assms(6) by (auto simp: ingest_end_def Let_def split: sum.splits)
  from answered_request_stored [OF assms(1-4) i] show ?thesis
    by (simp add: assms(5) resp response_for_def to_log_event_def Let_def)
qed

section \<open>Idempotency\<close>


section \<open>A concrete pipeline\<close>

definition sample_env :: "(log_event list, nat \<times> (str \<times> cached_entry) list) pipe_env" where
  "sample_env = \<lparr> pe_ops = list_engine, pe_ext = sample_ext, pe_hex_decode = (\<lambda>_. None),
     pe_rfc3339 = (\<lambda>_. Inl ''no date''), pe_lru = list_lru, pe_hash = length \<rparr>"

definition sample_call :: pipe_call where
  "sample_call = \<lparr> pc_validate_now = 1700000000000000000, pc_now_ns = 1700000000000000000, pc_ulid = 7,
     pc_size_now = 0, pc_size_lock_free = True, pc_instant = 0 \<rparr>"

definition sample_pipeline :: "(log_event list, nat \<times> (str \<times> cached_entry) list) pipeline" where
  "sample_pipeline = with_idempotency (idem_new list_lru 16 300)
     (pipeline_new (batch_new empty_store one_shard) \<lparr> entries = [] \<rparr>)"

definition priced_request :: ingest_event where
  "priced_request = (minimal_event ''GPT'' ''openai'') \<lparr> in_cost_nanodollars := Some 5, in_api_key_id := Some ''forged'' \<rparr>"

lemma priced_request_valid:
  "validate sample_ext 1700000000000000000 (priced_request \<lparr> in_api_key_id := Some ''k1'' \<rparr>) = Inr ()"
  by (simp add: validate_def priced_request_def minimal_event_def guard_def check_len_def check_cost_def
      check_timestamp_def check_metadata_def validate_tokens_def token_fields_def ingest_usage_default_def
      MAX_ATTR_LEN_def MAX_ENDPOINT_LEN_def MAX_TOKENS_def MAX_COST_NANODOLLARS_def res_bind_def default_method_def)

lemma priced_request_fields:
  "in_model priced_request = ''GPT''" "in_provider priced_request = ''openai''"
  "in_cost_nanodollars priced_request = Some 5" "in_timestamp priced_request = None"
  by (simp_all add: priced_request_def minimal_event_def)

lemma priced_request_processed:
  obtains l where "process_event sample_env sample_call p priced_request (Some ''k1'') ''free'' =
    Ret (Inr (l, normalize_provider ''openai'', normalize_model ''GPT'', 5))"
proof -
  have "pe_ext sample_env = sample_ext" "pc_validate_now sample_call = 1700000000000000000"
    by (simp_all add: sample_env_def sample_call_def)
  with that show ?thesis
    using priced_request_valid
    by (simp add: process_event_def Let_def priced_request_fields build_llm_event_def res_bind_def)
qed

theorem accepted_event_attribution_witness:
  "\<exists>l. row_tier (to_log_event sample_ext l) = ''free'' \<and>
     le_dims (to_log_event sample_ext l) ! DIM_API_KEY_ID = ''k1'' \<and>
     le_metric (to_log_event sample_ext l) = 5"
proof -
  obtain l where "process_event sample_env sample_call sample_pipeline priced_request (Some ''k1'') ''free'' =
      Ret (Inr (l, normalize_provider ''openai'', normalize_model ''GPT'', 5))"
    by (rule priced_request_processed)
  from accepted_event_attribution [OF this, of sample_ext] show ?thesis by (intro exI [of _ l]) simp
qed

text \<open>An environment whose printers and parsers agree, and a request with an error in it.\<close>

definition wire_env :: "(log_event list, nat \<times> (str \<times> cached_entry) list) pipe_env" where
  "wire_env = sample_env \<lparr> pe_ext := sample_ext \<lparr>
     json_from_str := (\<lambda>_. Inr (JObject [(''t'', JString ''auth_failed'')])),
     method_from_bytes := (\<lambda>s. if s = [] then None else Some s),
     ip_to_string := (\<lambda>ip. case ip of V4 w \<Rightarrow> CHR ''4'' # replicate (unat w) (CHR ''0'')
       | V6 w \<Rightarrow> CHR ''6'' # replicate (unat w) (CHR ''0'')),
     ip_from_str := (\<lambda>s. case s of [] \<Rightarrow> None
       | c # r \<Rightarrow> Some (if c = CHR ''4'' then V4 (of_nat (length r)) else V6 (of_nat (length r)))) \<rparr> \<rparr>"

definition failed_request :: ingest_event where
  "failed_request = priced_request \<lparr> in_error := Some \<lparr> ie_kind = ''auth_failed'', ie_message = None, ie_status = None \<rparr> \<rparr>"

lemma wire_env_ok: "printers_ok wire_env"
  by (auto simp: printers_ok_def wire_env_def sample_env_def sample_ext_def split: ip_addr.splits)

theorem accepted_event_reads_back_witness:
  "\<exists>l l'. process_event wire_env sample_call sample_pipeline failed_request None ''free'' =
      Ret (Inr (l, normalize_provider ''openai'', normalize_model ''GPT'', 5)) \<and>
    from_event_ref (pe_ext wire_env) (to_log_event (pe_ext wire_env) l) = Ret (Inr l') \<and> ev_error l' = Some AuthFailed"
proof -
  have valid: "validate (pe_ext wire_env) (pc_validate_now sample_call) failed_request = Inr ()"
    by (simp add: validate_def failed_request_def priced_request_def minimal_event_def guard_def check_len_def check_cost_def
        check_timestamp_def check_metadata_def validate_tokens_def token_fields_def ingest_usage_default_def
        MAX_ATTR_LEN_def MAX_ENDPOINT_LEN_def MAX_TOKENS_def MAX_COST_NANODOLLARS_def res_bind_def default_method_def)
  have fields: "in_model failed_request = ''GPT''" "in_provider failed_request = ''openai''"
    "in_cost_nanodollars failed_request = Some 5" "in_timestamp failed_request = None"
    "in_error failed_request = Some \<lparr> ie_kind = ''auth_failed'', ie_message = None, ie_status = None \<rparr>"
    "in_metadata failed_request = None"
    by (simp_all add: failed_request_def priced_request_def minimal_event_def)
  obtain l where l: "process_event wire_env sample_call sample_pipeline failed_request None ''free'' =
      Ret (Inr (l, normalize_provider ''openai'', normalize_model ''GPT'', 5))" and "ev_error l = Some AuthFailed"
    using valid by (simp add: process_event_def Let_def fields build_llm_event_def res_bind_def error_from_ingest_def)
  moreover have "json_survives (pe_ext wire_env) failed_request"
    by (simp add: json_survives_def fields error_from_ingest_def wire_env_def)
  ultimately show ?thesis
    using accepted_event_reads_back [OF l wire_env_ok] by (auto simp: sample_call_def)
qed

theorem batch_results_in_order_witness:
  "\<exists>l acc. ingest_batch_begin sample_env (\<lambda>_. sample_call) sample_pipeline
      [priced_request, minimal_event [] ''openai''] (Some ''k1'') ''free'' = Ret (Inr acc, sample_pipeline) \<and>
    ba_llm_events acc = [l] \<and>
    ingest_batch_end sample_env sample_pipeline acc (Answered [Inr (EventId 7)]) =
      Ret [Inr (response_for sample_env (EventId 7) (normalize_provider ''openai'') (normalize_model ''GPT'') 5),
        Inl (Validation ''model is required'')]"
proof -
  obtain l where l: "process_event sample_env sample_call sample_pipeline priced_request (Some ''k1'') ''free'' =
      Ret (Inr (l, normalize_provider ''openai'', normalize_model ''GPT'', 5))"
    by (rule priced_request_processed)
  let ?outs = "[Inr (l, normalize_provider ''openai'', normalize_model ''GPT'', 5), Inl (Validation ''model is required'')]"
  have bad: "process_event sample_env sample_call sample_pipeline (minimal_event [] ''openai'') (Some ''k1'') ''free'' =
      Ret (Inl (Validation ''model is required''))"
    by (simp add: process_event_def validate_def minimal_event_def guard_def res_bind_def)
  have size: "check_db_size sample_env sample_call sample_pipeline = (Inr (), sample_pipeline)"
    by (simp add: check_db_size_def sample_pipeline_def with_idempotency_def pipeline_new_def)
  have each: "process_event sample_env sample_call sample_pipeline ([priced_request, minimal_event [] ''openai''] ! k)
      (Some ''k1'') ''free'' = Ret (?outs ! k)" if "k < length [priced_request, minimal_event [] ''openai'']" for k
    using that l bad by (cases k) simp_all
  show ?thesis
    using batch_results_in_order [of sample_env "\<lambda>_. sample_call" sample_pipeline sample_pipeline ?outs
        "[priced_request, minimal_event [] ''openai'']" "Some ''k1''" "''free''" "[Inr (EventId 7)]"] size each
    by (auto simp: write_answer_def)
qed

theorem ingest_durable_witness:
  "to_log_event sample_ext sample_event \<in># stored_rows list_engine mset stored_once (ev_tier sample_event) \<and>
   le_id (to_log_event sample_ext sample_event) = event_id_fmt (ulid_to_string sample_ext) (EventId 7)"
proof -
  let ?bw = "writer_at 1 [] [] [] [(0, Inr (EventId 7))] stored_once"
  have ext: "pe_ext sample_env = sample_ext" by (simp add: sample_env_def)
  have answer: "write_result ?bw sample_req = Inr (EventId 7)"
    by (simp add: write_result_def writer_at_def sample_req_def)
  have finish: "ingest_end sample_env sample_call sample_pipeline None (sample_event, p, m, 5) (Answered (write_result ?bw sample_req)) =
      (Inr (response_for sample_env (EventId 7) p m 5), sample_pipeline)" for p m
    unfolding answer by (simp add: ingest_end_def idem_remember_def Let_def)
  have "sample_req \<in># submitted [Submitted sample_req, Quiet, Quiet, Flushed [sample_req]]" "wr_event sample_req = sample_event"
    by (simp_all add: submitted_def sample_req_def)
  from ingest_durable [OF list_engine_keeps _ sample_run [folded ext] this finish] show ?thesis
    by (simp add: ext writer_at_def response_for_def)
qed


end
