(* ===== verification/Config.thy ===== *)
theory Config
  imports Archive Auth F64
begin

text \<open>
  The server configuration: \<open>crates/keplor-server/src/config.rs\<close>, with its defaults, the checks
  at start-up and the warnings. Reading the TOML file and the environment (\<open>figment\<close>) is left
  out; whether a path exists is an argument.
\<close>

record pricing_config =
  pr_refresh_interval_secs :: u64
  pr_source_url :: str

definition pricing_config_default :: pricing_config where
  "pricing_config_default = \<lparr> pr_refresh_interval_secs = 86400,
     pr_source_url = ''https://raw.githubusercontent.com/BerriAI/litellm/main/litellm/model_prices_and_context_window_backup.json'' \<rparr>"

record tls_config =
  tls_cert_path :: str
  tls_key_path :: str

record listen_config =
  lc_listen_addr :: "ip_addr \<times> u16"
  lc_shutdown_timeout_secs :: u64
  lc_request_timeout_secs :: u64
  lc_max_connections :: usize

definition listen_config_default :: listen_config where
  "listen_config_default = \<lparr> lc_listen_addr = (V4 0, 8080), lc_shutdown_timeout_secs = 25,
     lc_request_timeout_secs = 30, lc_max_connections = 10000 \<rparr>"

record storage_config =
  sc_data_dir :: str
  sc_retention_days :: u64
  sc_wal_checkpoint_secs :: u64
  sc_max_db_size_mb :: u64
  sc_gc_interval_secs :: u64
  sc_wal_max_events :: u32
  sc_wal_sync_interval :: u32
  sc_wal_sync_bytes :: u64
  sc_wal_shard_count :: usize
  sc_mmap_cache_capacity :: usize
  sc_rollup_replay_days :: u32
  sc_rollup_loop_secs :: u64
  sc_size_check_interval_ms :: u64

definition storage_config_default :: storage_config where
  "storage_config_default = \<lparr> sc_data_dir = ''./keplor_data'', sc_retention_days = 90,
     sc_wal_checkpoint_secs = 300, sc_max_db_size_mb = 0, sc_gc_interval_secs = 3600,
     sc_wal_max_events = 500000, sc_wal_sync_interval = 64, sc_wal_sync_bytes = 256 * 1024,
     sc_wal_shard_count = 4, sc_mmap_cache_capacity = 256, sc_rollup_replay_days = 7,
     sc_rollup_loop_secs = 60, sc_size_check_interval_ms = 1000 \<rparr>"

record auth_config =
  au_api_keys :: "str list"
  au_api_key_entries :: "api_key_entry list"

definition default_tier_name :: str where
  "default_tier_name = ''free''"

record retention_tier =
  rt_name :: str
  rt_days :: u64

record retention_config =
  rc_default_tier :: str
  rc_tiers :: "retention_tier list"

definition retention_config_default :: retention_config where
  "retention_config_default = \<lparr> rc_default_tier = ''free'',
     rc_tiers = [\<lparr> rt_name = ''free'', rt_days = 7 \<rparr>, \<lparr> rt_name = ''pro'', rt_days = 90 \<rparr>] \<rparr>"

record idempotency_config =
  id_enabled :: bool
  id_ttl_secs :: u64
  id_max_entries :: usize

definition idempotency_config_default :: idempotency_config where
  "idempotency_config_default = \<lparr> id_enabled = True, id_ttl_secs = 300, id_max_entries = 100000 \<rparr>"

record rate_limit_server_config =
  rl_enabled :: bool
  rl_requests_per_second :: f64
  rl_burst :: usize

definition rate_limit_server_config_default :: rate_limit_server_config where
  "rate_limit_server_config_default = \<lparr> rl_enabled = False, rl_requests_per_second = Fin 100, rl_burst = 200 \<rparr>"

record cors_config =
  co_allowed_origins :: "str list"

record pipeline_config =
  pi_batch_size :: usize
  pi_max_body_bytes :: usize
  pi_channel_capacity :: usize
  pi_write_timeout_secs :: u64
  pi_flush_interval_ms :: u64
  pi_flush_shards :: usize

definition pipeline_config_default :: pipeline_config where
  "pipeline_config_default = \<lparr> pi_batch_size = 64, pi_max_body_bytes = 10 * 1024 * 1024,
     pi_channel_capacity = 32768, pi_write_timeout_secs = 10, pi_flush_interval_ms = 50, pi_flush_shards = 4 \<rparr>"

record archive_config =
  ar_bucket :: str
  ar_endpoint :: str
  ar_region :: str
  ar_access_key_id :: str
  ar_secret_access_key :: str
  ar_key_prefix :: str
  ar_path_style :: bool
  ar_archive_after_days :: u64
  ar_archive_after_hours :: u64
  ar_archive_threshold_mb :: u64
  ar_archive_batch_size :: usize
  ar_archive_interval_secs :: u64

definition default_archive_after_days :: u64 where "default_archive_after_days = 30"
definition default_archive_batch_size :: usize where "default_archive_batch_size = 10000"
definition default_archive_interval_secs :: u64 where "default_archive_interval_secs = 3600"

record server_config =
  cfg_server :: listen_config
  cfg_storage :: storage_config
  cfg_auth :: auth_config
  cfg_pipeline :: pipeline_config
  cfg_idempotency :: idempotency_config
  cfg_rate_limit :: rate_limit_server_config
  cfg_cors :: cors_config
  cfg_tls :: "tls_config option"
  cfg_retention :: retention_config
  cfg_pricing :: pricing_config
  cfg_archive :: "archive_config option"

definition server_config_default :: server_config where
  "server_config_default = \<lparr> cfg_server = listen_config_default, cfg_storage = storage_config_default,
     cfg_auth = \<lparr> au_api_keys = [], au_api_key_entries = [] \<rparr>, cfg_pipeline = pipeline_config_default,
     cfg_idempotency = idempotency_config_default, cfg_rate_limit = rate_limit_server_config_default,
     cfg_cors = \<lparr> co_allowed_origins = [] \<rparr>, cfg_tls = None, cfg_retention = retention_config_default,
     cfg_pricing = pricing_config_default, cfg_archive = None \<rparr>"

section \<open>Checks\<close>

definition refuse_if :: "bool \<Rightarrow> str \<Rightarrow> (str + unit) \<Rightarrow> str + unit" where
  "refuse_if bad msg rest = (if bad then Inl msg else rest)"

definition out_of_range :: "str \<Rightarrow> nat \<Rightarrow> str \<Rightarrow> str" where
  "out_of_range field v range_text = field @ '' = '' @ nat_to_string v @ '' '' @ range_text"

definition check_tls :: "(str \<Rightarrow> bool) \<Rightarrow> tls_config option \<Rightarrow> (str + unit) \<Rightarrow> str + unit" where
  "check_tls exists tls rest =
     (case tls of None \<Rightarrow> rest
      | Some t \<Rightarrow>
          refuse_if (\<not> exists (tls_cert_path t)) (''tls.cert_path does not exist: '' @ tls_cert_path t)
         (refuse_if (\<not> exists (tls_key_path t)) (''tls.key_path does not exist: '' @ tls_key_path t) rest))"

definition config_validate :: "(str \<Rightarrow> bool) \<Rightarrow> server_config \<Rightarrow> str + unit" where
  "config_validate exists c =
     (let pi = cfg_pipeline c; st = cfg_storage c; li = cfg_server c; pr = cfg_pricing c; re = cfg_retention c in
      refuse_if (pi_batch_size pi = 0) ''pipeline.batch_size must be > 0''
     (refuse_if (100000 < pi_batch_size pi)
        (out_of_range ''pipeline.batch_size'' (pi_batch_size pi) ''is dangerously large (max 100,000)'')
     (refuse_if (pi_max_body_bytes pi = 0) ''pipeline.max_body_bytes must be > 0''
     (refuse_if (100 * 1024 * 1024 < pi_max_body_bytes pi)
        (out_of_range ''pipeline.max_body_bytes'' (pi_max_body_bytes pi) ''exceeds 100 MB safety limit'')
     (refuse_if (sc_data_dir st = []) ''storage.data_dir must not be empty''
     (refuse_if (lc_request_timeout_secs li = 0 \<or> 300 < lc_request_timeout_secs li)
        (out_of_range ''server.request_timeout_secs'' (lc_request_timeout_secs li) ''must be in [1, 300]'')
     (refuse_if (lc_max_connections li = 0) ''server.max_connections must be > 0''
     (refuse_if (sc_wal_shard_count st = 0 \<or> 64 < sc_wal_shard_count st)
        (out_of_range ''storage.wal_shard_count'' (sc_wal_shard_count st) ''must be in [1, 64]'')
     (refuse_if (pi_write_timeout_secs pi = 0 \<or> 300 < pi_write_timeout_secs pi)
        (out_of_range ''pipeline.write_timeout_secs'' (pi_write_timeout_secs pi) ''must be in [1, 300]'')
     (refuse_if (pi_flush_interval_ms pi = 0 \<or> 10000 < pi_flush_interval_ms pi)
        (out_of_range ''pipeline.flush_interval_ms'' (pi_flush_interval_ms pi) ''must be in [1, 10000]'')
     (refuse_if (pi_flush_shards pi = 0 \<or> 64 < pi_flush_shards pi)
        (out_of_range ''pipeline.flush_shards'' (pi_flush_shards pi) ''must be in [1, 64]'')
     (refuse_if (sc_rollup_loop_secs st < 5 \<or> 3600 < sc_rollup_loop_secs st)
        (out_of_range ''storage.rollup_loop_secs'' (sc_rollup_loop_secs st) ''must be in [5, 3600]'')
     (refuse_if (60000 < sc_size_check_interval_ms st)
        (out_of_range ''storage.size_check_interval_ms'' (sc_size_check_interval_ms st)
          ''must be <= 60000 (0 = disabled)'')
     (refuse_if (pr_refresh_interval_secs pr \<noteq> 0 \<and>
          (pr_refresh_interval_secs pr < 60 \<or> 604800 < pr_refresh_interval_secs pr))
        (out_of_range ''pricing.refresh_interval_secs'' (pr_refresh_interval_secs pr)
          ''must be 0 (disabled) or in [60, 604800]'')
     (refuse_if (pr_source_url pr = []) ''pricing.source_url must not be empty''
     (check_tls exists (cfg_tls c)
     (refuse_if (rc_tiers re = []) ''retention.tiers must have at least one tier''
     (refuse_if (list_ex (\<lambda>t. rt_name t = []) (rc_tiers re)) ''retention tier name must not be empty''
     (refuse_if (\<not> list_ex (\<lambda>t. rt_name t = rc_default_tier re) (rc_tiers re))
        (''retention.default_tier '' @ [CHR 0x27] @ rc_default_tier re @ [CHR 0x27] @ '' does not match any defined tier'')
     (refuse_if (list_ex (\<lambda>e. entry_id e = [] \<or> entry_secret e = []) (au_api_key_entries (cfg_auth c)))
        ''api_key_entries: id and secret must not be empty''
      (Inr ())))))))))))))))))))))"

section \<open>Warnings\<close>

datatype risk = UnlimitedDatabase | CollectedBeforeArchived u64 u64

definition min_retention :: "retention_config \<Rightarrow> u64" where
  "min_retention re =
     (case filter (\<lambda>d. 0 < d) (map rt_days (rc_tiers re)) of [] \<Rightarrow> nat u64_max | d # ds \<Rightarrow> fold min ds d)"

definition warn_risky_defaults :: "server_config \<Rightarrow> risk list" where
  "warn_risky_defaults c =
     (if sc_max_db_size_mb (cfg_storage c) = 0 then [UnlimitedDatabase] else []) @
     (case cfg_archive c of None \<Rightarrow> []
      | Some a \<Rightarrow>
          (let shortest = min_retention (cfg_retention c) in
           if shortest < ar_archive_after_days a
           then [CollectedBeforeArchived (ar_archive_after_days a) shortest] else []))"

section \<open>What a validated configuration has\<close>

lemma refuse_if_Inr [simp]: "refuse_if bad msg rest = Inr u \<longleftrightarrow> \<not> bad \<and> rest = Inr u"
  by (simp add: refuse_if_def)

lemma check_tls_Inr:
  "check_tls exists tls rest = Inr u \<longleftrightarrow>
     (\<forall>t. tls = Some t \<longrightarrow> exists (tls_cert_path t) \<and> exists (tls_key_path t)) \<and> rest = Inr u"
  by (auto simp: check_tls_def split: option.split)

definition config_ok :: "(str \<Rightarrow> bool) \<Rightarrow> server_config \<Rightarrow> bool" where
  "config_ok exists c \<longleftrightarrow>
     pi_batch_size (cfg_pipeline c) \<in> {1..100000} \<and>
     pi_max_body_bytes (cfg_pipeline c) \<in> {1..104857600} \<and>
     pi_write_timeout_secs (cfg_pipeline c) \<in> {1..300} \<and>
     pi_flush_interval_ms (cfg_pipeline c) \<in> {1..10000} \<and>
     pi_flush_shards (cfg_pipeline c) \<in> {1..64} \<and>
     sc_data_dir (cfg_storage c) \<noteq> [] \<and>
     sc_wal_shard_count (cfg_storage c) \<in> {1..64} \<and>
     sc_rollup_loop_secs (cfg_storage c) \<in> {5..3600} \<and>
     sc_size_check_interval_ms (cfg_storage c) \<le> 60000 \<and>
     lc_request_timeout_secs (cfg_server c) \<in> {1..300} \<and>
     0 < lc_max_connections (cfg_server c) \<and>
     pr_refresh_interval_secs (cfg_pricing c) \<in> {0} \<union> {60..604800} \<and>
     pr_source_url (cfg_pricing c) \<noteq> [] \<and>
     (\<forall>t. cfg_tls c = Some t \<longrightarrow> exists (tls_cert_path t) \<and> exists (tls_key_path t)) \<and>
     [] \<notin> rt_name ` set (rc_tiers (cfg_retention c)) \<and>
     rc_default_tier (cfg_retention c) \<in> rt_name ` set (rc_tiers (cfg_retention c)) \<and>
     (\<forall>e. e \<in> set (au_api_key_entries (cfg_auth c)) \<longrightarrow> entry_id e \<noteq> [] \<and> entry_secret e \<noteq> [])"

lemma config_validate_ok: "config_validate exists c = Inr () \<longleftrightarrow> config_ok exists c"
  unfolding config_validate_def config_ok_def Let_def refuse_if_Inr check_tls_Inr list_ex_iff
  by (auto simp: image_iff) metis+

text \<open>
  C35: the start-up check accepts exactly the configurations whose values are in their documented
  ranges, whose TLS files exist, whose tiers have names and include the default tier, and whose
  extended keys have an id and a secret.
\<close>

theorem config_validate_iff: "config_validate exists c = Inr () \<longleftrightarrow> config_ok exists c"
  by (rule config_validate_ok)

lemma config_default_ok: "config_validate exists server_config_default = Inr ()"
  by (simp add: config_validate_def Let_def server_config_default_def pipeline_config_default_def
      storage_config_default_def listen_config_default_def pricing_config_default_def
      retention_config_default_def check_tls_def)

text \<open>The archive section is not checked, nor are the retention periods.\<close>

lemma config_validate_ignores_archive: "config_validate exists (c \<lparr> cfg_archive := a \<rparr>) = config_validate exists c"
  by (simp add: config_validate_def Let_def)

end
