(* ===== verification/Server_Tasks.thy ===== *)
theory Server_Tasks
  imports Config Pipeline Rate_Limit
begin

text \<open>
  The server around the pipeline: \<open>crates/keplor-server/src/server.rs\<close>, with \<open>rollup.rs\<close>,
  \<open>request_id.rs\<close> and \<open>fast_json.rs\<close>. One tick of each background loop is a function of the
  clock and the store; the guards in front of a handler are composed in the order of the layers.
  Sockets, TLS, signals, metrics and log lines are left out.
\<close>

section \<open>Retention\<close>

definition DAY_NS :: int where
  "DAY_NS = 86400 * 1000000000"

text \<open>\<open>as i64\<close> of a \<open>u64\<close> wraps, and so do the products and the difference in a release build.\<close>

definition retention_cutoff :: "i64 \<Rightarrow> u64 \<Rightarrow> i64" where
  "retention_cutoff now_ns days =
     wrap_i64 (now_ns - wrap_i64 (wrap_i64 (wrap_i64 (int days) * 86400) * 1000000000))"

text \<open>One pass of \<open>gc_tiered_loop\<close>: an error of a tier is logged and the next tier follows.\<close>

definition gc_tiered_tick :: "'g engine_ops \<Rightarrow> i64 \<Rightarrow> retention_tier list \<Rightarrow> 'g kdb_store \<Rightarrow> 'g kdb_store" where
  "gc_tiered_tick ops now_ns tiers st =
     fold (\<lambda>tier st.
       if rt_days tier = 0 then st
       else snd (gc_tier ops st (rt_name tier) (retention_cutoff now_ns (rt_days tier)))) tiers st"

definition gc_tick :: "'g engine_ops \<Rightarrow> i64 \<Rightarrow> u64 \<Rightarrow> 'g kdb_store \<Rightarrow> 'g kdb_store" where
  "gc_tick ops now_ns retention_days st = snd (gc_expired ops st (retention_cutoff now_ns retention_days))"

definition wal_checkpoint_tick :: "'g engine_ops \<Rightarrow> 'g kdb_store \<Rightarrow> 'g kdb_store" where
  "wal_checkpoint_tick ops st = snd (wal_checkpoint ops st)"

section \<open>Archiving\<close>

definition archive_after :: "archive_config \<Rightarrow> u64" where
  "archive_after a =
     (if 0 < ar_archive_after_hours a then ar_archive_after_hours a
      else (ar_archive_after_days a * 24) mod 2 ^ 64)"

definition archive_due :: "u64 \<Rightarrow> u64 \<Rightarrow> store_error + u64 \<Rightarrow> bool" where
  "archive_due after_hours threshold_mb db_size \<longleftrightarrow>
     0 < after_hours \<or>
     0 < threshold_mb \<and>
       (threshold_mb * 1024 * 1024) mod 2 ^ 64 \<le> (case db_size of Inr n \<Rightarrow> n | Inl _ \<Rightarrow> 0)"

definition archive_cutoff :: "i64 \<Rightarrow> u64 \<Rightarrow> i64" where
  "archive_cutoff now_ns after_hours =
     (if 0 < after_hours
      then wrap_i64 (now_ns - wrap_i64 (wrap_i64 (wrap_i64 (int after_hours) * 3600) * 1000000000))
      else wrap_i64 (now_ns - 86400000000000))"

text \<open>One turn of \<open>archive_loop\<close>: the archiver after it, or a panic of the archive task.\<close>

definition archive_tick :: "'g engine_ops \<Rightarrow> 'o object_ops \<Rightarrow> archive_codec \<Rightarrow> externals \<Rightarrow> record_json \<Rightarrow>
    (nat \<Rightarrow> chunk_env) \<Rightarrow> i64 \<Rightarrow> bool \<Rightarrow> i64 \<Rightarrow> archive_config \<Rightarrow> ('g, 'o) archiver \<Rightarrow> ('g, 'o) archiver run" where
  "archive_tick ops oo ac ext rj env size_now lock_free now_ns a ar =
     (let (db_size, st) = (if 0 < ar_archive_threshold_mb a
            then db_size_bytes ops size_now lock_free (ar_store ar) else (Inr 0, ar_store ar));
          ar = ar \<lparr> ar_store := st \<rparr>
      in if archive_due (archive_after a) (ar_archive_threshold_mb a) db_size
         then run_bind (archive_old_events ops oo ac ext rj env ar (archive_cutoff now_ns (archive_after a))
             (ar_archive_batch_size a)) (\<lambda>(_, ar). Ret ar)
         else Ret ar)"

definition archive_s3_config_of :: "archive_config \<Rightarrow> archive_s3_config" where
  "archive_s3_config_of a = \<lparr> s3_bucket = ar_bucket a, s3_endpoint = ar_endpoint a, s3_region = ar_region a,
     s3_access_key_id = ar_access_key_id a, s3_secret_access_key = ar_secret_access_key a,
     s3_prefix = ar_key_prefix a, s3_path_style = ar_path_style a \<rparr>"

text \<open>The archiver of a running server, if its client builds and its store can be reached.\<close>

definition start_archiver :: "'o object_ops \<Rightarrow> 'g kdb_store \<Rightarrow> archive_config option \<Rightarrow> ('g, 'o) archiver option" where
  "start_archiver oo st cfg =
     (case cfg of None \<Rightarrow> None
      | Some a \<Rightarrow>
          (case archiver_new oo st (archive_s3_config_of a) of
             Inl _ \<Rightarrow> None
           | Inr ar \<Rightarrow> (case probe oo ar of Inl _ \<Rightarrow> None | Inr _ \<Rightarrow> Some ar)))"

section \<open>Pricing refresh and key reload\<close>

definition refresh_sleep_ns :: "nat \<Rightarrow> i64 \<Rightarrow> u64" where
  "refresh_sleep_ns interval_ns clock_ns =
     (let pct = f64_div (f64_of_int (clock_ns mod 2001 - 1000)) (f64_of_int 10000);
          jitter_ns = f64_to_i64 (f64_mul (f64_of_int (int interval_ns)) pct)
      in nat (max (sat_i64 (wrap_i64 (int interval_ns) + jitter_ns)) 60000000000))"

definition pricing_refresh_tick :: "(pricing_error + catalog) \<Rightarrow> catalog \<Rightarrow> catalog" where
  "pricing_refresh_tick fetched current = (case fetched of Inr fresh \<Rightarrow> fresh | Inl _ \<Rightarrow> current)"

definition sighup_reload :: "(str \<Rightarrow> u8 list) \<Rightarrow> (str + server_config) \<Rightarrow> api_key_set \<Rightarrow> api_key_set" where
  "sighup_reload sha256 loaded current =
     (case loaded of
        Inr cfg \<Rightarrow> from_config sha256 (au_api_keys (cfg_auth cfg)) (au_api_key_entries (cfg_auth cfg))
          (rc_default_tier (cfg_retention cfg))
      | Inl _ \<Rightarrow> current)"

section \<open>Tasks and shutdown\<close>

datatype background_task =
    ArchiveLoop u64 u64 usize u64 | TieredGc "retention_tier list" u64 | GlobalGc u64 u64
  | CheckpointLoop u64 | EngineStatsLoop | PricingRefresh u64 | SighupReload

text \<open>After the listener has stopped: the writer drains, then a last checkpoint.\<close>

definition run_shutdown :: "'g engine_ops \<Rightarrow> nat \<Rightarrow> nat \<Rightarrow> nat option list \<Rightarrow> 'g batch_writer \<Rightarrow> bool \<times> 'g batch_writer" where
  "run_shutdown ops now timeout finished_at bw =
     (case batch_shutdown now timeout finished_at bw of (drained, bw) \<Rightarrow>
        (drained, bw \<lparr> bw_store := snd (wal_checkpoint ops (bw_store bw)) \<rparr>))"

section \<open>CORS, request ids, content types, days\<close>

datatype cors_layer = CorsSameOrigin | CorsPermissive | CorsList "str list"

text \<open>\<open>parse\<close> says whether an origin is a valid header value.\<close>

definition build_cors_layer :: "(str \<Rightarrow> bool) \<Rightarrow> cors_config \<Rightarrow> cors_layer" where
  "build_cors_layer parse config =
     (let origins = co_allowed_origins config in
      if origins = [] then CorsSameOrigin
      else if length origins = 1 \<and> origins ! 0 = ''*'' then CorsPermissive
      else CorsList (filter parse origins))"

definition propagate_request_id :: "str \<Rightarrow> str option \<Rightarrow> str" where
  "propagate_request_id fresh_ulid header = (case header of Some v \<Rightarrow> v | None \<Rightarrow> fresh_ulid)"

definition is_json_content_type :: "str option \<Rightarrow> bool" where
  "is_json_content_type header =
     (case header of None \<Rightarrow> False
      | Some v \<Rightarrow> (let lo = to_ascii_lowercase v in
          starts_with lo ''application/json'' \<or> starts_with lo ''application/'' \<and> str_contains lo ''+json''))"

definition today_epoch :: "i64 \<Rightarrow> i64" where
  "today_epoch now_secs = now_secs - now_secs smod 86400"

section \<open>The guards in front of a handler\<close>

text \<open>
  The layers of the authenticated routes, outermost first: the key check, then the rate limit of
  that key, then the handler.
\<close>

datatype 'r guarded = GuardUnauthorized | GuardTooMany u64 | Handled 'r

definition guard_request :: "(str \<Rightarrow> str \<Rightarrow> bool) \<Rightarrow> (str \<Rightarrow> u64) \<Rightarrow> api_key_set \<Rightarrow> rate_limiter option \<Rightarrow> nat \<Rightarrow>
    str option \<Rightarrow> (authenticated_key option \<Rightarrow> 'r) \<Rightarrow> 'r guarded \<times> rate_limiter option" where
  "guard_request ct_eq hash ks limiter now header handler =
     (case require_api_key ct_eq ks header of
        Unauthorized \<Rightarrow> (GuardUnauthorized, limiter)
      | Forward auth \<Rightarrow>
          (case limiter of
             None \<Rightarrow> (Handled (handler auth), None)
           | Some rl \<Rightarrow>
               (case rate_limit_middleware hash rl now auth of
                  (rl, Pass) \<Rightarrow> (Handled (handler auth), Some rl)
                | (rl, TooManyRequests secs) \<Rightarrow> (GuardTooMany secs, Some rl))))"

section \<open>JSON bodies\<close>

datatype fast_json_error = WrongContentType | BodyError str | ParseError str

definition fast_json :: "(str \<Rightarrow> str + 'a) \<Rightarrow> str option \<Rightarrow> (str + str) \<Rightarrow> fast_json_error + 'a" where
  "fast_json parse_json content_type body =
     (if \<not> is_json_content_type content_type then Inl WrongContentType
      else case body of
        Inl e \<Rightarrow> Inl (BodyError e)
      | Inr bytes \<Rightarrow> (case parse_json bytes of Inl e \<Rightarrow> Inl (ParseError e) | Inr v \<Rightarrow> Inr v))"

fun fast_json_response :: "fast_json_error \<Rightarrow> u16 \<times> str" where
  "fast_json_response WrongContentType = (415, ''Content-Type must be application/json'')"
| "fast_json_response (BodyError _) = (400, ''failed to read body'')"
| "fast_json_response (ParseError _) = (422, ''failed to parse JSON body'')"

section \<open>Retention is exact\<close>

lemma wrap_i64_mod: "wrap_i64 x mod 2 ^ 64 = x mod 2 ^ 64"
  unfolding wrap_i64_def mod_diff_left_eq by simp

lemma wrap_i64_eqI: "x mod 2 ^ 64 = y mod 2 ^ 64 \<Longrightarrow> wrap_i64 x = wrap_i64 y"
  unfolding wrap_i64_def by (metis mod_add_left_eq)

lemma retention_cutoff_wrap: "retention_cutoff now_ns days = wrap_i64 (now_ns - int days * DAY_NS)"
proof -
  have "(now_ns - wrap_i64 (wrap_i64 (wrap_i64 (int days) * 86400) * 1000000000)) mod 2 ^ 64 =
      (now_ns - (int days * 86400) * 1000000000) mod 2 ^ 64"
    by (metis mod_diff_right_eq mod_mult_left_eq wrap_i64_mod)
  then show ?thesis
    unfolding retention_cutoff_def by (intro wrap_i64_eqI) (simp add: DAY_NS_def algebra_simps)
qed

lemma retention_cutoff_exact:
  "0 \<le> now_ns \<Longrightarrow> now_ns \<le> i64_max \<Longrightarrow> days \<le> 106751 \<Longrightarrow> retention_cutoff now_ns days = now_ns - int days * DAY_NS"
  unfolding retention_cutoff_wrap by (intro wrap_i64_id) (simp add: is_i64_def i64_bounds_num DAY_NS_def)

text \<open>What the engine promises of a collection: only rows older than the cutoff go.\<close>

definition gc_keeps :: "('g \<Rightarrow> log_event multiset) \<Rightarrow> 'g engine_ops \<Rightarrow> bool" where
  "gc_keeps rows ops \<longleftrightarrow>
     (\<forall>eng t res eng'. eng_gc ops eng t = (res, eng') \<longrightarrow>
        rows eng' \<subseteq># rows eng \<and>
        filter_mset (\<lambda>r. t \<le> le_ts_ns r) (rows eng') = filter_mset (\<lambda>r. t \<le> le_ts_ns r) (rows eng))"

lemma gc_tier_rows:
  assumes "gc_keeps rows ops" and "\<And>r. P r \<Longrightarrow> t = name \<Longrightarrow> cutoff \<le> le_ts_ns r"
  shows "stored_rows ops rows (snd (gc_tier ops st name cutoff)) t \<subseteq># stored_rows ops rows st t \<and>
    filter_mset P (stored_rows ops rows (snd (gc_tier ops st name cutoff)) t) =
    filter_mset P (stored_rows ops rows st t)"
proof -
  have keep: "rows eng' \<subseteq># rows eng \<and> (t = name \<longrightarrow> filter_mset P (rows eng') = filter_mset P (rows eng))"
    if "eng_gc ops eng cutoff = (res, eng')" for eng res eng'
  proof -
    have gc: "rows eng' \<subseteq># rows eng" "filter_mset (\<lambda>r. cutoff \<le> le_ts_ns r) (rows eng') = filter_mset (\<lambda>r. cutoff \<le> le_ts_ns r) (rows eng)"
      using assms(1) that unfolding gc_keeps_def by blast+
    have "filter_mset P M = filter_mset P (filter_mset (\<lambda>r. cutoff \<le> le_ts_ns r) M)" if "t = name" for M
      using assms(2) that by (auto simp: filter_filter_mset intro!: filter_mset_cong)
    with gc show ?thesis by metis
  qed
  have shape: "snd (gc_tier ops st name cutoff) = snd (on_tier ops (\<lambda>eng. eng_gc ops eng cutoff) st name)"
    by (simp add: gc_tier_def split: prod.split sum.split)
  show ?thesis
    unfolding shape using keep
    by (auto simp: on_tier_def engine_for_def stored_rows_def map_of_map_put
        split: option.splits sum.splits prod.splits)
qed

text \<open>
  C22: a pass of the tiered collector only removes rows, and from a tier only rows older than
  the retention of every entry of that tier; tiers without an entry and tiers kept forever are
  left alone. Retention periods up to 106751 days are exact, whatever the clock.
\<close>

theorem gc_respects_retention:
  assumes "gc_keeps rows ops" and "0 \<le> now_ns" and "now_ns \<le> i64_max"
    and "list_all (\<lambda>e. rt_days e \<le> 106751) tiers"
  shows "stored_rows ops rows (gc_tiered_tick ops now_ns tiers st) t \<subseteq># stored_rows ops rows st t \<and>
    filter_mset (\<lambda>r. list_all (\<lambda>e. rt_name e = t \<and> rt_days e \<noteq> 0 \<longrightarrow>
        now_ns - int (rt_days e) * DAY_NS \<le> le_ts_ns r) tiers) (stored_rows ops rows (gc_tiered_tick ops now_ns tiers st) t) =
    filter_mset (\<lambda>r. list_all (\<lambda>e. rt_name e = t \<and> rt_days e \<noteq> 0 \<longrightarrow>
        now_ns - int (rt_days e) * DAY_NS \<le> le_ts_ns r) tiers) (stored_rows ops rows st t)"
  using assms(4)
proof (induction tiers arbitrary: st)
  case Nil
  then show ?case by (simp add: gc_tiered_tick_def)
next
  case (Cons e tiers)
  let ?young = "\<lambda>es r. list_all (\<lambda>e. rt_name e = t \<and> rt_days e \<noteq> 0 \<longrightarrow>
    now_ns - int (rt_days e) * DAY_NS \<le> le_ts_ns r) es"
  define st1 where "st1 = (if rt_days e = 0 then st
    else snd (gc_tier ops st (rt_name e) (retention_cutoff now_ns (rt_days e))))"
  have cutoff: "retention_cutoff now_ns (rt_days e) = now_ns - int (rt_days e) * DAY_NS"
    using Cons.prems assms(2,3) by (intro retention_cutoff_exact) simp_all
  have tick: "gc_tiered_tick ops now_ns (e # tiers) st = gc_tiered_tick ops now_ns tiers st1"
    by (simp add: gc_tiered_tick_def st1_def)
  have "stored_rows ops rows st1 t \<subseteq># stored_rows ops rows st t \<and>
      filter_mset (?young (e # tiers)) (stored_rows ops rows st1 t) = filter_mset (?young (e # tiers)) (stored_rows ops rows st t)"
    using gc_tier_rows [OF assms(1), of "?young (e # tiers)" t "rt_name e" "retention_cutoff now_ns (rt_days e)" st]
    by (auto simp: st1_def cutoff)
  moreover have "filter_mset (?young (e # tiers)) (stored_rows ops rows s t) =
      filter_mset (?young [e]) (filter_mset (?young tiers) (stored_rows ops rows s t))" for s
    by (simp add: filter_filter_mset conj_commute)
  ultimately show ?case
    using Cons.IH [of st1] Cons.prems unfolding tick by (auto intro: subset_mset.order_trans)
qed

theorem gc_respects_retention_witness:
  "stored_rows list_engine mset (gc_tiered_tick list_engine 1750000000000000000
      [\<lparr> rt_name = ''free'', rt_days = 7 \<rparr>] stored_once) ''pro'' \<subseteq># stored_rows list_engine mset stored_once ''pro''"
proof -
  have "gc_keeps mset list_engine"
    by (auto simp: gc_keeps_def list_engine_def filter_filter_mset mset_filter intro!: filter_mset_cong)
  from gc_respects_retention [OF this, of 1750000000000000000 "[\<lparr> rt_name = ''free'', rt_days = 7 \<rparr>]" stored_once "''pro''"]
  show ?thesis by (simp add: i64_bounds_num)
qed

text \<open>
  Longer periods wrap around: with a retention of 200000 days the cutoff lies in the future, so
  a pass removes every row there is.
\<close>

lemma retention_cutoff_overflow: "1750000000000000000 < retention_cutoff 1750000000000000000 200000"
  by (simp add: retention_cutoff_wrap wrap_i64_def DAY_NS_def)

section \<open>Who reaches a handler\<close>

lemma require_api_key_forward:
  assumes "equality_test ct_eq" and "keys ks \<noteq> []" and "require_api_key ct_eq ks header = Forward auth"
  shows "\<exists>k secret. auth = Some k \<and> header = Some (bearer secret) \<and> (secret, key_id k, key_tier k) \<in> set (keys ks)"
proof -
  from assms(2,3) obtain secret ident tier where header: "strip_prefix (case header of Some h \<Rightarrow> h | None \<Rightarrow> []) ''Bearer '' = Some secret"
    and found: "scan_keys ct_eq secret (keys ks) None = Some (ident, tier)"
    and auth: "auth = Some \<lparr> key_id = ident, key_tier = tier \<rparr>"
    by (auto simp: require_api_key_def is_open_def matched_key_def Let_def split: if_splits option.splits)
  define l where "l = last (filter (\<lambda>k. fst k = secret) (keys ks))"
  have "filter (\<lambda>k. fst k = secret) (keys ks) \<noteq> []" and l: "snd l = (ident, tier)"
    using found by (auto simp: scan_keys_eq [OF assms(1)] l_def split: list.splits)
  from last_in_set [OF this(1)] have "l \<in> set (keys ks)" "fst l = secret" by (simp_all add: l_def)
  with l have "(secret, ident, tier) \<in> set (keys ks)" by (cases l) simp
  moreover have "header = Some (bearer secret)"
    using header by (auto simp: strip_bearer bearer_def split: option.splits)
  ultimately show ?thesis using auth by auto
qed

text \<open>
  With keys configured, a handler behind the guards runs only for a request that presents
  the secret of a configured key, and it runs under the identity of such a key; a request that
  presents none is answered 401 and costs nobody a token of the rate limit.
\<close>

theorem guard_request_identity:
  assumes "equality_test ct_eq" and "keys ks \<noteq> []"
  shows "(case guard_request ct_eq hash ks limiter now header handler of
       (Handled r, _) \<Rightarrow> \<exists>k secret. r = handler (Some k) \<and> header = Some (bearer secret) \<and>
          (secret, key_id k, key_tier k) \<in> set (keys ks)
     | (GuardTooMany _, _) \<Rightarrow> limiter \<noteq> None
     | (GuardUnauthorized, limiter') \<Rightarrow> limiter' = limiter) \<and>
    ((\<forall>secret. header = Some (bearer secret) \<longrightarrow> secret \<notin> fst ` set (keys ks)) \<longrightarrow>
      guard_request ct_eq hash ks limiter now header handler = (GuardUnauthorized, limiter))"
proof (cases "require_api_key ct_eq ks header")
  case (Forward auth)
  from require_api_key_forward [OF assms this] obtain k secret where k: "auth = Some k"
    "header = Some (bearer secret)" "(secret, key_id k, key_tier k) \<in> set (keys ks)" by blast
  then have "secret \<in> fst ` set (keys ks)" by force
  with k Forward show ?thesis
    by (auto simp: guard_request_def split: option.splits prod.splits limit_outcome.splits)
qed (simp add: guard_request_def)

theorem guard_request_identity_witness:
  "guard_request (=) length \<lparr> keys = [(''s1'', ''a'', ''free'')] \<rparr> None 0 (Some ''Bearer s2'') id = (GuardUnauthorized, None)"
proof -
  have "equality_test (=)" "keys \<lparr> keys = [(''s1'', ''a'', ''free'')] \<rparr> \<noteq> []"
    by (simp_all add: equality_test_def)
  note spec = guard_request_identity [OF this, where hash = length and limiter = None and now = 0
      and header = "Some ''Bearer s2''" and handler = id]
  show ?thesis by (rule mp [OF conjunct2 [OF spec]]) (simp add: bearer_def)
qed

end
