(* ===== verification/Routes.thy ===== *)
theory Routes
  imports Server_Tasks Kdb_Rollup
begin

text \<open>
  The HTTP handlers: \<open>crates/keplor-server/src/routes.rs\<close>, from their extracted parameters to
  the status and the body of the response. A handler that waits for the writer is two operations,
  as in the pipeline. The text form of a response and the metrics endpoint are left out.
\<close>

record ('g, 'c, 'o) app_state =
  as_pipeline :: "('g, 'c) pipeline"
  as_default_tier :: str
  as_archiver :: "('g, 'o) archiver option"

abbreviation as_store :: "('g, 'c, 'o) app_state \<Rightarrow> 'g kdb_store" where
  "as_store s \<equiv> bw_store (pl_writer (as_pipeline s))"

definition with_store :: "('g, 'c, 'o) app_state \<Rightarrow> 'g kdb_store \<Rightarrow> ('g, 'c, 'o) app_state" where
  "with_store s st =
     s \<lparr> as_pipeline := (as_pipeline s) \<lparr> pl_writer := (pl_writer (as_pipeline s)) \<lparr> bw_store := st \<rparr> \<rparr> \<rparr>"

definition caller_identity :: "('g, 'c, 'o) app_state \<Rightarrow> authenticated_key option \<Rightarrow> str option \<times> str" where
  "caller_identity s auth =
     (case auth of Some k \<Rightarrow> (Some (key_id k), key_tier k) | None \<Rightarrow> (None, as_default_tier s))"

section \<open>Ingest\<close>

record ingest_query =
  iq_durable :: bool

definition default_true :: bool where
  "default_true = True"

text \<open>The query string of \<open>POST /v1/events\<close>: \<open>durable\<close> may be absent.\<close>

definition ingest_query_of :: "bool option \<Rightarrow> ingest_query" where
  "ingest_query_of durable = \<lparr> iq_durable = (case durable of Some b \<Rightarrow> b | None \<Rightarrow> default_true) \<rparr>"

datatype ingest_reply = IngestReply "server_error + u16 \<times> ingest_response" | AwaitWrite processed

definition ingest_single :: "('g, 'c) pipe_env \<Rightarrow> pipe_call \<Rightarrow> ('g, 'c, 'o) app_state \<Rightarrow>
    authenticated_key option \<Rightarrow> str option \<Rightarrow> ingest_query \<Rightarrow> ingest_event \<Rightarrow>
    (ingest_reply \<times> ('g, 'c, 'o) app_state) run" where
  "ingest_single env call s auth idempotency_key query event =
     (let (key, tier) = caller_identity s auth in
      if iq_durable query then
        run_bind (ingest_begin env call (as_pipeline s) event key idempotency_key tier) (\<lambda>(progress, p).
          Ret (case progress of
                 Replied (Inl e) \<Rightarrow> IngestReply (Inl e)
               | Replied (Inr resp) \<Rightarrow> IngestReply (Inr (201, resp))
               | Writing q \<Rightarrow> AwaitWrite q,
               s \<lparr> as_pipeline := p \<rparr>))
      else
        run_bind (ingest_fire_and_forget env call (as_pipeline s) event key tier) (\<lambda>(res, p).
          Ret (IngestReply (case res of Inl e \<Rightarrow> Inl e | Inr resp \<Rightarrow> Inr (202, resp)),
               s \<lparr> as_pipeline := p \<rparr>)))"

definition ingest_single_end :: "('g, 'c) pipe_env \<Rightarrow> pipe_call \<Rightarrow> ('g, 'c, 'o) app_state \<Rightarrow> str option \<Rightarrow>
    processed \<Rightarrow> (store_error + event_id) wait \<Rightarrow>
    (server_error + u16 \<times> ingest_response) \<times> ('g, 'c, 'o) app_state" where
  "ingest_single_end env call s idempotency_key q w =
     (case ingest_end env call (as_pipeline s) idempotency_key q w of
        (res, p) \<Rightarrow> (case res of Inl e \<Rightarrow> Inl e | Inr resp \<Rightarrow> Inr (201, resp), s \<lparr> as_pipeline := p \<rparr>))"

definition MAX_BATCH_SIZE :: usize where
  "MAX_BATCH_SIZE = 10000"

definition check_batch_size :: "ingest_event list \<Rightarrow> server_error + unit" where
  "check_batch_size events =
     (if MAX_BATCH_SIZE < length events
      then Inl (Validation (''batch size '' @ nat_to_string (length events) @ '' exceeds maximum '' @
        nat_to_string MAX_BATCH_SIZE))
      else Inr ())"

text \<open>The header \<open>X-Keplor-Durable\<close>.\<close>

definition wants_durable :: "str option \<Rightarrow> bool" where
  "wants_durable header = (case header of None \<Rightarrow> False | Some v \<Rightarrow> to_ascii_lowercase v = ''true'')"

definition batch_response_of :: "(server_error + ingest_response) list \<Rightarrow> u16 \<times> batch_response" where
  "batch_response_of res =
     (let items = map (\<lambda>r. case r of Inr resp \<Rightarrow> ItemOk resp | Inl e \<Rightarrow> ItemErr (server_error_fmt e)) res;
          ok = length (filter (\<lambda>r. case r of Inr _ \<Rightarrow> True | Inl _ \<Rightarrow> False) res);
          bad = length (filter (\<lambda>r. case r of Inr _ \<Rightarrow> False | Inl _ \<Rightarrow> True) res)
      in (if bad = 0 then 201 else 207,
          \<lparr> batch_results = items, batch_accepted = ok, batch_rejected = bad \<rparr>))"

fun ingest_each :: "('g, 'c) pipe_env \<Rightarrow> (nat \<Rightarrow> pipe_call) \<Rightarrow> nat \<Rightarrow> str option \<Rightarrow> str \<Rightarrow> ingest_event list \<Rightarrow>
    ('g, 'c) pipeline \<Rightarrow> ((server_error + ingest_response) list \<times> ('g, 'c) pipeline) run" where
  "ingest_each env calls i key tier [] p = Ret ([], p)"
| "ingest_each env calls i key tier (event # events) p =
     run_bind (ingest_fire_and_forget env (calls i) p event key tier) (\<lambda>(res, p).
       run_bind (ingest_each env calls (i + 1) key tier events p) (\<lambda>(rest, p). Ret (res # rest, p)))"

datatype batch_reply = BatchReply "server_error + u16 \<times> batch_response" | AwaitWrites batch_acc

definition ingest_batch :: "('g, 'c) pipe_env \<Rightarrow> (nat \<Rightarrow> pipe_call) \<Rightarrow> ('g, 'c, 'o) app_state \<Rightarrow>
    authenticated_key option \<Rightarrow> str option \<Rightarrow> ingest_event list \<Rightarrow>
    (batch_reply \<times> ('g, 'c, 'o) app_state) run" where
  "ingest_batch env calls s auth durable_header events =
     (case check_batch_size events of Inl e \<Rightarrow> Ret (BatchReply (Inl e), s) | Inr _ \<Rightarrow>
      (let (key, tier) = caller_identity s auth in
       if wants_durable durable_header then
         run_bind (ingest_batch_begin env calls (as_pipeline s) events key tier) (\<lambda>(b, p).
           Ret (case b of Inl res \<Rightarrow> BatchReply (Inr (batch_response_of res)) | Inr acc \<Rightarrow> AwaitWrites acc,
                s \<lparr> as_pipeline := p \<rparr>))
       else
         run_bind (ingest_each env calls 0 key tier events (as_pipeline s)) (\<lambda>(res, p).
           Ret (BatchReply (Inr (batch_response_of res)), s \<lparr> as_pipeline := p \<rparr>))))"

definition ingest_batch_finish :: "('g, 'c) pipe_env \<Rightarrow> ('g, 'c, 'o) app_state \<Rightarrow> batch_acc \<Rightarrow>
    (store_error + event_id) list wait \<Rightarrow> (u16 \<times> batch_response) run" where
  "ingest_batch_finish env s acc w =
     run_bind (ingest_batch_end env (as_pipeline s) acc w) (\<lambda>res. Ret (batch_response_of res))"

section \<open>Query\<close>

record event_query =
  q_user_id :: "str option"
  q_api_key_id :: "str option"
  q_model :: "str option"
  q_provider :: "str option"
  q_source :: "str option"
  q_from :: "i64 option"
  q_to :: "i64 option"
  q_status_min :: "u16 option"
  q_status_max :: "u16 option"
  q_user_tag :: "str option"
  q_session_tag :: "str option"
  q_limit :: "u32 option"
  q_cursor :: "i64 option"
  q_include_archived :: bool

record usage_response =
  ur_input_tokens :: u32
  ur_output_tokens :: u32
  ur_cache_read_input_tokens :: u32
  ur_cache_creation_input_tokens :: u32
  ur_reasoning_tokens :: u32

record event_response =
  er_id :: str
  er_timestamp :: i64
  er_model :: str
  er_provider :: str
  er_usage :: usage_response
  er_cost_nanodollars :: i64
  er_latency_total_ms :: u32
  er_latency_ttft_ms :: "u32 option"
  er_http_status :: "u16 option"
  er_source :: "str option"
  er_user_id :: "str option"
  er_api_key_id :: "str option"
  er_endpoint :: str
  er_streaming :: bool
  er_error :: "str option"
  er_metadata :: "json option"
  er_client_ip :: "str option"
  er_user_agent :: "str option"

record event_list_response =
  el_events :: "event_response list"
  el_cursor :: "i64 option"
  el_has_more :: bool
  el_has_archived_data :: bool

definition query_to_filter :: "event_query \<Rightarrow> event_filter" where
  "query_to_filter q = \<lparr> f_user_id = q_user_id q, f_api_key_id = q_api_key_id q, f_model = q_model q,
     f_provider = q_provider q, f_source = q_source q, f_from_ts_ns = q_from q, f_to_ts_ns = q_to q,
     f_http_status_min = q_status_min q, f_http_status_max = q_status_max q,
     f_meta_user_tag = q_user_tag q, f_meta_session_tag = q_session_tag q \<rparr>"

definition summary_to_response :: "externals \<Rightarrow> event_summary \<Rightarrow> event_response" where
  "summary_to_response ext e = \<lparr>
     er_id = event_id_fmt (ulid_to_string ext) (es_id e), er_timestamp = es_ts_ns e,
     er_model = es_model e, er_provider = es_provider e,
     er_usage = \<lparr> ur_input_tokens = es_input_tokens e, ur_output_tokens = es_output_tokens e,
       ur_cache_read_input_tokens = es_cache_read_input_tokens e,
       ur_cache_creation_input_tokens = es_cache_creation_input_tokens e,
       ur_reasoning_tokens = es_reasoning_tokens e \<rparr>,
     er_cost_nanodollars = es_cost_nanodollars e, er_latency_total_ms = es_total_ms e,
     er_latency_ttft_ms = es_ttft_ms e, er_http_status = es_http_status e, er_source = es_source e,
     er_user_id = es_user_id e, er_api_key_id = es_api_key_id e, er_endpoint = es_endpoint e,
     er_streaming = es_streaming e, er_error = es_error_type e,
     er_metadata = Option.bind (es_metadata_json e) (\<lambda>s.
       case json_from_str ext s of Inl _ \<Rightarrow> None | Inr v \<Rightarrow> Some v),
     er_client_ip = es_client_ip e, er_user_agent = es_user_agent e \<rparr>"

definition llm_event_to_response :: "externals \<Rightarrow> llm_event \<Rightarrow> event_response" where
  "llm_event_to_response ext ev = \<lparr>
     er_id = event_id_fmt (ulid_to_string ext) (ev_id ev), er_timestamp = ev_ts_ns ev,
     er_model = ev_model ev, er_provider = id_key (ev_provider ev),
     er_usage = \<lparr> ur_input_tokens = input_tokens (ev_usage ev), ur_output_tokens = output_tokens (ev_usage ev),
       ur_cache_read_input_tokens = cache_read_input_tokens (ev_usage ev),
       ur_cache_creation_input_tokens = cache_creation_input_tokens (ev_usage ev),
       ur_reasoning_tokens = reasoning_tokens (ev_usage ev) \<rparr>,
     er_cost_nanodollars = ev_cost_nanodollars ev, er_latency_total_ms = total_ms (ev_latency ev),
     er_latency_ttft_ms = ttft_ms (ev_latency ev), er_http_status = ev_http_status ev,
     er_source = ev_source ev, er_user_id = map_option user_str (ev_user_id ev),
     er_api_key_id = map_option api_key_str (ev_api_key_id ev), er_endpoint = ev_endpoint ev,
     er_streaming = has_flag (ev_flags ev) STREAMING,
     er_error = map_option provider_error_type_key (ev_error ev), er_metadata = ev_metadata ev,
     er_client_ip = map_option (ip_to_string ext) (ev_client_ip ev), er_user_agent = ev_user_agent ev \<rparr>"

text \<open>
  The merge with archives. The sort by timestamp and id, both descending, is two stable passes:
  a stable descending sort by id, then one by timestamp.
\<close>

definition newest_then_id :: "event_response list \<Rightarrow> event_response list" where
  "newest_then_id es = sort_key (\<lambda>e. - er_timestamp e) (rev (sort_key er_id (rev es)))"

definition archived_passes :: "str option \<Rightarrow> i64 option \<Rightarrow> i64 option \<Rightarrow> llm_event \<Rightarrow> bool" where
  "archived_passes user_filter from_ts to_ts ev \<longleftrightarrow>
     (case from_ts of None \<Rightarrow> i64_min | Some a \<Rightarrow> a) \<le> ev_ts_ns ev \<and>
     ev_ts_ns ev \<le> (case to_ts of None \<Rightarrow> i64_max | Some b \<Rightarrow> b) \<and>
     (case user_filter of None \<Rightarrow> True | Some u \<Rightarrow> map_option user_str (ev_user_id ev) = Some u)"

definition merge_archived_events :: "'o object_ops \<Rightarrow> archive_codec \<Rightarrow> externals \<Rightarrow> event_response list \<Rightarrow>
    ('g, 'c, 'o) app_state \<Rightarrow> str option \<Rightarrow> i64 option \<Rightarrow> i64 option \<Rightarrow> usize \<Rightarrow> event_response list" where
  "merge_archived_events oo ac ext live s user_filter from_ts to_ts limit =
     (case as_archiver s of None \<Rightarrow> live
      | Some ar \<Rightarrow>
          (case list_archives (as_store s) user_filter from_ts to_ts of
             Inl _ \<Rightarrow> live
           | Inr manifests \<Rightarrow>
               if manifests = [] then live
               else
                 (let archived = concat (map (\<lambda>m. case fetch_one oo ac ext ar m of
                        Inr events \<Rightarrow> events | Inl _ \<Rightarrow> []) manifests)
                  in take limit (newest_then_id (live @
                       map (llm_event_to_response ext) (filter (archived_passes user_filter from_ts to_ts) archived))))))"

definition page_limit :: "u32 \<Rightarrow> u32 option \<Rightarrow> u32" where
  "page_limit dflt limit = min (case limit of None \<Rightarrow> dflt | Some l \<Rightarrow> l) 1000"

definition query_events :: "('g, 'c) pipe_env \<Rightarrow> 'o object_ops \<Rightarrow> archive_codec \<Rightarrow> ('g, 'c, 'o) app_state \<Rightarrow>
    event_query \<Rightarrow> (server_error + event_list_response) run" where
  "query_events env oo ac s q =
     (let limit = page_limit 50 (q_limit q);
          st = as_store s;
          ext = pe_ext env
      in case query_summary (pe_ops env) ext st (query_to_filter q) (limit + 1) (map_option Cursor (q_cursor q)) of
           Panic \<Rightarrow> Panic
         | Ret (Inl e) \<Rightarrow> Ret (Inl (StoreErr e))
         | Ret (Inr events) \<Rightarrow>
             (let has_more = unat limit < length events;
                  page = take (unat limit) events;
                  next_cursor = (if page = [] then None else Some (es_ts_ns (last page)));
                  responses = map (summary_to_response ext) page;
                  has_archived = (case has_archived_data st (q_from q) (q_to q) of Inr b \<Rightarrow> b | Inl _ \<Rightarrow> False);
                  responses = (if q_include_archived q
                    then merge_archived_events oo ac ext responses s (q_user_id q) (q_from q) (q_to q) (unat limit)
                    else responses)
              in Ret (Inr \<lparr> el_events = responses, el_cursor = (if has_more then next_cursor else None),
                   el_has_more = has_more, el_has_archived_data = has_archived \<rparr>)))"

section \<open>Aggregates\<close>

record quota_query =
  qq_user_id :: "str option"
  qq_api_key_id :: "str option"
  qq_from :: i64

record quota_response =
  qr_cost_nanodollars :: i64
  qr_event_count :: i64

definition query_quota :: "'g engine_ops \<Rightarrow> 'g kdb_store \<Rightarrow> quota_query \<Rightarrow> server_error + quota_response" where
  "query_quota ops st q =
     (if qq_user_id q = None \<and> qq_api_key_id q = None
      then Inl (Validation ''at least one of user_id or api_key_id is required'')
      else case quota_summary_of ops st (qq_user_id q) (qq_api_key_id q) (qq_from q) of
        Inl e \<Rightarrow> Inl (StoreErr e)
      | Inr summary \<Rightarrow> Inr \<lparr> qr_cost_nanodollars = quota_cost_nanodollars summary,
          qr_event_count = quota_event_count summary \<rparr>)"

definition ns_to_day_epoch :: "i64 \<Rightarrow> i64" where
  "ns_to_day_epoch ns = (let secs = ns sdiv 1000000000 in secs - secs smod 86400)"

record rollups_query =
  rq_user_id :: "str option"
  rq_api_key_id :: "str option"
  rq_from :: i64
  rq_to :: i64
  rq_limit :: "u32 option"
  rq_offset :: "u32 option"

text \<open>An entry has the fields of a rollup row, and a statistics entry those of an aggregate row.\<close>

type_synonym rollup_entry = rollup_row
type_synonym stat_entry = aggregate_row

record rollups_response =
  rs_rollups :: "rollup_entry list"
  rs_has_more :: bool

definition rollups_page :: "'g engine_ops \<Rightarrow> ((rollup_key \<times> rollup_acc) list \<Rightarrow> (rollup_key \<times> rollup_acc) list) \<Rightarrow>
    'g kdb_store \<Rightarrow> rollups_query \<Rightarrow> server_error + rollups_response" where
  "rollups_page ops ord st q =
     (let from_day = ns_to_day_epoch (rq_from q);
          to_day = ns_to_day_epoch (rq_to q);
          limit = page_limit 100 (rq_limit q);
          offset = (case rq_offset q of None \<Rightarrow> 0 | Some n \<Rightarrow> n)
      in case query_rollups ops ord st (rq_user_id q) (rq_api_key_id q) from_day to_day (limit + 1) offset of
           Inl e \<Rightarrow> Inl (StoreErr e)
         | Inr rows \<Rightarrow> Inr \<lparr> rs_rollups = take (unat limit) rows, rs_has_more = (unat limit < length rows) \<rparr>)"

record stats_query =
  sq_user_id :: "str option"
  sq_api_key_id :: "str option"
  sq_from :: i64
  sq_to :: i64
  sq_provider :: "str option"
  sq_group_by :: "str option"
  sq_limit :: "u32 option"
  sq_offset :: "u32 option"

record stats_response =
  ss_stats :: "stat_entry list"
  ss_has_more :: bool

definition stats_page :: "'g engine_ops \<Rightarrow> ((rollup_key \<times> rollup_acc) list \<Rightarrow> (rollup_key \<times> rollup_acc) list) \<Rightarrow>
    (((str \<times> str) \<times> rollup_acc) list \<Rightarrow> ((str \<times> str) \<times> rollup_acc) list) \<Rightarrow> 'g kdb_store \<Rightarrow>
    stats_query \<Rightarrow> server_error + stats_response" where
  "stats_page ops ord ord' st q =
     (let from_day = ns_to_day_epoch (sq_from q);
          to_day = ns_to_day_epoch (sq_to q);
          group_by_model = (sq_group_by q = Some ''model'');
          limit = page_limit 100 (sq_limit q);
          offset = (case sq_offset q of None \<Rightarrow> 0 | Some n \<Rightarrow> n)
      in case aggregate_stats ops ord ord' st (sq_user_id q) (sq_api_key_id q) from_day to_day
             (sq_provider q) group_by_model (limit + 1) offset of
           Inl e \<Rightarrow> Inl (StoreErr e)
         | Inr rows \<Rightarrow> Inr \<lparr> ss_stats = take (unat limit) rows, ss_has_more = (unat limit < length rows) \<rparr>)"

section \<open>Deletion\<close>

definition delete_event_route :: "'g engine_ops \<Rightarrow> externals \<Rightarrow> 'g kdb_store \<Rightarrow> str \<Rightarrow>
    (server_error + u16) \<times> 'g kdb_store" where
  "delete_event_route ops ext st i =
     (case event_id_from_str (ulid_from_string ext) i of
        Inl _ \<Rightarrow> (Inl (Validation ''invalid event id''), st)
      | Inr event_id \<Rightarrow>
          (case delete_event ops ext st event_id of
             (Inl e, st) \<Rightarrow> (Inl (StoreErr e), st)
           | (Inr deleted, st) \<Rightarrow> (Inr (if deleted then 204 else 404), st)))"

definition ERASE_BATCH :: u32 where
  "ERASE_BATCH = 1000"

text \<open>The loop that erases a user: pages of ids, each deleted; \<open>None\<close> is a loop that does not end.\<close>

partial_function (option) erase_loop :: "'g engine_ops \<Rightarrow> externals \<Rightarrow> str \<Rightarrow> 'g kdb_store \<Rightarrow> usize \<Rightarrow>
    ((server_error + usize) \<times> 'g kdb_store) run option" where
  "erase_loop ops ext user st n =
     (case kdb_query ops ext st (event_filter_default \<lparr> f_user_id := Some user \<rparr>) ERASE_BATCH None of
        Panic \<Rightarrow> Some Panic
      | Ret (Inl e) \<Rightarrow> Some (Ret (Inl (StoreErr e), st))
      | Ret (Inr events) \<Rightarrow>
          (let ids = map ev_id events in
           if ids = [] then Some (Ret (Inr n, st))
           else case delete_events_by_ids ops ext st ids of
             (Inl e, st) \<Rightarrow> Some (Ret (Inl (StoreErr e), st))
           | (Inr deleted, st) \<Rightarrow>
               if deleted = 0 \<or> length ids < unat ERASE_BATCH then Some (Ret (Inr (n + deleted), st))
               else erase_loop ops ext user st (n + deleted)))"

record delete_events_query =
  dq_older_than_days :: "u32 option"
  dq_user_id :: "str option"

record delete_events_response =
  dr_events_deleted :: usize
  dr_blobs_deleted :: usize

definition delete_events_bulk :: "'g engine_ops \<Rightarrow> externals \<Rightarrow> i64 \<Rightarrow> 'g kdb_store \<Rightarrow> delete_events_query \<Rightarrow>
    ((server_error + delete_events_response) \<times> 'g kdb_store) run option" where
  "delete_events_bulk ops ext now_ns st q =
     (case (dq_older_than_days q, dq_user_id q) of
        (Some _, Some _) \<Rightarrow> Some (Ret (Inl (Validation ''older_than_days and user_id are mutually exclusive''), st))
      | (None, None) \<Rightarrow> Some (Ret (Inl (Validation ''one of older_than_days or user_id is required''), st))
      | (Some days, None) \<Rightarrow>
          if days = 0 then Some (Ret (Inl (Validation ''older_than_days must be > 0''), st))
          else (case gc_expired ops st (retention_cutoff now_ns (unat days)) of
            (Inl e, st) \<Rightarrow> Some (Ret (Inl (StoreErr e), st))
          | (Inr stats, st) \<Rightarrow> Some (Ret (Inr \<lparr> dr_events_deleted = events_deleted stats,
              dr_blobs_deleted = blobs_deleted stats \<rparr>, st)))
      | (None, Some user) \<Rightarrow>
          if trim user = [] then Some (Ret (Inl (Validation ''user_id must not be empty''), st))
          else (case erase_loop ops ext user st 0 of
            None \<Rightarrow> None
          | Some Panic \<Rightarrow> Some Panic
          | Some (Ret (Inl e, st)) \<Rightarrow> Some (Ret (Inl e, st))
          | Some (Ret (Inr n, st)) \<Rightarrow> Some (Ret (Inr \<lparr> dr_events_deleted = n, dr_blobs_deleted = 0 \<rparr>, st))))"

section \<open>Export and health\<close>

fun join_lines :: "str list \<Rightarrow> str" where
  "join_lines [] = []"
| "join_lines [l] = l"
| "join_lines (l # ls) = l @ CHR 0x0A # join_lines ls"

text \<open>\<open>print\<close> is the JSON text of a response; one that has none is skipped.\<close>

definition export_route :: "'g engine_ops \<Rightarrow> externals \<Rightarrow> (event_response \<Rightarrow> str option) \<Rightarrow> 'g kdb_store \<Rightarrow>
    event_query \<Rightarrow> (server_error + str) run option" where
  "export_route ops ext print st q =
     (case export_events ops ext st (query_to_filter q) of
        None \<Rightarrow> None
      | Some (Panic, _) \<Rightarrow> Some Panic
      | Some (Ret (Inl e), _) \<Rightarrow> Some (Ret (Inl (StoreErr e)))
      | Some (Ret (Inr _), sent) \<Rightarrow>
          (let lines = List.map_filter (\<lambda>e. print (summary_to_response ext e)) sent
           in Some (Ret (Inr (join_lines lines)))))"

record health_report =
  hr_code :: u16
  hr_status :: str
  hr_db :: str
  hr_queue_depth :: usize
  hr_queue_capacity :: usize
  hr_queue_pct :: u32

definition health :: "'g engine_ops \<Rightarrow> ('g, 'c, 'o) app_state \<Rightarrow> health_report" where
  "health ops s =
     (let db_ok = (case health_probe ops (as_store s) of Inr _ \<Rightarrow> True | Inl _ \<Rightarrow> False);
          depth = queue_depth (pl_writer (as_pipeline s));
          capacity = max_capacity (pl_writer (as_pipeline s));
          pct = (if 0 < capacity
            then word_of_int (max 0 (min 4294967295 (f64_to_i64 (f64_mul (f64_div (f64_of_int (int depth))
              (f64_of_int (int capacity))) (f64_of_int 100)))))
            else 0)
      in \<lparr> hr_code = (if db_ok then 200 else 503), hr_status = (if db_ok then ''ok'' else ''degraded''),
           hr_db = (if db_ok then ''connected'' else ''unavailable''), hr_queue_depth = depth,
           hr_queue_capacity = capacity, hr_queue_pct = pct \<rparr>)"

end
