(* ===== verification/Routes_Safe.thy ===== *)
theory Routes_Safe
  imports Routes Pipeline_Safe Archive_Safe
begin

text \<open>
  What the handlers promise: the erasure of a user ends and removes exactly that user's rows, a
  page of events is the newest ones and says truly whether there are more, and the counts of a
  batch response add up.
\<close>

section \<open>Erasing a user\<close>

definition owned :: "str \<Rightarrow> log_event \<Rightarrow> bool" where
  "owned user r \<longleftrightarrow> DIM_USER_ID < length (le_dims r) \<and> le_dims r ! DIM_USER_ID = user"

definition user_filter :: "str \<Rightarrow> query_filter" where
  "user_filter user = build_query_filter (event_filter_default \<lparr> f_user_id := Some user \<rparr>) None"

text \<open>What the engine promises of the user filter, and of a delete.\<close>

definition user_law :: "('g \<Rightarrow> log_event multiset) \<Rightarrow> ('g \<Rightarrow> query_filter \<Rightarrow> log_event list) \<Rightarrow> str \<Rightarrow> bool" where
  "user_law rows hits user \<longleftrightarrow> (\<forall>eng. mset (hits eng (user_filter user)) = filter_mset (owned user) (rows eng))"

definition delete_succeeds :: "'g engine_ops \<Rightarrow> bool" where
  "delete_succeeds ops \<longleftrightarrow> (\<forall>eng ids. fst (eng_delete_events ops eng ids) = Inr ())"

text \<open>A row that decodes, to an event whose id prints as the id of the row.\<close>

definition row_reads :: "externals \<Rightarrow> (log_event \<Rightarrow> llm_event) \<Rightarrow> log_event \<Rightarrow> bool" where
  "row_reads ext dec r \<longleftrightarrow> from_event_ref ext r = Ret (Inr (dec r)) \<and>
     event_id_fmt (ulid_to_string ext) (ev_id (dec r)) = le_id r"

lemma each_engine_succeeds:
  assumes "\<And>eng. fst (act eng) = Inr ()"
  shows "\<exists>rs es'. each_engine act es = (Inr rs, es')"
proof (induction es)
  case (Cons p es)
  obtain tier eng where p: "p = (tier, eng)" by (cases p)
  obtain eng' where "act eng = (Inr (), eng')" using assms [of eng] by (metis prod.collapse)
  with Cons p show ?case by auto
qed simp

lemma delete_ids_removes:
  assumes "delete_law rows ops" and "delete_succeeds ops" and "ids \<noteq> []"
  obtains st' where "delete_events_by_ids ops ext st ids = (Inr (length ids), st')"
    and "engine_rows rows st' =
      filter_mset (\<lambda>r. le_id r \<notin> event_id_fmt (ulid_to_string ext) ` set ids) (engine_rows rows st)"
proof -
  let ?act = "\<lambda>eng. eng_delete_events ops eng (map (event_id_fmt (ulid_to_string ext)) ids)"
  obtain rs es' where each: "each_engine ?act (ks_engines st) = (Inr rs, es')"
    using each_engine_succeeds [of ?act "ks_engines st"] assms(2) by (auto simp: delete_succeeds_def)
  let ?P = "\<lambda>r. le_id r \<notin> event_id_fmt (ulid_to_string ext) ` set ids"
  have act: "rows eng' = filter_mset ?P (rows eng)" if "?act eng = (Inr u, eng')" for eng eng' u
    using assms(1) that by (simp add: delete_law_def)
  have "(\<Sum>p\<leftarrow>es'. rows (snd p)) = filter_mset ?P (\<Sum>p\<leftarrow>ks_engines st. rows (snd p))"
    by (rule each_engine_rows [where act = ?act, OF act each])
  with each assms(3) that [of "st \<lparr> ks_engines := es' \<rparr>"] show ?thesis
    by (simp add: delete_events_by_ids_def over_engines_def engine_rows_def all_engines_def comp_def)
qed

lemma mset_matching_owned:
  assumes "user_law rows hits user"
  shows "mset (matching dec hits st (user_filter user)) = image_mset dec (filter_mset (owned user) (engine_rows rows st))"
proof -
  have "(\<Sum>eng\<leftarrow>es. image_mset dec (mset (hits eng (user_filter user)))) =
      image_mset dec (filter_mset (owned user) (\<Sum>eng\<leftarrow>es. rows eng))" for es
    using assms by (induction es) (simp_all add: user_law_def)
  then show ?thesis by (simp add: matching_def mset_concat comp_def engine_rows_def)
qed

lemma rows_decode_owned:
  assumes "user_law rows hits user"
    and "\<And>r. r \<in># engine_rows rows st \<Longrightarrow> owned user r \<Longrightarrow> row_reads ext dec r"
  shows "rows_decode ext dec hits st (user_filter user)"
proof -
  have "from_event_ref ext r = Ret (Inr (dec r))" if "eng \<in> set (all_engines st)" "r \<in> set (hits eng (user_filter user))" for eng r
  proof -
    have "r \<in># filter_mset (owned user) (rows eng)"
      using assms(1) that(2) unfolding user_law_def by (metis set_mset_mset)
    then have "r \<in># rows eng" "owned user r" by simp_all
    then have "r \<in># engine_rows rows st" using that(1) by (auto simp: engine_rows_def)
    with assms(2) \<open>owned user r\<close> show ?thesis by (simp add: row_reads_def)
  qed
  then show ?thesis by (simp add: rows_decode_def list_all_iff)
qed

definition owned_ids :: "('g \<Rightarrow> log_event multiset) \<Rightarrow> str \<Rightarrow> 'g kdb_store \<Rightarrow> str set" where
  "owned_ids rows user st = le_id ` set_mset (filter_mset (owned user) (engine_rows rows st))"

lemma erase_page:
  assumes "recent_law ops hits" and "user_law rows hits user"
    and "\<And>r. r \<in># engine_rows rows st \<Longrightarrow> owned user r \<Longrightarrow> row_reads ext dec r"
  obtains events where "mset events = image_mset dec (filter_mset (owned user) (engine_rows rows st))"
    and "kdb_query ops ext st (event_filter_default \<lparr> f_user_id := Some user \<rparr>) ERASE_BATCH None =
      Ret (Inr (take 1000 events))"
    and "(\<lambda>e. event_id_fmt (ulid_to_string ext) (ev_id e)) ` set events = owned_ids rows user st"
proof -
  let ?es = "sort_key (\<lambda>e. - ev_ts_ns e) (matching dec hits st (user_filter user))"
  have events: "mset ?es = image_mset dec (filter_mset (owned user) (engine_rows rows st))"
    using mset_matching_owned [OF assms(2)] by simp
  have "set ?es = dec ` set_mset (filter_mset (owned user) (engine_rows rows st))"
    using arg_cong [OF events, of set_mset] by simp
  then have "(\<lambda>e. event_id_fmt (ulid_to_string ext) (ev_id e)) ` set ?es = owned_ids rows user st"
    using assms(3) by (auto simp: owned_ids_def image_image row_reads_def intro!: image_cong)
  with that [OF events] kdb_query_eq [OF assms(1) rows_decode_owned [OF assms(2,3), unfolded user_filter_def], where limit = ERASE_BATCH]
  show ?thesis by (simp add: user_filter_def ERASE_BATCH_def)
qed

lemma erase_loop_ends:
  assumes laws: "recent_law ops hits" "user_law rows hits user" "delete_law rows ops" "delete_succeeds ops"
    and "\<And>r. r \<in># engine_rows rows st \<Longrightarrow> owned user r \<Longrightarrow> row_reads ext dec r"
  shows "\<exists>n st'. erase_loop ops ext user st k = Some (Ret (Inr n, st')) \<and>
    engine_rows rows st' = filter_mset (\<lambda>r. le_id r \<notin> owned_ids rows user st) (engine_rows rows st)"
  using assms(5)
proof (induction "size (filter_mset (owned user) (engine_rows rows st))" arbitrary: st k rule: less_induct)
  case less
  let ?fmt = "\<lambda>e. event_id_fmt (ulid_to_string ext) (ev_id e)" and ?R = "engine_rows rows st"
  obtain events where events: "mset events = image_mset dec (filter_mset (owned user) ?R)"
    and query: "kdb_query ops ext st (event_filter_default \<lparr> f_user_id := Some user \<rparr>) ERASE_BATCH None =
      Ret (Inr (take 1000 events))"
    and ids: "?fmt ` set events = owned_ids rows user st"
    using erase_page [OF laws(1,2) less.prems] by blast
  show ?case
  proof (cases "events = []")
    case True
    then have "owned_ids rows user st = {}" using ids by simp
    then show ?thesis using True query by (simp add: erase_loop.simps)
  next
    case False
    let ?ids = "map ev_id (take 1000 events)"
    have ne: "?ids \<noteq> []" using False by simp
    obtain st1 where del: "delete_events_by_ids ops ext st ?ids = (Inr (length ?ids), st1)"
      and rows1: "engine_rows rows st1 = filter_mset (\<lambda>r. le_id r \<notin> ?fmt ` set (take 1000 events)) ?R"
      by (rule delete_ids_removes [OF laws(3,4) ne, of ext st]) (simp add: image_image)
    have sub: "?fmt ` set (take 1000 events) \<subseteq> owned_ids rows user st"
      using ids set_take_subset [of 1000 events] by blast
    have step: "erase_loop ops ext user st k =
        (if length ?ids < 1000 then Some (Ret (Inr (k + length ?ids), st1))
         else erase_loop ops ext user st1 (k + length ?ids))"
      using query del ne by (subst erase_loop.simps) (simp add: ERASE_BATCH_def Let_def)
    show ?thesis
    proof (cases "length events < 1000")
      case True
      then show ?thesis using step rows1 ids by simp
    next
      case full: False
      have "owned_ids rows user st1 = owned_ids rows user st - ?fmt ` set (take 1000 events)"
        by (auto simp: owned_ids_def rows1)
      then have ids1: "?fmt ` set (take 1000 events) \<union> owned_ids rows user st1 = owned_ids rows user st"
        using sub by blast
      obtain r where r: "r \<in># filter_mset (owned user) ?R" "le_id r \<in> ?fmt ` set (take 1000 events)"
        using sub False by (cases events) (auto simp: owned_ids_def)
      have "filter_mset (owned user) (engine_rows rows st1) =
          filter_mset (\<lambda>r. le_id r \<notin> ?fmt ` set (take 1000 events)) (filter_mset (owned user) ?R)"
        by (auto simp: rows1 filter_filter_mset intro!: filter_mset_cong)
      then have "filter_mset (owned user) (engine_rows rows st1) \<subset># filter_mset (owned user) ?R"
        using r by (metis (no_types, lifting) filter_mset_eq_conv multiset_filter_subset subset_mset.nless_le)
      then have "size (filter_mset (owned user) (engine_rows rows st1)) < size (filter_mset (owned user) ?R)"
        by (rule mset_subset_size)
      from less.hyps [OF this, of "k + length ?ids"] less.prems obtain n st' where
        "erase_loop ops ext user st1 (k + length ?ids) = Some (Ret (Inr n, st'))"
        "engine_rows rows st' = filter_mset (\<lambda>r. le_id r \<notin> owned_ids rows user st1) (engine_rows rows st1)"
        by (auto simp: rows1)
      then show ?thesis
        using step full ids1 by (auto simp: rows1 filter_filter_mset intro!: filter_mset_cong)
    qed
  qed
qed


section \<open>Pages of events\<close>

definition live_events :: "(log_event \<Rightarrow> llm_event) \<Rightarrow> ('g \<Rightarrow> query_filter \<Rightarrow> log_event list) \<Rightarrow> 'g kdb_store \<Rightarrow>
    event_query \<Rightarrow> llm_event list" where
  "live_events dec hits st q =
     sort_key (\<lambda>e. - ev_ts_ns e) (matching dec hits st (build_query_filter (query_to_filter q) None))"

definition shown :: "externals \<Rightarrow> llm_event \<Rightarrow> event_response" where
  "shown ext e = summary_to_response ext (llm_to_summary ext e)"

lemma page_limit_le: "unat (page_limit dflt limit) \<le> 1000"
proof -
  have "page_limit dflt limit \<le> 1000" by (simp add: page_limit_def)
  then show ?thesis by (simp add: word_le_nat_alt)
qed

lemma page_limit_bound: "unat (page_limit dflt limit + 1) = unat (page_limit dflt limit) + 1"
  using page_limit_le [of dflt limit] by (simp add: unat_word_ariths)

lemma query_events_eq:
  assumes "recent_law (pe_ops env) hits" and "cursor_law hits"
    and "rows_decode (pe_ext env) dec hits (as_store s) (build_query_filter (query_to_filter q) None)"
    and "\<not> q_include_archived q"
  defines "L \<equiv> unat (page_limit 50 (q_limit q))"
    and "es \<equiv> older_than (map_option Cursor (q_cursor q)) (live_events dec hits (as_store s) q)"
  shows "\<exists>resp. query_events env oo ac s q = Ret (Inr resp) \<and>
    el_events resp = map (shown (pe_ext env)) (take L es) \<and> el_has_more resp = (L < length es) \<and>
    el_cursor resp = (if L < length es \<and> 0 < L then Some (ev_ts_ns (last (take L es))) else None)"
proof -
  have page: "kdb_query (pe_ops env) (pe_ext env) (as_store s) (query_to_filter q) (page_limit 50 (q_limit q) + 1)
      (map_option Cursor (q_cursor q)) = Ret (Inr (take (L + 1) es))"
    using export_page [OF assms(1-3), of "page_limit 50 (q_limit q) + 1" "map_option Cursor (q_cursor q)"]
    by (simp add: page_limit_bound L_def es_def live_events_def)
  show ?thesis
    using assms(4)
    by (auto simp: query_events_def query_summary_def page Let_def L_def [symmetric] shown_def take_map last_map
        llm_to_summary_def [of _ "last (take L es)"] min_def)
qed

text \<open>
  C21: a page of events is the newest matching ones up to the limit, which is at most 1000, and
  it says that there are more exactly when there are; and following its cursor gives the next
  page without a gap or a repetition, when no two matching events share a timestamp.
\<close>

theorem event_pages_tile:
  assumes "recent_law (pe_ops env) hits" and "cursor_law hits"
    and "rows_decode (pe_ext env) dec hits (as_store s) (build_query_filter (query_to_filter q) None)"
    and "\<not> q_include_archived q" and "q_cursor q = None"
  defines "L \<equiv> unat (page_limit 50 (q_limit q))" and "es \<equiv> live_events dec hits (as_store s) q"
  shows "L \<le> 1000 \<and> (\<exists>resp. query_events env oo ac s q = Ret (Inr resp) \<and>
    el_events resp = map (shown (pe_ext env)) (take L es) \<and> el_has_more resp = (L < length es) \<and>
    (L < length es \<and> 0 < L \<and> distinct (map ev_ts_ns es) \<longrightarrow>
      (\<exists>resp'. query_events env oo ac s (q \<lparr> q_cursor := el_cursor resp \<rparr>) = Ret (Inr resp') \<and>
        el_events resp' = map (shown (pe_ext env)) (take L (drop L es)))))"
proof -
  obtain resp where resp: "query_events env oo ac s q = Ret (Inr resp)"
    "el_events resp = map (shown (pe_ext env)) (take L es)" "el_has_more resp = (L < length es)"
    "el_cursor resp = (if L < length es \<and> 0 < L then Some (ev_ts_ns (last (take L es))) else None)"
    using query_events_eq [OF assms(1-4), of oo ac] assms(5) by (auto simp: older_than_def L_def es_def)
  have "\<exists>resp'. query_events env oo ac s (q \<lparr> q_cursor := el_cursor resp \<rparr>) = Ret (Inr resp') \<and>
      el_events resp' = map (shown (pe_ext env)) (take L (drop L es))"
    if more: "L < length es" "0 < L" "distinct (map ev_ts_ns es)"
  proof -
    let ?q = "q \<lparr> q_cursor := el_cursor resp \<rparr>"
    have same: "query_to_filter ?q = query_to_filter q" by (simp add: query_to_filter_def)
    have "older_than (map_option Cursor (q_cursor ?q)) (live_events dec hits (as_store s) ?q) = drop L es"
    proof -
      have "sorted (map (\<lambda>e. - ev_ts_ns e) es)" by (simp add: es_def live_events_def)
      moreover have "es \<noteq> []" using more(1) by auto
      ultimately have "filter (\<lambda>e. ev_ts_ns e < ev_ts_ns (last (take L es))) es = drop L es"
        using more(2,3) by (intro newest_first_rest)
      moreover have "live_events dec hits (as_store s) ?q = es" by (simp add: es_def live_events_def same)
      ultimately show ?thesis using resp(4) more(1,2) by (simp add: older_than_def)
    qed
    with query_events_eq [OF assms(1,2), of dec s ?q oo ac] assms(3,4) show ?thesis
      by (auto simp: same L_def)
  qed
  moreover have "L \<le> 1000" by (simp add: L_def page_limit_le)
  ultimately show ?thesis using resp(1-3) by blast
qed

section \<open>Batch responses\<close>

text \<open>Every event of a batch is counted once, and the status tells whether one was rejected.\<close>

lemma batch_response_counts:
  "batch_accepted (snd (batch_response_of res)) + batch_rejected (snd (batch_response_of res)) = length res \<and>
   length (batch_results (snd (batch_response_of res))) = length res \<and>
   (fst (batch_response_of res) = 201 \<longleftrightarrow> batch_rejected (snd (batch_response_of res)) = 0)"
proof -
  have "length (filter (\<lambda>r. case r of Inr _ \<Rightarrow> True | Inl _ \<Rightarrow> False) res) +
      length (filter (\<lambda>r. case r of Inr _ \<Rightarrow> False | Inl _ \<Rightarrow> True) res) = length res"
    by (induction res) (auto split: sum.splits)
  then show ?thesis by (simp add: batch_response_of_def Let_def)
qed


section \<open>Examples\<close>

lemma list_user_law: "user_law mset list_hits user"
proof -
  have "user_filter user = query_filter_default \<lparr> qf_dims := (replicate dim_count None)[DIM_USER_ID := Some user] \<rparr>"
    by (simp add: user_filter_def build_query_filter_def to_query_filter_def event_filter_default_def
        query_filter_default_def dim_defs dim_count_def Let_def numeral_eq_Suc)
  then have "row_matches (user_filter user) = owned user"
    by (auto simp: fun_eq_iff row_matches_def query_filter_default_def owned_def list_all_iff dim_defs dim_count_def
        nth_list_update split: option.splits if_splits)
  then show ?thesis by (simp add: user_law_def list_hits_def newest_first_def)
qed


definition sample_app :: "(log_event list, nat \<times> (str \<times> cached_entry) list, (str \<times> str) list) app_state" where
  "sample_app = \<lparr> as_pipeline = with_idempotency (idem_new list_lru 16 300)
     (pipeline_new (batch_new sample_store one_shard) \<lparr> entries = [] \<rparr>), as_default_tier = ''free'', as_archiver = None \<rparr>"

definition any_events :: event_query where
  "any_events = \<lparr> q_user_id = None, q_api_key_id = None, q_model = None, q_provider = None, q_source = None,
     q_from = None, q_to = None, q_status_min = None, q_status_max = None, q_user_tag = None,
     q_session_tag = None, q_limit = None, q_cursor = None, q_include_archived = False \<rparr>"

theorem event_pages_tile_witness:
  "\<exists>resp. query_events sample_env map_objects one_event_codec sample_app any_events = Ret (Inr resp) \<and>
    el_has_more resp = (unat (page_limit 50 None) <
      length (live_events (\<lambda>r. persisted sample_event) list_hits sample_store any_events))"
proof -
  have env: "pe_ops sample_env = list_engine" "pe_ext sample_env = sample_ext" by (simp_all add: sample_env_def)
  have st: "as_store sample_app = sample_store"
    by (simp add: sample_app_def with_idempotency_def pipeline_new_def batch_new_def Let_def)
  have q: "q_cursor any_events = None" "\<not> q_include_archived any_events" "q_limit any_events = None"
    by (simp_all add: any_events_def)
  show ?thesis
    using event_pages_tile [of sample_env list_hits "\<lambda>r. persisted sample_event" sample_app any_events map_objects one_event_codec]
      list_engine_reads sample_store_decodes q by (auto simp: env st)
qed

end
