(* ===== verification/Server.thy ===== *)
theory Server
  imports Routes
begin

text \<open>
  Building the server: \<open>PipelineServer\<close> of \<open>crates/keplor-server/src/server.rs\<close> with its route
  table, the rollup task of \<open>rollup.rs\<close>, what happens between start and listening, and the TLS
  listener. The PEM files and the settings \<open>rustls\<close> builds from them are arguments; the request
  timeout and the concurrency limit of \<open>tower\<close> are kept as settings only.
\<close>

section \<open>Routes\<close>

datatype verb = VGet | VPost | VDelete

datatype endpoint =
    EpIngestSingle | EpIngestBatch | EpQueryEvents | EpExportEvents | EpDeleteEvent
  | EpDeleteEventsBulk | EpQueryQuota | EpQueryRollups | EpQueryStats | EpHealth | EpMetrics

text \<open>The two routers; the layers of \<open>guard_request\<close> are around the first one only.\<close>

definition authed_routes :: "(str \<times> verb \<times> endpoint) list" where
  "authed_routes = [
     (''/v1/events'', VPost, EpIngestSingle),
     (''/v1/events/batch'', VPost, EpIngestBatch),
     (''/v1/events'', VGet, EpQueryEvents),
     (''/v1/events/export'', VGet, EpExportEvents),
     (''/v1/events/{id}'', VDelete, EpDeleteEvent),
     (''/v1/events'', VDelete, EpDeleteEventsBulk),
     (''/v1/quota'', VGet, EpQueryQuota),
     (''/v1/rollups'', VGet, EpQueryRollups),
     (''/v1/stats'', VGet, EpQueryStats)]"

definition public_routes :: "(str \<times> verb \<times> endpoint) list" where
  "public_routes = [(''/health'', VGet, EpHealth), (''/metrics'', VGet, EpMetrics)]"

section \<open>The server\<close>

record ('g, 'c, 'o, 't) pipeline_server =
  ps_state :: "('g, 'c, 'o) app_state"
  ps_limiter :: "rate_limiter option"
  ps_body_limit :: usize
  ps_request_timeout :: nat
  ps_max_connections :: usize
  ps_cors :: cors_layer
  ps_addr :: "ip_addr \<times> u16"
  ps_shutdown_timeout :: nat
  ps_gc_retention_days :: u64
  ps_gc_interval_secs :: u64
  ps_retention_tiers :: "retention_tier list"
  ps_wal_checkpoint_secs :: u64
  ps_pricing_refresh_interval_secs :: u64
  ps_pricing_source_url :: str
  ps_archive_config :: "archive_config option"
  ps_tls_config :: "'t option"
  ps_hot_keys :: api_key_set
  ps_config_path :: "str option"

text \<open>Durations are in nanoseconds.\<close>

definition from_secs :: "u64 \<Rightarrow> nat" where
  "from_secs n = n * 1000000000"

definition build_rate_limiter :: "rate_limit_server_config \<Rightarrow> rate_limiter option" where
  "build_rate_limiter c =
     (if rl_enabled c
      then Some (rate_limiter_new \<lparr> requests_per_second = rl_requests_per_second c, burst = rl_burst c \<rparr>)
      else None)"

definition new_app_state :: "('g, 'c) pipeline \<Rightarrow> server_config \<Rightarrow> ('g, 'c, 'o) app_state" where
  "new_app_state p config =
     \<lparr> as_pipeline = p, as_default_tier = rc_default_tier (cfg_retention config), as_archiver = None \<rparr>"

text \<open>
  The certificates of a PEM file that parse, its key, and the settings from both. A certificate
  that does not parse is left out.
\<close>

definition load_tls :: "(str \<Rightarrow> str + (str + 'cert) list) \<Rightarrow> (str \<Rightarrow> str + 'key) \<Rightarrow> ('cert list \<Rightarrow> 'key \<Rightarrow> str + 't) \<Rightarrow>
    tls_config \<Rightarrow> str + 't" where
  "load_tls pem_certs pem_key with_single_cert tls =
     (case pem_certs (tls_cert_path tls) of
        Inl e \<Rightarrow> Inl (''failed to read TLS cert '' @ tls_cert_path tls @ '': '' @ e)
      | Inr cs \<Rightarrow>
          (let certs = List.map_filter (\<lambda>c. case c of Inr d \<Rightarrow> Some d | Inl _ \<Rightarrow> None) cs in
           case pem_key (tls_key_path tls) of
             Inl e \<Rightarrow> Inl (''failed to read TLS key '' @ tls_key_path tls @ '': '' @ e)
           | Inr key \<Rightarrow>
               (case with_single_cert certs key of
                  Inl e \<Rightarrow> Inl (''invalid TLS config: '' @ e) | Inr t \<Rightarrow> Inr t)))"

text \<open>
  \<open>tls_of\<close> loads the TLS settings of a configuration; \<open>parse_origin\<close> says whether an origin is a
  header value.
\<close>

definition pipeline_server_new :: "(tls_config \<Rightarrow> str + 't) \<Rightarrow> (str \<Rightarrow> bool) \<Rightarrow> ('g, 'c) pipeline \<Rightarrow>
    api_key_set \<Rightarrow> server_config \<Rightarrow> str + ('g, 'c, 'o, 't) pipeline_server" where
  "pipeline_server_new tls_of parse_origin p ks config =
     (let state = new_app_state p config
      in res_bind (case cfg_tls config of
             Some tls \<Rightarrow> (case tls_of tls of Inl e \<Rightarrow> Inl e | Inr t \<Rightarrow> Inr (Some t))
           | None \<Rightarrow> Inr None) (\<lambda>tls.
         Inr \<lparr> ps_state = state, ps_limiter = build_rate_limiter (cfg_rate_limit config),
           ps_body_limit = pi_max_body_bytes (cfg_pipeline config),
           ps_request_timeout = from_secs (lc_request_timeout_secs (cfg_server config)),
           ps_max_connections = lc_max_connections (cfg_server config),
           ps_cors = build_cors_layer parse_origin (cfg_cors config),
           ps_addr = lc_listen_addr (cfg_server config),
           ps_shutdown_timeout = from_secs (lc_shutdown_timeout_secs (cfg_server config)),
           ps_gc_retention_days = sc_retention_days (cfg_storage config),
           ps_gc_interval_secs = sc_gc_interval_secs (cfg_storage config),
           ps_retention_tiers = rc_tiers (cfg_retention config),
           ps_wal_checkpoint_secs = sc_wal_checkpoint_secs (cfg_storage config),
           ps_pricing_refresh_interval_secs = pr_refresh_interval_secs (cfg_pricing config),
           ps_pricing_source_url = pr_source_url (cfg_pricing config),
           ps_archive_config = cfg_archive config, ps_tls_config = tls, ps_hot_keys = ks,
           ps_config_path = None \<rparr>))"

definition with_config_path :: "str \<Rightarrow> ('g, 'c, 'o, 't) pipeline_server \<Rightarrow> ('g, 'c, 'o, 't) pipeline_server" where
  "with_config_path path sv = sv \<lparr> ps_config_path := Some path \<rparr>"

section \<open>Start\<close>

text \<open>Up to the listener: the archiver is published to the handlers when it can be reached.\<close>

definition publish_archiver :: "'o object_ops \<Rightarrow> ('g, 'c, 'o, 't) pipeline_server \<Rightarrow> ('g, 'c, 'o, 't) pipeline_server" where
  "publish_archiver oo sv =
     sv \<lparr> ps_state := (ps_state sv) \<lparr> as_archiver :=
       start_archiver oo (as_store (ps_state sv)) (ps_archive_config sv) \<rparr> \<rparr>"

text \<open>The tasks that a started server runs.\<close>

definition spawned_tasks :: "('g, 'c, 'o, 't) pipeline_server \<Rightarrow> background_task list" where
  "spawned_tasks sv =
     (case (ps_archive_config sv, as_archiver (ps_state sv)) of
        (Some a, Some _) \<Rightarrow> [ArchiveLoop (archive_after a) (ar_archive_threshold_mb a)
          (ar_archive_batch_size a) (ar_archive_interval_secs a)]
      | _ \<Rightarrow> []) @
     (if 0 < ps_gc_interval_secs sv \<and> ps_retention_tiers sv \<noteq> []
      then [TieredGc (ps_retention_tiers sv) (ps_gc_interval_secs sv)]
      else if 0 < ps_gc_interval_secs sv \<and> 0 < ps_gc_retention_days sv
      then [GlobalGc (ps_gc_retention_days sv) (ps_gc_interval_secs sv)] else []) @
     (if 0 < ps_wal_checkpoint_secs sv then [CheckpointLoop (ps_wal_checkpoint_secs sv)] else []) @
     [EngineStatsLoop] @
     (if 0 < ps_pricing_refresh_interval_secs sv
      then [PricingRefresh (ps_pricing_refresh_interval_secs sv)] else []) @
     (if ps_config_path sv \<noteq> None then [SighupReload] else [])"

text \<open>The rollup task: the days it asks the store to roll up, at its start and at each tick.\<close>

definition rollup_blocking :: "'g kdb_store \<Rightarrow> i64 \<Rightarrow> store_error + unit" where
  "rollup_blocking st day_epoch = rollup_day st day_epoch"

definition spawn_rollup_task :: "'g kdb_store \<Rightarrow> i64 \<Rightarrow> i64 list \<Rightarrow> (i64 \<times> (store_error + unit)) list" where
  "spawn_rollup_task st start_secs tick_secs =
     (let yesterday = today_epoch start_secs - 86400 in (yesterday, rollup_blocking st yesterday)) #
     map (\<lambda>now. (today_epoch now, rollup_blocking st (today_epoch now))) tick_secs"

section \<open>Requests\<close>

text \<open>A request on the guarded router, with the server's current keys and limiter.\<close>

definition serve_authed :: "(str \<Rightarrow> str \<Rightarrow> bool) \<Rightarrow> (str \<Rightarrow> u64) \<Rightarrow> nat \<Rightarrow> str option \<Rightarrow>
    (authenticated_key option \<Rightarrow> 'r) \<Rightarrow> ('g, 'c, 'o, 't) pipeline_server \<Rightarrow>
    'r guarded \<times> ('g, 'c, 'o, 't) pipeline_server" where
  "serve_authed ct_eq hash now header handler sv =
     (case guard_request ct_eq hash (ps_hot_keys sv) (ps_limiter sv) now header handler of
        (reply, limiter) \<Rightarrow> (reply, sv \<lparr> ps_limiter := limiter \<rparr>))"

text \<open>The reload on SIGHUP, and a refreshed price list.\<close>

definition reload_keys :: "(str \<Rightarrow> u8 list) \<Rightarrow> str + server_config \<Rightarrow> ('g, 'c, 'o, 't) pipeline_server \<Rightarrow>
    ('g, 'c, 'o, 't) pipeline_server" where
  "reload_keys sha256 loaded sv = sv \<lparr> ps_hot_keys := sighup_reload sha256 loaded (ps_hot_keys sv) \<rparr>"

definition refresh_catalog :: "pricing_error + catalog \<Rightarrow> ('g, 'c, 'o, 't) pipeline_server \<Rightarrow> ('g, 'c, 'o, 't) pipeline_server" where
  "refresh_catalog fetched sv =
     sv \<lparr> ps_state := (ps_state sv) \<lparr> as_pipeline := (as_pipeline (ps_state sv))
       \<lparr> pl_catalog := pricing_refresh_tick fetched (pl_catalog (as_pipeline (ps_state sv))) \<rparr> \<rparr> \<rparr>"

section \<open>The TLS listener\<close>

text \<open>
  What the inner listener delivers: a failed accept, or a connection with the time its handshake
  takes and how it ends. \<open>tls_accept\<close> is given the arrivals from now on; it returns the first
  connection that completes its handshake within ten seconds, with the time spent before, or
  nothing as long as none arrived. Times are in nanoseconds.
\<close>

datatype 'io arrival = AcceptFailed | Handshake nat "str + 'io"

definition HANDSHAKE_LIMIT :: nat where
  "HANDSHAKE_LIMIT = 10 * 1000000000"

definition ACCEPT_PAUSE :: nat where
  "ACCEPT_PAUSE = 100 * 1000000"

fun tls_accept :: "nat \<Rightarrow> 'io arrival list \<Rightarrow> ('io \<times> nat) option" where
  "tls_accept spent [] = None"
| "tls_accept spent (AcceptFailed # rest) = tls_accept (spent + ACCEPT_PAUSE) rest"
| "tls_accept spent (Handshake took res # rest) =
     (if took \<le> HANDSHAKE_LIMIT
      then case res of Inr io \<Rightarrow> Some (io, spent + took) | Inl _ \<Rightarrow> tls_accept (spent + took) rest
      else tls_accept (spent + HANDSHAKE_LIMIT) rest)"

text \<open>Every arrival costs the listener ten seconds at most, so no client can hold it for ever.\<close>

lemma tls_accept_bounded:
  "tls_accept spent arrivals = Some (io, t) \<Longrightarrow> t \<le> spent + length arrivals * HANDSHAKE_LIMIT"
proof (induction spent arrivals rule: tls_accept.induct)
  case (2 spent rest)
  then show ?case by (simp add: ACCEPT_PAUSE_def HANDSHAKE_LIMIT_def)
qed (auto split: if_splits sum.splits)

lemma tls_accept_serves:
  assumes "Handshake took (Inr io) \<in> set arrivals" and "took \<le> HANDSHAKE_LIMIT"
  shows "\<exists>io' t. tls_accept spent arrivals = Some (io', t)"
  using assms by (induction spent arrivals rule: tls_accept.induct) (auto split: sum.splits)

end
