(* ===== verification/Cli.thy ===== *)
theory Cli
  imports Server
begin

text \<open>
  The command line: \<open>crates/keplor-cli/src/main.rs\<close>. A command is a function of the files it
  finds, the clock and the outside code; what it prints is a list of lines. Argument parsing
  (\<open>clap\<close>), logging and the async runtime are left out.
\<close>

section \<open>Environment and errors\<close>

record ('g, 'c, 'o, 't) cli_env =
  ce_ops :: "'g engine_ops"
  ce_objects :: "'o object_ops"
  ce_codec :: archive_codec
  ce_ext :: externals
  ce_rj :: record_json
  ce_lru :: "'c lru_ops"
  ce_sha256 :: "str \<Rightarrow> u8 list"
  ce_pem_certs :: "str \<Rightarrow> str + (str + str) list"
  ce_pem_key :: "str \<Rightarrow> str + str"
  ce_single_cert :: "str list \<Rightarrow> str \<Rightarrow> str + 't"
  ce_parse_origin :: "str \<Rightarrow> bool"
  ce_path_exists :: "str \<Rightarrow> bool"
  ce_load_config :: "str \<Rightarrow> str + server_config"
  ce_parse_catalog :: "str \<Rightarrow> str + (str \<times> json) list"
  ce_decode_entry :: "json \<Rightarrow> raw_entry option"
  ce_bundled_json :: str
  ce_create_dir :: "str \<Rightarrow> str + unit"
  ce_read_dir :: "str \<Rightarrow> (str \<times> bool) list option"
  ce_read_manifests :: "str \<Rightarrow> (str + str) option"
  ce_clock :: "i64 option"
  ce_size_now :: i64
  ce_size_lock_free :: bool
  ce_chunks :: "nat \<Rightarrow> chunk_env"

datatype cli_error =
    CannotLoadConfig str str | InvalidConfig str | CannotOpenDataDir str store_error | NoCatalog pricing_error
  | ServerNotBuilt str | QueryFailed store_error | ClockError | GcFailed store_error | CheckpointFailed store_error
  | NoArchiveSection | ArchiverFailed store_error | ArchiveFailed store_error | SummaryFailed store_error

datatype cli =
    CliRun str bool | CliMigrate str
  | CliQuery "str option" "str option" "str option" "str option" u32 str
  | CliStats str | CliGc u32 str | CliRollup u32 str | CliArchive str "u32 option" | CliArchiveStatus str

definition open_store :: "('g, 'c, 'o, 't) cli_env \<Rightarrow> kdb_config \<Rightarrow> cli_error + 'g kdb_store" where
  "open_store env config =
     (let dir = kc_data_dir config in
      case kdb_open (ce_ops env) (ce_rj env) (ce_create_dir env dir) (ce_read_dir env dir)
          (ce_read_manifests env dir) config of
        Inl e \<Rightarrow> Inl (CannotOpenDataDir dir e) | Inr st \<Rightarrow> Inr st)"

section \<open>Starting the server\<close>

definition kdb_config_of :: "storage_config \<Rightarrow> kdb_config" where
  "kdb_config_of s = \<lparr> kc_data_dir = sc_data_dir s, kc_wal_max_events = sc_wal_max_events s,
     kc_wal_sync_interval = sc_wal_sync_interval s, kc_wal_sync_bytes = sc_wal_sync_bytes s,
     kc_wal_shard_count = sc_wal_shard_count s, kc_mmap_cache_capacity = sc_mmap_cache_capacity s,
     kc_rollup_replay_days = sc_rollup_replay_days s,
     kc_eager_tiers = kc_eager_tiers (kdb_config_new (sc_data_dir s)),
     kc_size_check_interval_ms = sc_size_check_interval_ms s \<rparr>"

definition batch_config_of :: "pipeline_config \<Rightarrow> batch_config" where
  "batch_config_of p = \<lparr> bc_batch_size = pi_batch_size p, bc_flush_interval_ms = pi_flush_interval_ms p,
     bc_channel_capacity = pi_channel_capacity p, bc_flush_shards = pi_flush_shards p \<rparr>"

definition build_pipeline :: "'c lru_ops \<Rightarrow> server_config \<Rightarrow> 'g kdb_store \<Rightarrow> catalog \<Rightarrow> ('g, 'c) pipeline" where
  "build_pipeline lru config st cat =
     (let writer = batch_new st (batch_config_of (cfg_pipeline config));
          p = with_write_timeout (from_secs (pi_write_timeout_secs (cfg_pipeline config)))
            (with_max_db_size_mb (sc_max_db_size_mb (cfg_storage config)) (pipeline_new writer cat));
          idem = cfg_idempotency config
      in if id_enabled idem then with_idempotency (idem_new lru (id_max_entries idem) (from_secs (id_ttl_secs idem))) p
         else p)"

definition read_config :: "('g, 'c, 'o, 't) cli_env \<Rightarrow> str \<Rightarrow> cli_error + server_config" where
  "read_config env path =
     (case ce_load_config env path of Inl e \<Rightarrow> Inl (CannotLoadConfig path e) | Inr c \<Rightarrow> Inr c)"

definition run_server :: "('g, 'c, 'o, 't) cli_env \<Rightarrow> str \<Rightarrow> (cli_error + ('g, 'c, 'o, 't) pipeline_server) run" where
  "run_server env config_path =
     (case if ce_path_exists env config_path then read_config env config_path else Inr server_config_default of
        Inl e \<Rightarrow> Ret (Inl e)
      | Inr config \<Rightarrow>
     (case config_validate (ce_path_exists env) config of
        Inl e \<Rightarrow> Ret (Inl (InvalidConfig e))
      | Inr _ \<Rightarrow>
     (case open_store env (kdb_config_of (cfg_storage config)) of
        Inl e \<Rightarrow> Ret (Inl e)
      | Inr st \<Rightarrow>
          run_bind (load_bundled (ce_parse_catalog env) (ce_decode_entry env) (ce_bundled_json env)) (\<lambda>loaded.
            case loaded of
              Inl e \<Rightarrow> Ret (Inl (NoCatalog e))
            | Inr cat \<Rightarrow>
                (let ks = from_config (ce_sha256 env) (au_api_keys (cfg_auth config))
                       (au_api_key_entries (cfg_auth config)) (rc_default_tier (cfg_retention config))
                 in case pipeline_server_new (load_tls (ce_pem_certs env) (ce_pem_key env) (ce_single_cert env)) (ce_parse_origin env)
                        (build_pipeline (ce_lru env) config st cat) ks config of
                      Inl e \<Rightarrow> Ret (Inl (ServerNotBuilt e))
                    | Inr sv \<Rightarrow> Ret (Inr (with_config_path config_path sv)))))))"

section \<open>Printing\<close>

text \<open>\<open>{:.n}\<close> of a double, and the padding \<open>{:<w}\<close> and \<open>{:>w}\<close>, which count characters.\<close>

definition fmt_fixed :: "nat \<Rightarrow> f64 \<Rightarrow> str" where
  "fmt_fixed n x =
     (case x of
        Fin q \<Rightarrow>
          (let t = nat (round_half_even (abs q * 10 ^ n));
               frac = nat_to_string (t mod 10 ^ n)
           in (if q < 0 then ''-'' else []) @ nat_to_string (t div 10 ^ n) @ ''.'' @
              replicate (n - length frac) (CHR ''0'') @ frac)
      | NaN \<Rightarrow> ''NaN''
      | Inf neg \<Rightarrow> (if neg then ''-inf'' else ''inf''))"

definition fmt_megabytes :: "int \<Rightarrow> str" where
  "fmt_megabytes n = fmt_fixed 2 (f64_div (f64_of_int n) (f64_mul (f64_of_int 1024) (f64_of_int 1024))) @ '' MB''"

definition char_count :: "str \<Rightarrow> nat" where
  "char_count s = length (filter (\<lambda>c. \<not> is_continuation c) s)"

definition pad_end :: "nat \<Rightarrow> str \<Rightarrow> str" where
  "pad_end w s = s @ replicate (w - char_count s) (CHR '' '')"

definition pad_start :: "nat \<Rightarrow> str \<Rightarrow> str" where
  "pad_start w s = replicate (w - char_count s) (CHR '' '') @ s"

definition column_width :: "str \<Rightarrow> str list \<Rightarrow> nat" where
  "column_width heading cells = fold max (map length cells) (length heading)"

section \<open>Commands\<close>

definition migrate :: "('g, 'c, 'o, 't) cli_env \<Rightarrow> str \<Rightarrow> cli_error + str list" where
  "migrate env data_dir =
     (case open_store env (kdb_config_new data_dir) of
        Inl e \<Rightarrow> Inl e
      | Inr _ \<Rightarrow> Inr [''data dir ready at '' @ data_dir @ '' (schema id verified)''])"

definition query_filter_of :: "str option \<Rightarrow> str option \<Rightarrow> str option \<Rightarrow> str option \<Rightarrow> event_filter" where
  "query_filter_of user_id model provider source =
     event_filter_default \<lparr> f_user_id := user_id, f_model := model, f_provider := provider, f_source := source \<rparr>"

text \<open>The token count of a line is a sum of \<open>u32\<close> values, which wraps in a release build.\<close>

definition query_line :: "externals \<Rightarrow> nat \<Rightarrow> nat \<Rightarrow> nat \<Rightarrow> llm_event \<Rightarrow> str" where
  "query_line ext w_id w_provider w_model e =
     (let total_tokens = input_tokens (ev_usage e) + output_tokens (ev_usage e);
          cost_dollars = f64_div (f64_of_int (ev_cost_nanodollars e)) (f64_of_int 1000000000)
      in pad_end w_id (event_id_fmt (ulid_to_string ext) (ev_id e)) @ '' '' @
         pad_end w_provider (id_key (ev_provider e)) @ '' '' @ pad_end w_model (ev_model e) @ '' '' @
         pad_start 12 (nat_to_string (unat total_tokens)) @ '' '' @ pad_start 14 (fmt_fixed 8 cost_dollars))"

definition query_table :: "externals \<Rightarrow> llm_event list \<Rightarrow> str list" where
  "query_table ext events =
     (if events = [] then [''no events found'']
      else
        (let w_id = column_width ''ID'' (map (\<lambda>e. event_id_fmt (ulid_to_string ext) (ev_id e)) events);
             w_provider = column_width ''PROVIDER'' (map (\<lambda>e. id_key (ev_provider e)) events);
             w_model = column_width ''MODEL'' (map ev_model events);
             sep_len = w_id + 1 + w_provider + 1 + w_model + 1 + 12 + 1 + 14
         in [pad_end w_id ''ID'' @ '' '' @ pad_end w_provider ''PROVIDER'' @ '' '' @ pad_end w_model ''MODEL'' @ '' '' @
               pad_start 12 ''TOKENS'' @ '' '' @ pad_start 14 ''COST ($)'',
             replicate sep_len (CHR ''-'')] @
            map (query_line ext w_id w_provider w_model) events @
            [[], nat_to_string (length events) @ '' event(s)'']))"

definition cli_query :: "('g, 'c, 'o, 't) cli_env \<Rightarrow> str \<Rightarrow> event_filter \<Rightarrow> u32 \<Rightarrow> (cli_error + str list) run" where
  "cli_query env data_dir f limit =
     (case open_store env (kdb_config_new data_dir) of
        Inl e \<Rightarrow> Ret (Inl e)
      | Inr st \<Rightarrow>
          (case kdb_query (ce_ops env) (ce_ext env) st f limit None of
             Panic \<Rightarrow> Panic
           | Ret (Inl e) \<Rightarrow> Ret (Inl (QueryFailed e))
           | Ret (Inr events) \<Rightarrow> Ret (Inr (query_table (ce_ext env) events))))"

definition stats :: "('g, 'c, 'o, 't) cli_env \<Rightarrow> str \<Rightarrow> (cli_error + str list) run" where
  "stats env data_dir =
     (case open_store env (kdb_config_new data_dir) of
        Inl e \<Rightarrow> Ret (Inl e)
      | Inr st \<Rightarrow>
          (case kdb_query (ce_ops env) (ce_ext env) st event_filter_default (- 1) None of
             Panic \<Rightarrow> Panic
           | Ret found \<Rightarrow>
               (let total_events = (case found of Inr events \<Rightarrow> length events | Inl _ \<Rightarrow> 0);
                    db_size = (case fst (db_size_bytes (ce_ops env) (ce_size_now env) (ce_size_lock_free env) st) of
                      Inr n \<Rightarrow> n | Inl _ \<Rightarrow> 0)
                in Ret (Inr [''=== Keplor Storage Statistics ==='',
                     ''Data directory:       '' @ data_dir,
                     ''Total events:         '' @ nat_to_string total_events,
                     ''Total segment size:   '' @ fmt_megabytes (int db_size)]))))"

text \<open>A command that changes the store returns it too, also when it fails half-way.\<close>

definition gc :: "('g, 'c, 'o, 't) cli_env \<Rightarrow> str \<Rightarrow> u32 \<Rightarrow> (cli_error + str list) \<times> 'g kdb_store option" where
  "gc env data_dir older_than_days =
     (case open_store env (kdb_config_new data_dir) of
        Inl e \<Rightarrow> (Inl e, None)
      | Inr st \<Rightarrow>
          (case ce_clock env of
             None \<Rightarrow> (Inl ClockError, Some st)
           | Some now \<Rightarrow>
               (case gc_expired (ce_ops env) st (retention_cutoff now (unat older_than_days)) of
                  (Inl e, st) \<Rightarrow> (Inl (GcFailed e), Some st)
                | (Inr s, st) \<Rightarrow> (Inr [''GC complete: dropped '' @ nat_to_string (events_deleted s) @
                    '' segments (cutoff: '' @ nat_to_string (unat older_than_days) @ '' days ago)''], Some st))))"

definition rollup :: "('g, 'c, 'o, 't) cli_env \<Rightarrow> str \<Rightarrow> u32 \<Rightarrow> (cli_error + str list) \<times> 'g kdb_store option" where
  "rollup env data_dir days =
     (case open_store env (kdb_config_new data_dir) of
        Inl e \<Rightarrow> (Inl e, None)
      | Inr st \<Rightarrow>
          (case wal_checkpoint (ce_ops env) st of
             (Inl e, st) \<Rightarrow> (Inl (CheckpointFailed e), Some st)
           | (Inr _, st) \<Rightarrow> (Inr [''rollup is now continuous; WAL flushed to segments at '' @ data_dir], Some st)))"

definition cli_archive :: "('g, 'c, 'o, 't) cli_env \<Rightarrow> str \<Rightarrow> u32 option \<Rightarrow>
    ((cli_error + str list) \<times> ('g, 'o) archiver option) run" where
  "cli_archive env config_path older_than_days =
     (case read_config env config_path of Inl e \<Rightarrow> Ret (Inl e, None) | Inr config \<Rightarrow>
     (case cfg_archive config of None \<Rightarrow> Ret (Inl NoArchiveSection, None) | Some a \<Rightarrow>
     (case open_store env (kdb_config_of (cfg_storage config)) of Inl e \<Rightarrow> Ret (Inl e, None) | Inr st \<Rightarrow>
     (case archiver_new (ce_objects env) st (archive_s3_config_of a) of Inl e \<Rightarrow> Ret (Inl (ArchiverFailed e), None) | Inr ar \<Rightarrow>
     (case ce_clock env of None \<Rightarrow> Ret (Inl ClockError, Some ar) | Some now \<Rightarrow>
       (let days = (case older_than_days of Some d \<Rightarrow> unat d | None \<Rightarrow> ar_archive_after_days a) in
        run_bind (archive_old_events (ce_ops env) (ce_objects env) (ce_codec env) (ce_ext env) (ce_rj env)
            (ce_chunks env) ar (retention_cutoff now days) (ar_archive_batch_size a)) (\<lambda>(res, ar).
          case res of
            Inl e \<Rightarrow> Ret (Inl (ArchiveFailed e), Some ar)
          | Inr r \<Rightarrow> Ret (Inr [''Archive complete: '' @ nat_to_string (events_archived r) @ '' events archived, '' @
              nat_to_string (files_uploaded r) @ '' files uploaded, '' @
              fmt_megabytes (int (compressed_bytes r)) @ '' compressed''], Some ar))))))))"

fun bump_user :: "str \<Rightarrow> usize \<Rightarrow> usize \<Rightarrow> (str \<times> usize \<times> usize) list \<Rightarrow> (str \<times> usize \<times> usize) list" where
  "bump_user u n b [] = [(u, n, b)]"
| "bump_user u n b ((v, n', b') # rest) =
     (if u = v then (v, n' + n, b' + b) # rest
      else if u < v then (u, n, b) # (v, n', b') # rest
      else (v, n', b') # bump_user u n b rest)"

definition user_lines :: "archive_manifest list \<Rightarrow> str list" where
  "user_lines ms =
     map (\<lambda>(user, n, b). ''  '' @ user @ '': '' @ nat_to_string n @ '' events, '' @ fmt_megabytes (int b))
       (fold (\<lambda>m. bump_user (am_user_id m) (am_event_count m) (am_compressed_bytes m)) ms [])"

definition archive_status :: "('g, 'c, 'o, 't) cli_env \<Rightarrow> str \<Rightarrow> cli_error + str list" where
  "archive_status env data_dir =
     (case open_store env (kdb_config_new data_dir) of
        Inl e \<Rightarrow> Inl e
      | Inr st \<Rightarrow>
          (case archive_summary st of
             Inl e \<Rightarrow> Inl (SummaryFailed e)
           | Inr (files, events, bytes) \<Rightarrow>
               Inr ([''=== Archive Status ==='',
                 ''Data directory:  '' @ data_dir,
                 ''Archive files:   '' @ nat_to_string files,
                 ''Archived events: '' @ nat_to_string events,
                 ''Compressed size: '' @ fmt_megabytes bytes] @
                 (if 0 < files
                  then [[], ''Per-user breakdown:''] @
                    user_lines (case list_archives st None None None of Inr ms \<Rightarrow> ms | Inl _ \<Rightarrow> [])
                  else []))))"

section \<open>Dispatch\<close>

datatype ('g, 'c, 'o, 't) cli_outcome =
    Serving "(cli_error + ('g, 'c, 'o, 't) pipeline_server) run"
  | Printed "(cli_error + str list) run"
  | Changed "(cli_error + str list) \<times> 'g kdb_store option"
  | Archived "((cli_error + str list) \<times> ('g, 'o) archiver option) run"

fun cli_main :: "('g, 'c, 'o, 't) cli_env \<Rightarrow> cli \<Rightarrow> ('g, 'c, 'o, 't) cli_outcome" where
  "cli_main env (CliRun config json_logs) = Serving (run_server env config)"
| "cli_main env (CliMigrate data_dir) = Printed (Ret (migrate env data_dir))"
| "cli_main env (CliQuery user_id model provider source limit data_dir) =
     Printed (cli_query env data_dir (query_filter_of user_id model provider source) limit)"
| "cli_main env (CliStats data_dir) = Printed (stats env data_dir)"
| "cli_main env (CliGc older_than_days data_dir) = Changed (gc env data_dir older_than_days)"
| "cli_main env (CliRollup days data_dir) = Changed (rollup env data_dir days)"
| "cli_main env (CliArchive config older_than_days) = Archived (cli_archive env config older_than_days)"
| "cli_main env (CliArchiveStatus data_dir) = Printed (Ret (archive_status env data_dir))"

end
