(* ===== verification/Cli_Safe.thy ===== *)
theory Cli_Safe
  imports Cli Routes_Safe
begin

text \<open>
  What the command line hands to the server, and what its archive report prints.
\<close>

section \<open>A started server\<close>

lemma validated_config:
  assumes "run_server env path = Ret (Inr sv)"
  obtains config st cat sv0 where "config_ok (ce_path_exists env) config"
    and "pipeline_server_new (load_tls (ce_pem_certs env) (ce_pem_key env) (ce_single_cert env)) (ce_parse_origin env)
      (build_pipeline (ce_lru env) config st cat)
      (from_config (ce_sha256 env) (au_api_keys (cfg_auth config)) (au_api_key_entries (cfg_auth config))
        (rc_default_tier (cfg_retention config))) config = Inr sv0"
    and "sv = with_config_path path sv0"
  using assms
  by (auto simp: run_server_def run_bind_def Let_def config_validate_ok split: sum.splits run.splits if_splits)

lemma server_new_fields:
  assumes "pipeline_server_new tls_of parse_origin p ks config = Inr sv"
  shows "ps_state sv = \<lparr> as_pipeline = p, as_default_tier = rc_default_tier (cfg_retention config), as_archiver = None \<rparr>"
    and "ps_hot_keys sv = ks" and "ps_retention_tiers sv = rc_tiers (cfg_retention config)"
    and "ps_body_limit sv = pi_max_body_bytes (cfg_pipeline config)"
    and "ps_request_timeout sv = from_secs (lc_request_timeout_secs (cfg_server config))"
    and "ps_limiter sv = None \<longleftrightarrow> \<not> rl_enabled (cfg_rate_limit config)"
  using assms
  by (auto simp: pipeline_server_new_def new_app_state_def res_bind_def Let_def build_rate_limiter_def
      split: sum.splits option.splits)


section \<open>The archive report\<close>

text \<open>
  The report names the fields of the summary wrongly: what it prints as the number of archived
  events is the number of compressed bytes, and what it prints as their size is the timestamp of
  the oldest event, in megabytes.
\<close>

lemma archive_status_misreads:
  assumes "open_store env (kdb_config_new data_dir) = Inr st"
    and "manifest_summary (ks_manifests st) = (files, total_compressed_bytes, oldest_ts_ns)"
  shows "\<exists>lines. archive_status env data_dir = Inr lines \<and>
    lines ! 3 = ''Archived events: '' @ nat_to_string total_compressed_bytes \<and>
    lines ! 4 = ''Compressed size: '' @ fmt_megabytes oldest_ts_ns"
  using assms by (simp add: archive_status_def archive_summary_def)

section \<open>Examples\<close>

definition sample_cli :: "(log_event list, nat \<times> (str \<times> cached_entry) list, (str \<times> str) list, unit) cli_env" where
  "sample_cli = \<lparr> ce_ops = list_engine, ce_objects = map_objects, ce_codec = one_event_codec, ce_ext = sample_ext,
     ce_rj = sample_rj, ce_lru = list_lru, ce_sha256 = (\<lambda>_. replicate 32 0), ce_pem_certs = (\<lambda>_. Inr []),
     ce_pem_key = (\<lambda>_. Inr []), ce_single_cert = (\<lambda>_ _. Inr ()),
     ce_parse_origin = (\<lambda>_. True), ce_path_exists = (\<lambda>_. False), ce_load_config = (\<lambda>_. Inl ''no file''),
     ce_parse_catalog = (\<lambda>_. Inr []), ce_decode_entry = (\<lambda>_. None), ce_bundled_json = [],
     ce_create_dir = (\<lambda>_. Inr ()), ce_read_dir = (\<lambda>_. None),
     ce_read_manifests = (\<lambda>_. None), ce_clock = Some 0, ce_size_now = 0, ce_size_lock_free = True, ce_chunks = nth_env \<rparr>"


end
