(* ===== verification/Lifecycle.thy ===== *)
theory Lifecycle
  imports Archive_Safe Server_Tasks
begin

text \<open>
  The life of a row. Writers, collectors, deletions, the archiver and the checkpoints of a running
  server share one store; here their operations on it are the steps of one relation, in any
  order, and every row is followed from the moment it is acknowledged. A background pass over
  several tiers or chunks is several steps, so other operations may come between them.
\<close>

section \<open>Steps\<close>

datatype life_event =
    Wrote "llm_event list" bool
  | Expired str i64
  | ExpiredAll i64
  | Deleted "event_id list"
  | Archived
  | Maintained

text \<open>
  The archiver record holds the shared store and the object store. An archived chunk is within
  the limit of the reader, and its key is a new one.
\<close>

inductive life_step :: "'g engine_ops \<Rightarrow> 'o object_ops \<Rightarrow> archive_codec \<Rightarrow> externals \<Rightarrow> record_json \<Rightarrow> nat \<Rightarrow>
    ('g, 'o) archiver \<Rightarrow> life_event \<Rightarrow> ('g, 'o) archiver \<Rightarrow> bool"
  for ops oo ac ext rj bound where
  append: "\<lbrakk>\<forall>m. mset (ord m) = mset m; append_batch_durable ops ext ord (ar_store ar) events = (res, st)\<rbrakk>
    \<Longrightarrow> life_step ops oo ac ext rj bound ar (Wrote events (case res of Inr _ \<Rightarrow> True | Inl _ \<Rightarrow> False)) (ar \<lparr> ar_store := st \<rparr>)"
| expire: "gc_tier ops (ar_store ar) tier cutoff = (res, st)
    \<Longrightarrow> life_step ops oo ac ext rj bound ar (Expired tier cutoff) (ar \<lparr> ar_store := st \<rparr>)"
| expire_all: "gc_expired ops (ar_store ar) cutoff = (res, st)
    \<Longrightarrow> life_step ops oo ac ext rj bound ar (ExpiredAll cutoff) (ar \<lparr> ar_store := st \<rparr>)"
| delete_one: "delete_event ops ext (ar_store ar) i = (res, st)
    \<Longrightarrow> life_step ops oo ac ext rj bound ar (Deleted [i]) (ar \<lparr> ar_store := st \<rparr>)"
| delete_many: "delete_events_by_ids ops ext (ar_store ar) ids = (res, st)
    \<Longrightarrow> life_step ops oo ac ext rj bound ar (Deleted ids) (ar \<lparr> ar_store := st \<rparr>)"
| archive: "\<lbrakk>list_all (archivable ac ext bound) chunk; length chunk * bound \<le> decompress_limit;
      \<forall>m\<in>listed ar. obj_path oo (am_s3_key m) \<noteq> obj_path oo (archive_key (ar_prefix ar) user day (ce_archive_id (env n)));
      archive_step ops oo ac ext rj env user day chunk (ar, n, acc) = (ar', n', acc')\<rbrakk>
    \<Longrightarrow> life_step ops oo ac ext rj bound ar Archived ar'"
| checkpoint: "wal_checkpoint ops (ar_store ar) = (res, st)
    \<Longrightarrow> life_step ops oo ac ext rj bound ar Maintained (ar \<lparr> ar_store := st \<rparr>)"
| measure: "db_size_bytes ops now lock_free (ar_store ar) = (res, st)
    \<Longrightarrow> life_step ops oo ac ext rj bound ar Maintained (ar \<lparr> ar_store := st \<rparr>)"

abbreviation life_run :: "'g engine_ops \<Rightarrow> 'o object_ops \<Rightarrow> archive_codec \<Rightarrow> externals \<Rightarrow> record_json \<Rightarrow> nat \<Rightarrow>
    ('g, 'o) archiver \<Rightarrow> life_event list \<Rightarrow> ('g, 'o) archiver \<Rightarrow> bool" where
  "life_run ops oo ac ext rj bound \<equiv> steps (life_step ops oo ac ext rj bound)"

inductive_cases life_step_wrote: "life_step ops oo ac ext rj bound ar (Wrote events ok) ar'"

section \<open>The contract of the engine\<close>

text \<open>
  Appends keep what is there and add their rows when they succeed, a collection only takes rows
  older than its cutoff, a delete only rows with the ids it is given, and a flush takes nothing.
\<close>

definition engine_contract :: "('g \<Rightarrow> log_event multiset) \<Rightarrow> 'g engine_ops \<Rightarrow> bool" where
  "engine_contract rows ops \<longleftrightarrow> engine_keeps rows ops \<and> gc_keeps rows ops \<and> delete_keeps rows ops \<and>
     (\<forall>eng i r. r \<in># rows eng \<longrightarrow> le_id r \<noteq> i \<longrightarrow> r \<in># rows (snd (eng_delete_event ops eng i)))"

section \<open>Rows under the operations of the store\<close>

lemma each_engine_lookup:
  "(map_of (snd (each_engine act es)) t = None \<longleftrightarrow> map_of es t = None) \<and>
   (\<forall>eng. map_of es t = Some eng \<longrightarrow> (\<exists>eng'. map_of (snd (each_engine act es)) t = Some eng' \<and>
      (eng' = eng \<or> eng' = snd (act eng))))"
proof (induction es)
  case (Cons p rest)
  obtain tier eng where p: "p = (tier, eng)" by fastforce
  obtain r eng' where a: "act eng = (r, eng')" by fastforce
  obtain rs rest' where rest: "each_engine act rest = (rs, rest')" by fastforce
  show ?case using Cons by (cases r; cases rs) (auto simp: p a rest)
qed simp

lemma over_engines_member:
  assumes "\<And>eng. r \<in># rows eng \<Longrightarrow> r \<in># rows (snd (act eng))" and "r \<in># stored_rows ops rows st t"
  shows "r \<in># stored_rows ops rows (snd (over_engines act st)) t"
proof -
  have st: "snd (over_engines act st) = st \<lparr> ks_engines := snd (each_engine act (ks_engines st)) \<rparr>"
    by (simp add: over_engines_def split: prod.split)
  show ?thesis
    using each_engine_lookup [of act "ks_engines st" t] assms
    by (cases "map_of (ks_engines st) t") (auto simp: st stored_rows_def)
qed

lemma on_tier_member:
  assumes "\<And>eng. tier = t \<Longrightarrow> r \<in># rows eng \<Longrightarrow> r \<in># rows (snd (act eng))" and "r \<in># stored_rows ops rows st t"
  shows "r \<in># stored_rows ops rows (snd (on_tier ops act st tier)) t"
  using assms
  by (auto simp: on_tier_def engine_for_def stored_rows_def map_of_map_put
      split: option.splits sum.splits prod.splits) (metis snd_conv)+

lemma on_tier_manifests [simp]: "ks_manifests (snd (on_tier ops act st tier)) = ks_manifests st"
  by (auto simp: on_tier_def engine_for_def split: option.splits sum.splits prod.splits)

lemma over_engines_manifests [simp]: "ks_manifests (snd (over_engines act st)) = ks_manifests st"
  by (simp add: over_engines_def split: prod.split)

lemma append_tiers_manifests [simp]: "ks_manifests (snd (append_tiers ops act bs st)) = ks_manifests st"
proof (induction bs arbitrary: st)
  case (Cons b rest)
  obtain tier logs where b: "b = (tier, logs)" by fastforce
  obtain r st1 where r: "on_tier ops (\<lambda>eng. act eng logs) st tier = (r, st1)" by fastforce
  have "ks_manifests st1 = ks_manifests st"
    using on_tier_manifests [of ops "\<lambda>eng. act eng logs" st tier] by (simp add: r)
  then show ?case using Cons by (simp add: b r split: sum.split)
qed simp

text \<open>The store after each operation, as the store after its loop.\<close>

lemma store_after:
  "snd (gc_tier ops st tier cutoff) = snd (on_tier ops (\<lambda>eng. eng_gc ops eng cutoff) st tier)"
  "snd (gc_expired ops st cutoff) = snd (over_engines (\<lambda>eng. eng_gc ops eng cutoff) st)"
  "snd (delete_event ops ext st i) = snd (over_engines (delete_if_present ops (event_id_fmt (ulid_to_string ext) i)) st)"
  "snd (delete_events_by_ids ops ext st ids) = (if ids = [] then st
     else snd (over_engines (\<lambda>eng. eng_delete_events ops eng (map (event_id_fmt (ulid_to_string ext)) ids)) st))"
  "snd (wal_checkpoint ops st) = snd (over_engines (eng_flush ops) st)"
  "snd (append_batch_durable ops ext ord st events) = (if events = [] then st
     else snd (append_tiers ops (eng_append_batch_durable ops) (ord (rows_by_tier ext events)) st))"
  by (simp_all add: gc_tier_def gc_expired_def delete_event_def delete_events_by_ids_def wal_checkpoint_def
      append_batch_durable_def Let_def split: prod.split sum.split)

lemma db_size_frame:
  "ks_engines (snd (db_size_bytes ops now lock_free st)) = ks_engines st"
  "ks_config (snd (db_size_bytes ops now lock_free st)) = ks_config st"
  "ks_manifests (snd (db_size_bytes ops now lock_free st)) = ks_manifests st"
  by (simp_all add: db_size_bytes_def Let_def)

lemma gc_member:
  assumes "gc_keeps rows ops" and "cutoff \<le> le_ts_ns r" and "r \<in># rows eng"
  shows "r \<in># rows (snd (eng_gc ops eng cutoff))"
proof -
  obtain res eng' where gc: "eng_gc ops eng cutoff = (res, eng')" by fastforce
  have "filter_mset (\<lambda>r. cutoff \<le> le_ts_ns r) (rows eng') = filter_mset (\<lambda>r. cutoff \<le> le_ts_ns r) (rows eng)"
    using assms(1) gc unfolding gc_keeps_def by blast
  from arg_cong [OF this, of "\<lambda>M. r \<in># M"] assms(2,3) show ?thesis by (simp add: gc)
qed

lemma delete_member:
  assumes "delete_keeps rows ops" and "le_id r \<notin> set ids" and "r \<in># rows eng"
  shows "r \<in># rows (snd (eng_delete_events ops eng ids))"
proof -
  obtain res eng' where del: "eng_delete_events ops eng ids = (res, eng')" by fastforce
  have "filter_mset (\<lambda>r. le_id r \<notin> set ids) (rows eng') = filter_mset (\<lambda>r. le_id r \<notin> set ids) (rows eng)"
    using assms(1) del unfolding delete_keeps_def by blast
  from arg_cong [OF this, of "\<lambda>M. r \<in># M"] assms(2,3) show ?thesis by (simp add: del)
qed

lemma delete_events_member:
  assumes "delete_keeps rows ops" and "le_id r \<notin> event_id_fmt (ulid_to_string ext) ` set ids"
    and "r \<in># stored_rows ops rows st t"
  shows "r \<in># stored_rows ops rows (snd (delete_events_by_ids ops ext st ids)) t"
  unfolding store_after using assms
  by (auto intro!: over_engines_member delete_member)

section \<open>One step\<close>

lemma readable_frame:
  assumes "listed ar \<subseteq> listed ar'" and "\<And>m. m \<in> listed ar \<Longrightarrow> fetch_one oo ac ext ar' m = fetch_one oo ac ext ar m"
  shows "readable_ids oo ac ext ar \<subseteq> readable_ids oo ac ext ar'"
  using assms unfolding readable_ids_def by fastforce

lemma fetch_one_store [simp]: "fetch_one oo ac ext (ar \<lparr> ar_store := st \<rparr>) m = fetch_one oo ac ext ar m"
  by (simp add: fetch_one_def)

lemma listed_store: "ks_manifests st = ks_manifests (ar_store ar) \<Longrightarrow> listed (ar \<lparr> ar_store := st \<rparr>) = listed ar"
  by (simp add: listed_def)

lemma readable_store:
  "ks_manifests st = ks_manifests (ar_store ar) \<Longrightarrow> readable_ids oo ac ext (ar \<lparr> ar_store := st \<rparr>) = readable_ids oo ac ext ar"
  by (simp add: readable_ids_def listed_store)

lemma stored_rows_cong:
  "ks_engines st = ks_engines st' \<Longrightarrow> ks_config st = ks_config st' \<Longrightarrow> stored_rows ops rows st t = stored_rows ops rows st' t"
  by (simp add: stored_rows_def split: option.split)

text \<open>
  A try at a chunk: a row that is gone can be read back from the archive that was just listed,
  and every archive listed before reads as before.
\<close>

lemma insert_manifest_engines:
  assumes "insert_archive_manifest rj io st m = (ins, st')"
  shows "ks_engines st' = ks_engines st" and "ks_config st' = ks_config st"
  using assms by (cases "manifest_insert rj io m (ks_manifests st, ks_manifest_file st)";
      auto simp: insert_archive_manifest_def)+

lemma archive_chunk_rows:
  assumes "archive_chunk oo ac ext rj env ar chunk user day = (res, ar')"
  shows "stored_rows ops rows (ar_store ar') t = stored_rows ops rows (ar_store ar) t"
  using archive_chunk_shape [OF assms] by (auto intro!: stored_rows_cong simp: insert_manifest_engines)

lemma archive_step_shape:
  assumes laws: "object_law oo" "codec_law ac"
    and chunk: "list_all (archivable ac ext bound) chunk" "length chunk * bound \<le> decompress_limit"
    and new: "\<forall>m\<in>listed ar. obj_path oo (am_s3_key m) \<noteq> obj_path oo (archive_key (ar_prefix ar) user day (ce_archive_id (env n)))"
    and step: "archive_step ops oo ac ext rj env user day chunk (ar, n, acc) = (ar', n', acc')"
  obtains ar1 ids where "\<And>t. stored_rows ops rows (ar_store ar1) t = stored_rows ops rows (ar_store ar) t"
    and "readable_ids oo ac ext ar \<subseteq> readable_ids oo ac ext ar1"
    and "event_id_fmt (ulid_to_string ext) ` set ids \<subseteq> readable_ids oo ac ext ar1"
    and "ar' = ar1 \<lparr> ar_store := snd (delete_events_by_ids ops ext (ar_store ar1) ids) \<rparr>"
proof -
  let ?fmt = "event_id_fmt (ulid_to_string ext)"
  obtain res ar1 where tried: "archive_chunk oo ac ext rj (env n) ar chunk user day = (res, ar1)" by fastforce
  note rows1 = archive_chunk_rows [OF tried]
  have kept: "readable_ids oo ac ext ar \<subseteq> readable_ids oo ac ext ar1"
    using archive_chunk_frame [OF laws(1) tried] new by (intro readable_frame) auto
  show ?thesis
  proof (cases res)
    case (Inl e)
    then have "ar' = ar1" using step tried by (simp add: archive_step_def)
    then show ?thesis using that [of ar1 "[]"] rows1 kept by (simp add: delete_events_by_ids_def)
  next
    case (Inr p)
    obtain bytes ids where p: "p = (bytes, ids)" by fastforce
    have ar': "ar' = ar1 \<lparr> ar_store := snd (delete_events_by_ids ops ext (ar_store ar1) ids) \<rparr>"
      using step tried Inr p by (auto simp: archive_step_def split: prod.splits sum.splits)
    from archive_chunk_archives [OF laws chunk tried [unfolded Inr p]] obtain m where ids: "ids = map ev_id chunk"
      and m: "m \<in> listed ar1" "fetch_one oo ac ext ar1 m = Inr (map without_hashes chunk)" by blast
    have "?fmt ` set ids \<subseteq> readable_ids oo ac ext ar1"
    proof
      fix s assume "s \<in> ?fmt ` set ids"
      then obtain e where "e \<in> set chunk" "s = ?fmt (ev_id e)" by (auto simp: ids)
      then have "s \<in> (\<lambda>e. ?fmt (ev_id e)) ` set (map without_hashes chunk)" by (auto simp: image_image without_hashes_def)
      with m show "s \<in> readable_ids oo ac ext ar1" unfolding readable_ids_def by blast
    qed
    from that [OF rows1 kept this ar'] show ?thesis .
  qed
qed

lemma archive_step_accounts:
  assumes laws: "object_law oo" "codec_law ac" "delete_keeps rows ops"
    and chunk: "list_all (archivable ac ext bound) chunk" "length chunk * bound \<le> decompress_limit"
    and new: "\<forall>m\<in>listed ar. obj_path oo (am_s3_key m) \<noteq> obj_path oo (archive_key (ar_prefix ar) user day (ce_archive_id (env n)))"
    and step: "archive_step ops oo ac ext rj env user day chunk (ar, n, acc) = (ar', n', acc')"
  shows "readable_ids oo ac ext ar \<subseteq> readable_ids oo ac ext ar' \<and>
    (r \<in># stored_rows ops rows (ar_store ar) t \<longrightarrow>
      r \<in># stored_rows ops rows (ar_store ar') t \<or> le_id r \<in> readable_ids oo ac ext ar')"
proof -
  obtain ar1 ids where rows1: "\<And>t. stored_rows ops rows (ar_store ar1) t = stored_rows ops rows (ar_store ar) t"
    and kept: "readable_ids oo ac ext ar \<subseteq> readable_ids oo ac ext ar1"
    and ids: "event_id_fmt (ulid_to_string ext) ` set ids \<subseteq> readable_ids oo ac ext ar1"
    and ar': "ar' = ar1 \<lparr> ar_store := snd (delete_events_by_ids ops ext (ar_store ar1) ids) \<rparr>"
    by (rule archive_step_shape [OF laws(1,2) chunk new step, where rows = rows]) blast
  have "readable_ids oo ac ext ar' = readable_ids oo ac ext ar1"
    unfolding ar' by (rule readable_store) (simp add: store_after)
  then show ?thesis
    using kept ids delete_events_member [OF laws(3), of r ext ids "ar_store ar1" t] by (auto simp: ar' rows1)
qed

text \<open>What a step may take a row away for.\<close>

definition removes :: "externals \<Rightarrow> str \<Rightarrow> log_event \<Rightarrow> life_event \<Rightarrow> bool" where
  "removes ext t r l \<longleftrightarrow>
     (case l of
        Deleted ids \<Rightarrow> le_id r \<in> event_id_fmt (ulid_to_string ext) ` set ids
      | Expired tier cutoff \<Rightarrow> tier = t \<and> le_ts_ns r < cutoff
      | ExpiredAll cutoff \<Rightarrow> le_ts_ns r < cutoff
      | _ \<Rightarrow> False)"

lemma life_step_accounts:
  assumes laws: "object_law oo" "codec_law ac" "engine_contract rows ops"
    and "life_step ops oo ac ext rj bound ar l ar'"
  shows "readable_ids oo ac ext ar \<subseteq> readable_ids oo ac ext ar' \<and>
    (r \<in># stored_rows ops rows (ar_store ar) t \<longrightarrow>
      r \<in># stored_rows ops rows (ar_store ar') t \<or> le_id r \<in> readable_ids oo ac ext ar' \<or> removes ext t r l)"
proof -
  have keeps: "engine_keeps rows ops" "gc_keeps rows ops" "delete_keeps rows ops"
    and one: "\<And>eng i r. r \<in># rows eng \<Longrightarrow> le_id r \<noteq> i \<Longrightarrow> r \<in># rows (snd (eng_delete_event ops eng i))"
    using laws(3) by (auto simp: engine_contract_def)
  from assms(4) show ?thesis
  proof cases
    case (append ord events res st)
    have st: "st = snd (append_batch_durable ops ext ord (ar_store ar) events)" by (simp add: append)
    have "stored_rows ops rows (ar_store ar) t \<subseteq># stored_rows ops rows st t"
      using append_tiers_grows [of rows "eng_append_batch_durable ops" ops] keeps(1)
      by (simp add: st store_after engine_keeps_def)
    then show ?thesis using append(2) by (auto simp: readable_store st store_after dest: mset_subset_eqD)
  next
    case (expire tier cutoff res st)
    have st: "st = snd (gc_tier ops (ar_store ar) tier cutoff)" by (simp add: expire)
    have "r \<in># stored_rows ops rows st t" if "r \<in># stored_rows ops rows (ar_store ar) t" "\<not> (tier = t \<and> le_ts_ns r < cutoff)"
      unfolding st store_after using that gc_member [OF keeps(2), of cutoff r] by (intro on_tier_member) auto
    then show ?thesis by (auto simp: expire(1,2) readable_store st store_after removes_def)
  next
    case (expire_all cutoff res st)
    have st: "st = snd (gc_expired ops (ar_store ar) cutoff)" by (simp add: expire_all)
    have "r \<in># stored_rows ops rows st t" if "r \<in># stored_rows ops rows (ar_store ar) t" "\<not> le_ts_ns r < cutoff"
      unfolding st store_after using that gc_member [OF keeps(2), of cutoff r] by (intro over_engines_member) auto
    then show ?thesis by (auto simp: expire_all(1,2) readable_store st store_after removes_def)
  next
    case (delete_one i res st)
    have st: "st = snd (delete_event ops ext (ar_store ar) i)" by (simp add: delete_one)
    have "r \<in># rows (snd (delete_if_present ops s eng))" if "r \<in># rows eng" "le_id r \<noteq> s" for s eng
      using that one [of r eng s] by (auto simp: delete_if_present_def split: sum.splits option.splits prod.splits)
    then show ?thesis
      using over_engines_member [of r rows "delete_if_present ops (event_id_fmt (ulid_to_string ext) i)" ops "ar_store ar" t]
      by (auto simp: delete_one(1,2) readable_store st store_after removes_def)
  next
    case (delete_many ids res st)
    have st: "st = snd (delete_events_by_ids ops ext (ar_store ar) ids)" by (simp add: delete_many)
    have "ks_manifests st = ks_manifests (ar_store ar)" by (simp add: st store_after)
    then show ?thesis
      using delete_events_member [OF keeps(3), of r ext ids "ar_store ar" t]
      by (auto simp: delete_many(1,2) readable_store removes_def simp flip: st)
  next
    case (archive chunk user day env n acc n' acc')
    from archive_step_accounts [OF laws(1,2) keeps(3) archive(2-5)] show ?thesis by blast
  next
    case (checkpoint res st)
    have st: "st = snd (wal_checkpoint ops (ar_store ar))" by (simp add: checkpoint)
    have "stored_rows ops rows st t = stored_rows ops rows (ar_store ar) t"
      unfolding st by (rule wal_checkpoint_rows) (use keeps(1) in \<open>simp add: engine_keeps_def\<close>)
    then show ?thesis by (simp add: checkpoint(1,2) readable_store st store_after)
  next
    case (measure now lock_free res st)
    have st: "st = snd (db_size_bytes ops now lock_free (ar_store ar))" by (simp add: measure)
    have "stored_rows ops rows st t = stored_rows ops rows (ar_store ar) t"
      by (rule stored_rows_cong) (simp_all add: st db_size_frame)
    then show ?thesis by (simp add: measure(1,2) readable_store st db_size_frame)
  qed
qed

lemma acknowledged_stored:
  assumes "engine_keeps rows ops" and "life_step ops oo ac ext rj bound ar (Wrote events True) ar'" and "e \<in> set events"
  shows "to_log_event ext e \<in># stored_rows ops rows (ar_store ar') (ev_tier e)"
  using assms(2)
proof (rule life_step_wrote)
  fix ord res st
  assume step: "\<forall>m. mset (ord m) = mset m" "append_batch_durable ops ext ord (ar_store ar) events = (res, st)"
    "True = (case res of Inr _ \<Rightarrow> True | Inl _ \<Rightarrow> False)" "ar' = ar \<lparr> ar_store := st \<rparr>"
  then have "append_tiers ops (eng_append_batch_durable ops) (ord (rows_by_tier ext events)) (ar_store ar) = (Inr (), st)"
    using assms(3) by (auto simp: append_batch_durable_def split: prod.splits sum.splits if_splits)
  from append_tiers_batch [OF _ _ this, of rows ext events "ev_tier e"] step(1) assms(1,3) show ?thesis
    by (auto simp: engine_keeps_def step(4))
qed

section \<open>Whole runs\<close>


section \<open>The background passes are runs\<close>

lemma collector_pass_is_run:
  "life_run ops oo ac ext rj bound ar
     (map (\<lambda>e. Expired (rt_name e) (retention_cutoff now_ns (rt_days e))) (filter (\<lambda>e. rt_days e \<noteq> 0) tiers))
     (ar \<lparr> ar_store := gc_tiered_tick ops now_ns tiers (ar_store ar) \<rparr>)"
proof (induction tiers rule: rev_induct)
  case Nil
  show ?case using steps.start [of "life_step ops oo ac ext rj bound" ar] by (simp add: gc_tiered_tick_def)
next
  case (snoc e tiers)
  let ?st = "gc_tiered_tick ops now_ns tiers (ar_store ar)"
  obtain res st where gc: "gc_tier ops ?st (rt_name e) (retention_cutoff now_ns (rt_days e)) = (res, st)" by fastforce
  have "life_step ops oo ac ext rj bound (ar \<lparr> ar_store := ?st \<rparr>)
      (Expired (rt_name e) (retention_cutoff now_ns (rt_days e))) (ar \<lparr> ar_store := st \<rparr>)"
    using life_step.expire [of ops "ar \<lparr> ar_store := ?st \<rparr>"] gc by simp
  from steps.step [OF snoc this] snoc gc show ?case by (simp add: gc_tiered_tick_def)
qed

text \<open>The keys of a cycle from the \<open>n\<close>th try on are not those of a listed archive.\<close>

definition unused :: "'o object_ops \<Rightarrow> (nat \<Rightarrow> chunk_env) \<Rightarrow> nat \<Rightarrow> ('g, 'o) archiver \<Rightarrow> bool" where
  "unused oo env n ar \<longleftrightarrow> (\<forall>m\<in>listed ar. \<forall>k\<ge>n. \<forall>u d.
     obj_path oo (am_s3_key m) \<noteq> obj_path oo (archive_key (ar_prefix ar) u d (ce_archive_id (env k))))"

lemma archive_chunk_listed:
  assumes "archive_chunk oo ac ext rj env ar chunk user day = (res, ar')"
  shows "ar_prefix ar' = ar_prefix ar \<and>
    listed ar' \<subseteq> listed ar \<union> {m. am_s3_key m = archive_key (ar_prefix ar) user day (ce_archive_id env)}"
proof -
  have ins: "set (concat (map snd (ms_entries (ks_manifests st')))) \<subseteq>
      insert m (set (concat (map snd (ms_entries (ks_manifests st)))))"
    if "insert_archive_manifest rj io st m = (ins, st')" for io and st st' :: "'a kdb_store" and m ins
    using that insert_manifest_ok [of rj io st m _ st'] insert_manifest_error [of rj io st m _ st']
    by (cases ins) auto
  show ?thesis
    using assms
    by (auto simp: archive_chunk_def Let_def listed_def simp del: set_concat split: sum.splits prod.splits dest!: ins)
qed

lemma archive_step_is_run:
  assumes "object_law oo" "fresh_paths oo env (ar_prefix ar)" "unused oo env n ar"
    and chunk: "list_all (archivable ac ext bound) chunk" "length chunk * bound \<le> decompress_limit"
    and step: "archive_step ops oo ac ext rj env user day chunk (ar, n, acc) = (ar', n', acc')"
  shows "life_step ops oo ac ext rj bound ar Archived ar' \<and> ar_prefix ar' = ar_prefix ar \<and> n' = Suc n \<and> unused oo env n' ar'"
proof -
  obtain res ar1 where tried: "archive_chunk oo ac ext rj (env n) ar chunk user day = (res, ar1)" by fastforce
  define ids where "ids = (case res of Inr p \<Rightarrow> snd p | Inl _ \<Rightarrow> [])"
  have "ar' = ar1 \<or> ar' = ar1 \<lparr> ar_store := snd (delete_events_by_ids ops ext (ar_store ar1) ids) \<rparr>"
    and n': "n' = Suc n"
    using step tried by (auto simp: archive_step_def ids_def split: sum.splits prod.splits)
  then have same: "ar_prefix ar' = ar_prefix ar1 \<and> listed ar' = listed ar1"
    by (cases "ids = []") (auto simp: listed_def store_after simp del: set_concat)
  have "obj_path oo (am_s3_key m) \<noteq> obj_path oo (archive_key (ar_prefix ar) u d (ce_archive_id (env k)))"
    if "m \<in> listed ar'" "n' \<le> k" for m k u d
  proof (cases "m \<in> listed ar")
    case True
    with assms(3) that n' show ?thesis by (simp add: unused_def)
  next
    case False
    with that archive_chunk_listed [OF tried] same have "am_s3_key m = archive_key (ar_prefix ar) user day (ce_archive_id (env n))"
      by auto
    moreover have "n \<noteq> k" using that n' by simp
    ultimately show ?thesis using assms(2) unfolding fresh_paths_def by simp
  qed
  moreover have "life_step ops oo ac ext rj bound ar Archived ar'"
    using assms(3) by (intro life_step.archive [OF chunk _ step]) (simp add: unused_def)
  ultimately show ?thesis using same n' archive_chunk_listed [OF tried] by (simp add: unused_def)
qed

lemma archive_fold_is_run:
  assumes "object_law oo" "fresh_paths oo env (ar_prefix ar)" "unused oo env n ar"
    and "list_all (\<lambda>c. list_all (archivable ac ext bound) c \<and> length c * bound \<le> decompress_limit) cs"
    and "fold (archive_step ops oo ac ext rj env user day) cs (ar, n, acc) = (ar', n', acc')"
  shows "\<exists>ls. set ls \<subseteq> {Archived} \<and> life_run ops oo ac ext rj bound ar ls ar' \<and>
    ar_prefix ar' = ar_prefix ar \<and> unused oo env n' ar'"
  using assms(2-5)
proof (induction cs arbitrary: ar n acc)
  case Nil
  then show ?case by (intro exI [of _ "[]"]) (simp add: steps.start)
next
  case (Cons c cs)
  obtain ar1 n1 acc1 where one: "archive_step ops oo ac ext rj env user day c (ar, n, acc) = (ar1, n1, acc1)"
    by (metis prod.exhaust)
  from Cons.prems(3) have c: "list_all (archivable ac ext bound) c" "length c * bound \<le> decompress_limit" by simp_all
  note step = archive_step_is_run [OF assms(1) Cons.prems(1,2) c one]
  from Cons.IH [of ar1 n1 acc1] Cons.prems step one obtain ls where
    "set ls \<subseteq> {Archived}" "life_run ops oo ac ext rj bound ar1 ls ar'" "ar_prefix ar' = ar_prefix ar" "unused oo env n' ar'"
    by auto
  moreover have "life_run ops oo ac ext rj bound ar [Archived] ar1"
    using steps.step [OF steps.start] step by fastforce
  ultimately show ?case
    using steps_append [of "life_step ops oo ac ext rj bound" ar1 ls ar' ar "[Archived]"] by (intro exI [of _ "Archived # ls"]) auto
qed

lemma archive_groups_is_run:
  assumes "object_law oo" "fresh_paths oo env (ar_prefix ar)" "unused oo env n ar"
    and "0 < batch_size" "batch_size * bound \<le> decompress_limit"
    and "list_all (\<lambda>g. list_all (archivable ac ext bound) (snd g)) groups"
    and "archive_groups ops oo ac ext rj env batch_size groups (ar, n, acc) = Ret (ar', n', acc')"
  shows "\<exists>ls. set ls \<subseteq> {Archived} \<and> life_run ops oo ac ext rj bound ar ls ar'"
  using assms(2,3,6,7)
proof (induction groups arbitrary: ar n acc)
  case Nil
  then show ?case by (intro exI [of _ "[]"]) (simp add: steps.start)
next
  case (Cons g groups)
  obtain user day events where g: "g = ((user, day), events)" by (metis prod.exhaust)
  obtain ar1 n1 acc1 where one: "fold (archive_step ops oo ac ext rj env user day) (chunks_of batch_size events) (ar, n, acc) =
      (ar1, n1, acc1)" by (metis prod.exhaust)
  have "list_all (\<lambda>c. list_all (archivable ac ext bound) c \<and> length c * bound \<le> decompress_limit) (chunks_of batch_size events)"
    using chunk_limits [OF assms(4,5), of "archivable ac ext bound" events] Cons.prems(3)
    unfolding list_all_iff [of _ "chunks_of batch_size events"] by (simp add: g)
  from archive_fold_is_run [OF assms(1) Cons.prems(1,2) this one] obtain ls where
    ls: "set ls \<subseteq> {Archived}" "life_run ops oo ac ext rj bound ar ls ar1" "ar_prefix ar1 = ar_prefix ar" "unused oo env n1 ar1"
    by blast
  from Cons.IH [of ar1 n1 acc1] Cons.prems ls one obtain ms where
    "set ms \<subseteq> {Archived}" "life_run ops oo ac ext rj bound ar1 ms ar'"
    using assms(4) by (auto simp: g chunks_def)
  with ls show ?case by (intro exI [of _ "ls @ ms"]) (auto intro: steps_append)
qed

lemma archive_cycle_is_run:
  assumes "object_law oo" "fresh_paths oo env (ar_prefix ar)" "unused oo env 0 ar"
    and "0 < batch_size" "batch_size * bound \<le> decompress_limit"
    and "\<And>events. query_events_for_archive ops ext (ar_store ar) cutoff = Ret (Inr events) \<Longrightarrow>
      list_all (archivable ac ext bound) events"
    and "archive_old_events ops oo ac ext rj env ar cutoff batch_size = Ret (res, ar')"
  shows "\<exists>ls. set ls \<subseteq> {Archived} \<and> life_run ops oo ac ext rj bound ar ls ar'"
proof -
  have stay: "\<exists>ls. set ls \<subseteq> {Archived} \<and> life_run ops oo ac ext rj bound ar ls ar"
    by (intro exI [of _ "[]"]) (simp add: steps.start)
  show ?thesis
  proof (cases "query_events_for_archive ops ext (ar_store ar) cutoff")
    case (Ret q)
    show ?thesis
    proof (cases q)
      case (Inr events)
      show ?thesis
      proof (cases "events = []")
        case False
        then obtain n' acc' where groups: "archive_groups ops oo ac ext rj env batch_size (group_events events)
            (ar, 0, archive_result_default) = Ret (ar', n', acc')"
          using assms(7) Ret Inr by (auto simp: archive_old_events_def rollup_days_for_range_def run_bind_def
              split: run.splits)
        have "list_all (archivable ac ext bound) events" by (rule assms(6)) (simp add: Ret Inr)
        then have "list_all (\<lambda>g. list_all (archivable ac ext bound) (snd g)) (group_events events)"
          by (auto simp: group_events_grouped bt.in_grouped_iff list_all_iff)
        from archive_groups_is_run [OF assms(1-5) this groups] show ?thesis .
      qed (use assms(7) Ret Inr stay in \<open>simp add: archive_old_events_def rollup_days_for_range_def\<close>)
    qed (use assms(7) Ret stay in \<open>simp add: archive_old_events_def rollup_days_for_range_def\<close>)
  qed (use assms(7) in \<open>simp add: archive_old_events_def rollup_days_for_range_def\<close>)
qed

section \<open>Example\<close>

lemma list_engine_contract: "engine_contract mset list_engine"
proof -
  have "gc_keeps mset list_engine"
    by (auto simp: gc_keeps_def list_engine_def filter_filter_mset mset_filter intro!: filter_mset_cong)
  then show ?thesis
    using list_engine_keeps list_engine_delete_keeps by (auto simp: engine_contract_def list_engine_def)
qed

text \<open>A write to one tier and a collection of another.\<close>

lemma sample_life_run:
  "\<exists>st. life_run list_engine map_objects one_event_codec sample_ext sample_rj 3
      \<lparr> ar_store = empty_store, ar_client = [], ar_prefix = ''events'' \<rparr> [Wrote [sample_event] True, Expired ''pro'' 5]
      \<lparr> ar_store = st, ar_client = [], ar_prefix = ''events'' \<rparr>"
proof -
  let ?ar0 = "\<lparr> ar_store = empty_store, ar_client = [], ar_prefix = ''events'' \<rparr>"
  let ?step = "life_step list_engine map_objects one_event_codec sample_ext sample_rj 3"
  obtain res st where gc: "gc_tier list_engine stored_once ''pro'' 5 = (res, st)" by fastforce
  have wrote: "?step ?ar0 (Wrote [sample_event] True) (?ar0 \<lparr> ar_store := stored_once \<rparr>)"
    using life_step.append [of id list_engine sample_ext ?ar0 "[sample_event]"] sample_appended by fastforce
  have expired: "?step (?ar0 \<lparr> ar_store := stored_once \<rparr>) (Expired ''pro'' 5) (?ar0 \<lparr> ar_store := st \<rparr>)"
    using life_step.expire [of list_engine "?ar0 \<lparr> ar_store := stored_once \<rparr>"] gc by simp
  from steps_append [OF steps_one [where stp = ?step, OF expired] steps_one [where stp = ?step, OF wrote]]
  show ?thesis by auto
qed


end
