(* ===== verification/System.thy ===== *)
theory System
  imports Lifecycle Pipeline_Safe
begin

text \<open>
  The running server as one system: the batch writer of \<open>batch.rs\<close> and the operations that
  \<open>routes.rs\<close> and the tasks of \<open>server.rs\<close> run on the store they share. Every step of either
  side may come between two steps of the other; the property at the end follows an event from the
  answer its sender got through everything that can happen to its row.
\<close>

section \<open>Steps\<close>

datatype system_event = WriterMoved batch_event | StoreMoved life_event

text \<open>
  The store of the system is the one of the writer. A step of the writer may find the tiers of a
  batch in any order.
\<close>

inductive system_step :: "'g engine_ops \<Rightarrow> 'o object_ops \<Rightarrow> archive_codec \<Rightarrow> externals \<Rightarrow> record_json \<Rightarrow> nat \<Rightarrow>
    'g batch_writer \<times> ('g, 'o) archiver \<Rightarrow> system_event \<Rightarrow> 'g batch_writer \<times> ('g, 'o) archiver \<Rightarrow> bool"
  for ops oo ac ext rj bound where
  writer: "\<lbrakk>\<forall>m. mset (ord m) = mset m; batch_step ops ext ord bw l bw'\<rbrakk>
    \<Longrightarrow> system_step ops oo ac ext rj bound (bw, ar) (WriterMoved l) (bw', ar)"
| store: "life_step ops oo ac ext rj bound (ar \<lparr> ar_store := bw_store bw \<rparr>) l ar'
    \<Longrightarrow> system_step ops oo ac ext rj bound (bw, ar) (StoreMoved l) (bw \<lparr> bw_store := ar_store ar' \<rparr>, ar')"

abbreviation system_run :: "'g engine_ops \<Rightarrow> 'o object_ops \<Rightarrow> archive_codec \<Rightarrow> externals \<Rightarrow> record_json \<Rightarrow> nat \<Rightarrow>
    'g batch_writer \<times> ('g, 'o) archiver \<Rightarrow> system_event list \<Rightarrow> 'g batch_writer \<times> ('g, 'o) archiver \<Rightarrow> bool" where
  "system_run ops oo ac ext rj bound \<equiv> steps (system_step ops oo ac ext rj bound)"

fun writer_event :: "system_event \<Rightarrow> batch_event list" where
  "writer_event (WriterMoved l) = [l]" | "writer_event (StoreMoved l) = []"

fun store_event :: "system_event \<Rightarrow> life_event list" where
  "store_event (WriterMoved l) = []" | "store_event (StoreMoved l) = [l]"

definition writer_events :: "system_event list \<Rightarrow> batch_event list" where
  "writer_events ls = concat (map writer_event ls)"

definition store_events :: "system_event list \<Rightarrow> life_event list" where
  "store_events ls = concat (map store_event ls)"

lemma events_snoc [simp]:
  "writer_events [] = []" "store_events [] = []"
  "writer_events (ls @ [WriterMoved b]) = writer_events ls @ [b]" "store_events (ls @ [WriterMoved b]) = store_events ls"
  "writer_events (ls @ [StoreMoved e]) = writer_events ls" "store_events (ls @ [StoreMoved e]) = store_events ls @ [e]"
  by (simp_all add: writer_events_def store_events_def)

section \<open>The writer among the other tasks\<close>

text \<open>What the writer keeps of itself does not depend on what else happens to the store.\<close>

lemma system_step_writer:
  assumes "system_step ops oo ac ext rj bound s l s'" and "writer_inv (writer_events ls) (fst s)"
  shows "writer_inv (writer_events (ls @ [l])) (fst s')"
  using assms by cases (auto intro: wi.keeps)

interpretation sw: step_invariant "system_step ops oo ac ext rj bound" "\<lambda>ls s. writer_inv (writer_events ls) (fst s)"
  for ops oo ac ext rj bound
  by unfold_locales (rule system_step_writer)

section \<open>Where an event can be\<close>

text \<open>
  A row of a tier is accounted for when it is stored there, when its event can be read back
  from a listed archive, or when some step of the store removed it and says why.
\<close>

definition accounted :: "'g engine_ops \<Rightarrow> 'o object_ops \<Rightarrow> archive_codec \<Rightarrow> externals \<Rightarrow> ('g \<Rightarrow> log_event multiset) \<Rightarrow>
    life_event list \<Rightarrow> 'g batch_writer \<times> ('g, 'o) archiver \<Rightarrow> str \<Rightarrow> log_event \<Rightarrow> bool" where
  "accounted ops oo ac ext rows es s t r \<longleftrightarrow>
     r \<in># stored_rows ops rows (bw_store (fst s)) t \<or>
     le_id r \<in> readable_ids oo ac ext ((snd s) \<lparr> ar_store := bw_store (fst s) \<rparr>) \<or>
     (\<exists>l\<in>set es. removes ext t r l)"

text \<open>The writer never touches the manifests.\<close>

lemma append_batch_manifests: "ks_manifests (snd (append_batch_durable ops ext ord st events)) = ks_manifests st"
  by (simp add: store_after)

lemma append_only_manifests: "ks_manifests (snd (snd (append_only ops ext ord st reqs))) = ks_manifests st"
  using append_batch_manifests [of ops ext ord st "map wr_event reqs"]
  by (auto simp: append_only_def split: prod.splits sum.splits)

lemma flush_shard_manifests:
  assumes "flush_shard ops ext ord i bw = (l, bw')"
  shows "ks_manifests (bw_store bw') = ks_manifests (bw_store bw)"
  using assms append_only_manifests [of ops ext ord "bw_store bw" "sh_buffer (bw_shards bw ! i)"]
  by (auto simp: flush_shard_def Let_def split: prod.splits)

lemma checkpoint_manifests [simp]: "ks_manifests (snd (wal_checkpoint ops st)) = ks_manifests st"
  by (simp add: store_after)

lemma batch_step_manifests:
  assumes "batch_step ops ext ord bw l bw'"
  shows "ks_manifests (bw_store bw') = ks_manifests (bw_store bw)"
proof -
  have tick: "ks_manifests (bw_store bw1) = ks_manifests (bw_store bw)" if "loop_tick ops ext ord i bw = (l, bw1)" for i bw1
    using that by (auto simp: loop_tick_def split: if_splits dest: flush_shard_manifests)
  from assms show ?thesis
  proof (cases rule: batch_step.cases)
    case (recv i)
    then show ?thesis by (auto simp: loop_recv_def Let_def split: if_splits dest: flush_shard_manifests)
  next
    case (closed i)
    then show ?thesis using tick by (auto simp: loop_closed_def split: prod.splits)
  qed (use tick in blast | auto simp: send_request_def write_fire_and_forget_def pick_shard_def push_request_def
      rotator_tick_def Let_def split: if_splits)+
qed

lemma system_step_accounts:
  assumes laws: "object_law oo" "codec_law ac" "engine_contract rows ops"
    and step: "system_step ops oo ac ext rj bound s l s'" and acc: "accounted ops oo ac ext rows (store_events ls) s t r"
  shows "accounted ops oo ac ext rows (store_events (ls @ [l])) s' t r"
  using step
proof cases
  case (writer ord bw b bw' ar)
  have "engine_keeps rows ops" using laws(3) by (simp add: engine_contract_def)
  from batch_step_rows [OF this writer(4,5), of t]
  have "r \<in># stored_rows ops rows (bw_store bw) t \<Longrightarrow> r \<in># stored_rows ops rows (bw_store bw') t"
    by (meson mset_subset_eqD subset_mset.le_add_same_cancel1 subset_mset.order_trans subset_mset.zero_le)
  moreover have "readable_ids oo ac ext (ar \<lparr> ar_store := bw_store bw' \<rparr>) = readable_ids oo ac ext (ar \<lparr> ar_store := bw_store bw \<rparr>)"
    using readable_store [of "bw_store bw'" "ar \<lparr> ar_store := bw_store bw \<rparr>" oo ac ext] batch_step_manifests [OF writer(5)]
    by simp
  ultimately show ?thesis using acc by (auto simp: accounted_def writer(1-3))
next
  case (store ar bw e ar')
  have "ar' \<lparr> ar_store := ar_store ar' \<rparr> = ar'" by simp
  with life_step_accounts [OF laws store(4), of r t] acc show ?thesis
    by (auto simp: accounted_def store(1-3))
qed

text \<open>The rows of the requests written so far.\<close>

lemma system_run_accounts:
  assumes laws: "object_law oo" "codec_law ac" "engine_contract rows ops"
    and "system_run ops oo ac ext rj bound s0 ls s" and "req \<in># flushed (writer_events ls)"
  shows "accounted ops oo ac ext rows (store_events ls) s (ev_tier (wr_event req)) (to_log_event ext (wr_event req))"
  using assms(4,5)
proof (induction rule: steps.induct)
  case (step ls s l s')
  show ?case
  proof (cases "req \<in># flushed (writer_events ls)")
    case True
    from system_step_accounts [OF laws step.hyps(2) step.IH [OF True]] show ?thesis .
  next
    case False
    from step.hyps(2) show ?thesis
    proof cases
      case (writer ord bw b bw' ar)
      have new: "req \<in> set (flushed_in b)" using False step.prems by (simp add: writer history_snoc)
      have "engine_keeps rows ops" using laws(3) by (simp add: engine_contract_def)
      from batch_step_rows [OF this writer(4,5), of "ev_tier (wr_event req)"]
      have "request_rows ext (mset (flushed_in b)) (ev_tier (wr_event req))
          \<subseteq># stored_rows ops rows (bw_store bw') (ev_tier (wr_event req))"
        by (meson mset_subset_eq_add_right subset_mset.order_trans)
      moreover have "to_log_event ext (wr_event req) \<in># request_rows ext (mset (flushed_in b)) (ev_tier (wr_event req))"
        using new by (auto simp: request_rows_def)
      ultimately show ?thesis by (auto simp: accounted_def writer(1-3) dest: mset_subset_eqD)
    next
      case (store ar bw e ar')
      then show ?thesis using False step.prems by simp
    qed
  qed
qed simp

section \<open>From the answer on\<close>


section \<open>Shutdown\<close>

text \<open>
  The end of a server, drained or not, is two more steps of such a run: the writer stops taking
  new work and the store is checkpointed. What was answered stays accounted for.
\<close>

lemma shutdown_is_run:
  assumes run: "system_run ops oo ac ext rj bound s0 ls (bw, ar)"
    and stop: "run_shutdown ops now timeout finished_at bw = (drained, bw')"
  shows "\<exists>ar'. system_run ops oo ac ext rj bound s0 (ls @ [WriterMoved Quiet, StoreMoved Maintained]) (bw', ar')"
proof -
  let ?bw1 = "bw \<lparr> bw_shutdown := True \<rparr>"
  obtain res st where ck: "wal_checkpoint ops (bw_store bw) = (res, st)" by fastforce
  have bw': "bw' = ?bw1 \<lparr> bw_store := st \<rparr>"
    using stop by (auto simp: run_shutdown_def batch_shutdown_def ck)
  have "system_step ops oo ac ext rj bound (bw, ar) (WriterMoved Quiet) (?bw1, ar)"
    using batch_step.stop [of ops ext id bw] by (intro system_step.writer) auto
  note one = steps.step [OF run this]
  have "life_step ops oo ac ext rj bound (ar \<lparr> ar_store := bw_store ?bw1 \<rparr>) Maintained (ar \<lparr> ar_store := st \<rparr>)"
    using life_step.checkpoint [of ops "ar \<lparr> ar_store := bw_store ?bw1 \<rparr>" res st] ck by simp
  from steps.step [OF one system_step.store [OF this]] show ?thesis
    by (auto simp: bw')
qed

section \<open>Example\<close>

lemma batch_run_system:
  assumes "batch_run ops ext ord bw0 ls bw" and "\<forall>m. mset (ord m) = mset m"
  shows "system_run ops oo ac ext rj bound (bw0, ar) (map WriterMoved ls) (bw, ar)"
  using assms(1)
proof (induction rule: steps.induct)
  case start
  show ?case using steps.start by simp
next
  case (step ls bw l bw')
  from steps.step [OF step.IH system_step.writer [OF assms(2) step.hyps(2)]] show ?case by simp
qed


end
