(* ===== verification/Event_Log.thy ===== *)
theory Event_Log
  imports Lifecycle
begin

text \<open>
  What the store promises, without engines, files or objects: per tier the rows that are there,
  and the ids that can be read from an archive. The operations of \<open>kdb_store.rs\<close>,
  \<open>archive.rs\<close> and the tasks of \<open>server.rs\<close> are steps of this log, on their error paths too.
\<close>

section \<open>The abstract log\<close>

record event_log =
  log_rows :: "str \<Rightarrow> log_event multiset"
  log_archived :: "str set"

text \<open>Rows may go only for the reason \<open>P\<close>, and nothing comes.\<close>

definition takes_only :: "(log_event \<Rightarrow> bool) \<Rightarrow> log_event multiset \<Rightarrow> log_event multiset \<Rightarrow> bool" where
  "takes_only P M M' \<longleftrightarrow> M' \<subseteq># M \<and> filter_mset (\<lambda>r. \<not> P r) M' = filter_mset (\<lambda>r. \<not> P r) M"

definition event_rows :: "externals \<Rightarrow> llm_event list \<Rightarrow> str \<Rightarrow> log_event multiset" where
  "event_rows ext events t = mset (map (to_log_event ext) (filter (\<lambda>e. ev_tier e = t) events))"

inductive log_step :: "externals \<Rightarrow> event_log \<Rightarrow> life_event \<Rightarrow> event_log \<Rightarrow> bool" for ext where
  append_all: "log_step ext L (Wrote events True) (L \<lparr> log_rows := \<lambda>t. log_rows L t + event_rows ext events t \<rparr>)"
| append_part: "\<forall>t. log_rows L t \<subseteq># R t \<and> R t \<subseteq># log_rows L t + event_rows ext events t
    \<Longrightarrow> log_step ext L (Wrote events False) (L \<lparr> log_rows := R \<rparr>)"
| expire: "takes_only (\<lambda>r. le_ts_ns r < cutoff) (log_rows L tier) M
    \<Longrightarrow> log_step ext L (Expired tier cutoff) (L \<lparr> log_rows := (log_rows L)(tier := M) \<rparr>)"
| expire_all: "\<forall>t. takes_only (\<lambda>r. le_ts_ns r < cutoff) (log_rows L t) (R t)
    \<Longrightarrow> log_step ext L (ExpiredAll cutoff) (L \<lparr> log_rows := R \<rparr>)"
| delete: "\<forall>t. takes_only (\<lambda>r. le_id r \<in> event_id_fmt (ulid_to_string ext) ` set ids) (log_rows L t) (R t)
    \<Longrightarrow> log_step ext L (Deleted ids) (L \<lparr> log_rows := R \<rparr>)"
| archive: "\<lbrakk>log_archived L \<subseteq> A; \<forall>t. takes_only (\<lambda>r. le_id r \<in> A) (log_rows L t) (R t)\<rbrakk>
    \<Longrightarrow> log_step ext L Archived \<lparr> log_rows = R, log_archived = A \<rparr>"
| maintain: "log_step ext L Maintained L"

abbreviation log_run :: "externals \<Rightarrow> event_log \<Rightarrow> life_event list \<Rightarrow> event_log \<Rightarrow> bool" where
  "log_run ext \<equiv> steps (log_step ext)"

section \<open>Abstraction\<close>

definition log_of :: "'g engine_ops \<Rightarrow> 'o object_ops \<Rightarrow> archive_codec \<Rightarrow> externals \<Rightarrow> ('g \<Rightarrow> log_event multiset) \<Rightarrow>
    ('g, 'o) archiver \<Rightarrow> event_log" where
  "log_of ops oo ac ext rows ar =
     \<lparr> log_rows = stored_rows ops rows (ar_store ar), log_archived = readable_ids oo ac ext ar \<rparr>"

text \<open>What an engine documents of its operations, on their error paths too.\<close>

definition engine_spec :: "('g \<Rightarrow> log_event multiset) \<Rightarrow> 'g engine_ops \<Rightarrow> bool" where
  "engine_spec rows ops \<longleftrightarrow> append_law rows (eng_append_batch_durable ops) \<and>
     (\<forall>eng logs. rows eng \<subseteq># rows (snd (eng_append_batch_durable ops eng logs)) \<and>
        rows (snd (eng_append_batch_durable ops eng logs)) \<subseteq># rows eng + mset logs) \<and>
     (\<forall>eng t. takes_only (\<lambda>r. le_ts_ns r < t) (rows eng) (rows (snd (eng_gc ops eng t)))) \<and>
     (\<forall>eng ids. takes_only (\<lambda>r. le_id r \<in> set ids) (rows eng) (rows (snd (eng_delete_events ops eng ids)))) \<and>
     (\<forall>eng i. takes_only (\<lambda>r. le_id r = i) (rows eng) (rows (snd (eng_delete_event ops eng i)))) \<and>
     (\<forall>eng. rows (snd (eng_flush ops eng)) = rows eng)"

lemma takes_only_refl [simp]: "takes_only P M M"
  by (simp add: takes_only_def)

lemma takes_only_trans: "takes_only P M M' \<Longrightarrow> takes_only P M' M'' \<Longrightarrow> takes_only P M M''"
  unfolding takes_only_def by (metis subset_mset.order_trans)

lemma takes_only_mono:
  assumes "takes_only P M M'" and "\<And>r. P r \<Longrightarrow> Q r"
  shows "takes_only Q M M'"
proof -
  have "filter_mset (\<lambda>r. \<not> Q r) N = filter_mset (\<lambda>r. \<not> Q r) (filter_mset (\<lambda>r. \<not> P r) N)" for N
    using assms(2) by (auto simp: filter_filter_mset intro!: filter_mset_cong)
  then show ?thesis using assms(1) unfolding takes_only_def by metis
qed

lemma takes_only_member: "takes_only P M M' \<Longrightarrow> r \<in># M \<Longrightarrow> r \<in># M' \<or> P r"
  unfolding takes_only_def by (metis (mono_tags, lifting) count_filter_mset not_in_iff)

lemma takes_only_subset: "takes_only P M M' \<Longrightarrow> r \<in># M' \<Longrightarrow> r \<in># M"
  unfolding takes_only_def by (blast dest: mset_subset_eqD)

lemma engine_spec_takes:
  assumes "engine_spec rows ops"
  shows "takes_only (\<lambda>r. le_ts_ns r < t) (rows eng) (rows (snd (eng_gc ops eng t)))"
    and "takes_only (\<lambda>r. le_id r \<in> set ids) (rows eng) (rows (snd (eng_delete_events ops eng ids)))"
    and "takes_only (\<lambda>r. le_id r = i) (rows eng) (rows (snd (eng_delete_event ops eng i)))"
  using assms by (simp_all add: engine_spec_def)

text \<open>The contract of the life cycle follows.\<close>

lemma engine_spec_contract:
  assumes "engine_spec rows ops"
  shows "engine_contract rows ops"
proof -
  note spec = assms [unfolded engine_spec_def]
  have "engine_keeps rows ops" using spec by (simp add: engine_keeps_def)
  moreover have "gc_keeps rows ops"
    unfolding gc_keeps_def
  proof (intro allI impI)
    fix eng t res eng' assume "eng_gc ops eng t = (res, eng')"
    moreover have "takes_only (\<lambda>r. le_ts_ns r < t) (rows eng) (rows (snd (eng_gc ops eng t)))" using spec by blast
    ultimately show "rows eng' \<subseteq># rows eng \<and>
        filter_mset (\<lambda>r. t \<le> le_ts_ns r) (rows eng') = filter_mset (\<lambda>r. t \<le> le_ts_ns r) (rows eng)"
      by (simp add: takes_only_def not_less)
  qed
  moreover have "delete_keeps rows ops"
    unfolding delete_keeps_def
  proof (intro allI impI)
    fix eng ids res eng' assume "eng_delete_events ops eng ids = (res, eng')"
    moreover have "takes_only (\<lambda>r. le_id r \<in> set ids) (rows eng) (rows (snd (eng_delete_events ops eng ids)))"
      using spec by blast
    ultimately show "filter_mset (\<lambda>r. le_id r \<notin> set ids) (rows eng') = filter_mset (\<lambda>r. le_id r \<notin> set ids) (rows eng)"
      by (simp add: takes_only_def)
  qed
  moreover have "r \<in># rows (snd (eng_delete_event ops eng i))" if "r \<in># rows eng" "le_id r \<noteq> i" for eng i r
    using spec that takes_only_member [of "\<lambda>r. le_id r = i"] by blast
  ultimately show ?thesis by (simp add: engine_contract_def)
qed

section \<open>Operations of the store\<close>

text \<open>A reflexive relation that an engine operation keeps between its rows holds for its tier.\<close>

lemma on_tier_rel:
  assumes "\<And>eng. rel (rows eng) (rows (snd (act eng)))" and "\<And>M. rel M M"
  shows "rel (stored_rows ops rows st tier) (stored_rows ops rows (snd (on_tier ops act st tier)) tier)"
  using assms
  by (auto simp: on_tier_def engine_for_def stored_rows_def map_of_map_put
      split: option.splits sum.splits prod.splits) (metis snd_conv)+

lemma on_tier_other:
  "t \<noteq> tier \<Longrightarrow> stored_rows ops rows (snd (on_tier ops act st tier)) t = stored_rows ops rows st t"
  by (auto simp: on_tier_def engine_for_def stored_rows_def map_of_map_put
      split: option.splits sum.splits prod.splits)

lemma over_engines_rel:
  assumes "\<And>eng. rel (rows eng) (rows (snd (act eng)))" and "\<And>M. rel M M"
  shows "rel (stored_rows ops rows st t) (stored_rows ops rows (snd (over_engines act st)) t)"
proof -
  have st: "snd (over_engines act st) = st \<lparr> ks_engines := snd (each_engine act (ks_engines st)) \<rparr>"
    by (simp add: over_engines_def split: prod.split)
  show ?thesis
    using each_engine_lookup [of act "ks_engines st" t] assms
    by (cases "map_of (ks_engines st) t") (auto simp: st stored_rows_def split: sum.split)
qed

lemma append_tiers_bound:
  assumes "\<And>eng logs. rows (snd (act eng logs)) \<subseteq># rows eng + mset logs"
  shows "stored_rows ops rows (snd (append_tiers ops act bs st)) t
    \<subseteq># stored_rows ops rows st t + (\<Sum>p\<leftarrow>bs. if fst p = t then mset (snd p) else {#})"
proof (induction bs arbitrary: st)
  case (Cons b rest)
  obtain tier logs where b: "b = (tier, logs)" by fastforce
  obtain r st1 where r: "on_tier ops (\<lambda>eng. act eng logs) st tier = (r, st1)" by fastforce
  let ?rest = "\<Sum>p\<leftarrow>rest. if fst p = t then mset (snd p) else {#}"
  have "stored_rows ops rows st1 t \<subseteq># stored_rows ops rows st t + (if tier = t then mset logs else {#})"
    using on_tier_rel [of "\<lambda>M M'. M' \<subseteq># M + mset logs" rows "\<lambda>eng. act eng logs" ops st tier] assms
      on_tier_other [of t tier ops rows "\<lambda>eng. act eng logs" st] by (auto simp: r)
  then have "stored_rows ops rows st1 t + ?rest
      \<subseteq># stored_rows ops rows st t + (if tier = t then mset logs else {#}) + ?rest"
    by (rule subset_mset.add_right_mono)
  moreover have "stored_rows ops rows (snd (append_tiers ops act (b # rest) st)) t \<subseteq># stored_rows ops rows st1 t + ?rest"
    using Cons.IH [of st1] by (cases r) (simp_all add: b r)
  ultimately show ?case by (auto simp: b ac_simps intro: subset_mset.order_trans)
qed simp

lemma append_batch_bound:
  assumes "engine_spec rows ops" and "\<forall>m. mset (ord m) = mset m"
  shows "stored_rows ops rows (snd (append_batch_durable ops ext ord st events)) t
    \<subseteq># stored_rows ops rows st t + event_rows ext events t"
proof (cases "events = []")
  case False
  have "(\<Sum>p\<leftarrow>ord (rows_by_tier ext events). if fst p = t then mset (snd p) else {#}) = event_rows ext events t"
    using assms(2) by (simp only: sum_list_permute [of "ord (rows_by_tier ext events)" "rows_by_tier ext events"]
        rows_by_tier_sum event_rows_def)
  with append_tiers_bound [of rows "eng_append_batch_durable ops" ops "ord (rows_by_tier ext events)" st t] assms(1) False
  show ?thesis by (simp add: store_after engine_spec_def)
qed (simp add: store_after)

lemma append_batch_exact:
  assumes "engine_spec rows ops" and "\<forall>m. mset (ord m) = mset m"
    and "append_batch_durable ops ext ord st events = (Inr ids, st')"
  shows "stored_rows ops rows st' t = stored_rows ops rows st t + event_rows ext events t"
proof (cases "events = []")
  case False
  then have "append_tiers ops (eng_append_batch_durable ops) (ord (rows_by_tier ext events)) st = (Inr (), st')"
    using assms(3) by (auto simp: append_batch_durable_def split: prod.splits sum.splits)
  from append_tiers_batch [OF _ _ this] assms(1,2) show ?thesis by (simp add: engine_spec_def event_rows_def)
qed (use assms(3) in \<open>simp add: append_batch_durable_def event_rows_def\<close>)

lemma delete_events_takes:
  assumes "engine_spec rows ops"
  shows "takes_only (\<lambda>r. le_id r \<in> event_id_fmt (ulid_to_string ext) ` set ids) (stored_rows ops rows st t)
    (stored_rows ops rows (snd (delete_events_by_ids ops ext st ids)) t)"
proof -
  have "takes_only (\<lambda>r. le_id r \<in> event_id_fmt (ulid_to_string ext) ` set ids) (rows eng)
      (rows (snd (eng_delete_events ops eng (map (event_id_fmt (ulid_to_string ext)) ids))))" for eng
    using engine_spec_takes(2) [OF assms, of "map (event_id_fmt (ulid_to_string ext)) ids" eng] by simp
  then have "takes_only (\<lambda>r. le_id r \<in> event_id_fmt (ulid_to_string ext) ` set ids) (stored_rows ops rows st t)
      (stored_rows ops rows (snd (over_engines (\<lambda>eng. eng_delete_events ops eng (map (event_id_fmt (ulid_to_string ext)) ids)) st)) t)"
    by (rule over_engines_rel) simp
  then show ?thesis by (simp add: store_after)
qed

lemma delete_event_takes:
  assumes "engine_spec rows ops"
  shows "takes_only (\<lambda>r. le_id r \<in> event_id_fmt (ulid_to_string ext) ` set [i]) (stored_rows ops rows st t)
    (stored_rows ops rows (snd (delete_event ops ext st i)) t)"
proof -
  have "takes_only (\<lambda>r. le_id r = s) (rows eng) (rows (snd (delete_if_present ops s eng)))" for eng s
  proof -
    have "takes_only (\<lambda>r. le_id r = s) (rows eng) (rows (snd (eng_delete_event ops eng s)))"
      by (rule engine_spec_takes(3) [OF assms])
    then show ?thesis by (auto simp: delete_if_present_def split: sum.split option.split prod.split)
  qed
  then have "takes_only (\<lambda>r. le_id r = event_id_fmt (ulid_to_string ext) i) (stored_rows ops rows st t)
      (stored_rows ops rows (snd (over_engines (delete_if_present ops (event_id_fmt (ulid_to_string ext) i)) st)) t)"
    by (rule over_engines_rel) simp
  then show ?thesis by (simp add: store_after)
qed

section \<open>Refinement\<close>

text \<open>One step of the store is one step of the log.\<close>

lemma log_of_store:
  "ks_manifests st = ks_manifests (ar_store ar) \<Longrightarrow>
   log_of ops oo ac ext rows (ar \<lparr> ar_store := st \<rparr>) =
     (log_of ops oo ac ext rows ar) \<lparr> log_rows := stored_rows ops rows st \<rparr>"
  by (simp add: log_of_def readable_store)

lemma log_of_sel [simp]:
  "log_rows (log_of ops oo ac ext rows ar) = stored_rows ops rows (ar_store ar)"
  "log_archived (log_of ops oo ac ext rows ar) = readable_ids oo ac ext ar"
  by (simp_all add: log_of_def)

lemma life_step_refines:
  assumes laws: "object_law oo" "codec_law ac" "engine_spec rows ops"
    and "life_step ops oo ac ext rj bound ar l ar'"
  shows "log_step ext (log_of ops oo ac ext rows ar) l (log_of ops oo ac ext rows ar')"
  using assms(4)
proof cases
  case (append ord events res st)
  have st: "st = snd (append_batch_durable ops ext ord (ar_store ar) events)" by (simp add: append)
  have log: "log_of ops oo ac ext rows ar' = (log_of ops oo ac ext rows ar) \<lparr> log_rows := stored_rows ops rows st \<rparr>"
    unfolding append(2) by (rule log_of_store) (simp add: st store_after)
  show ?thesis
  proof (cases res)
    case (Inr ids)
    from append_batch_exact [OF laws(3) append(3) append(4) [unfolded Inr]]
    have "stored_rows ops rows st = (\<lambda>t. stored_rows ops rows (ar_store ar) t + event_rows ext events t)" by auto
    then show ?thesis
      using log_step.append_all [of ext "log_of ops oo ac ext rows ar" events] by (simp add: append(1) log Inr)
  next
    case (Inl e)
    have "stored_rows ops rows (ar_store ar) t \<subseteq># stored_rows ops rows st t" for t
      using append_tiers_grows [of rows "eng_append_batch_durable ops" ops] laws(3)
      by (simp add: st store_after engine_spec_def)
    with append_batch_bound [OF laws(3) append(3), of ext "ar_store ar" events]
    show ?thesis by (auto simp: append(1) log Inl st intro!: log_step.append_part)
  qed
next
  case (expire tier cutoff res st)
  have st: "st = snd (on_tier ops (\<lambda>eng. eng_gc ops eng cutoff) (ar_store ar) tier)"
    using store_after(1) [of ops "ar_store ar" tier cutoff] by (simp add: expire(3))
  have "stored_rows ops rows st = (stored_rows ops rows (ar_store ar))(tier := stored_rows ops rows st tier)"
    by (auto simp: st on_tier_other)
  moreover have "takes_only (\<lambda>r. le_ts_ns r < cutoff) (stored_rows ops rows (ar_store ar) tier) (stored_rows ops rows st tier)"
    unfolding st by (rule on_tier_rel) (simp_all add: engine_spec_takes(1) [OF laws(3)])
  moreover have "log_of ops oo ac ext rows ar' = (log_of ops oo ac ext rows ar) \<lparr> log_rows := stored_rows ops rows st \<rparr>"
    unfolding expire(2) by (rule log_of_store) (simp add: st)
  ultimately show ?thesis
    using log_step.expire [of cutoff "log_of ops oo ac ext rows ar" tier "stored_rows ops rows st tier" ext]
    by (simp add: expire(1))
next
  case (expire_all cutoff res st)
  have st: "st = snd (over_engines (\<lambda>eng. eng_gc ops eng cutoff) (ar_store ar))"
    using store_after(2) [of ops "ar_store ar" cutoff] by (simp add: expire_all(3))
  have "takes_only (\<lambda>r. le_ts_ns r < cutoff) (stored_rows ops rows (ar_store ar) t) (stored_rows ops rows st t)" for t
    unfolding st by (rule over_engines_rel) (simp_all add: engine_spec_takes(1) [OF laws(3)])
  then show ?thesis
    unfolding expire_all(1,2) by (subst log_of_store) (auto simp: st intro!: log_step.expire_all)
next
  case (delete_one i res st)
  have st: "st = snd (delete_event ops ext (ar_store ar) i)" by (simp add: delete_one)
  show ?thesis
    unfolding delete_one(1,2)
    by (subst log_of_store) (use delete_event_takes [OF laws(3), of ext i "ar_store ar"] in
      \<open>auto simp: st store_after(3) intro!: log_step.delete\<close>)
next
  case (delete_many ids res st)
  have st: "st = snd (delete_events_by_ids ops ext (ar_store ar) ids)" by (simp add: delete_many)
  have "ks_manifests st = ks_manifests (ar_store ar)" by (simp add: st store_after)
  then show ?thesis
    unfolding delete_many(1,2)
    by (subst log_of_store) (use delete_events_takes [OF laws(3), of ext ids "ar_store ar"] in
      \<open>auto simp: st intro!: log_step.delete\<close>)
next
  case (archive chunk user day env n acc n' acc')
  obtain ar1 ids where rows1: "\<And>t. stored_rows ops rows (ar_store ar1) t = stored_rows ops rows (ar_store ar) t"
    and kept: "readable_ids oo ac ext ar \<subseteq> readable_ids oo ac ext ar1"
    and ids: "event_id_fmt (ulid_to_string ext) ` set ids \<subseteq> readable_ids oo ac ext ar1"
    and ar': "ar' = ar1 \<lparr> ar_store := snd (delete_events_by_ids ops ext (ar_store ar1) ids) \<rparr>"
    by (rule archive_step_shape [OF laws(1,2) archive(2-5), where rows = rows]) blast
  have same: "readable_ids oo ac ext ar' = readable_ids oo ac ext ar1"
    unfolding ar' by (rule readable_store) (simp add: store_after)
  have "takes_only (\<lambda>r. le_id r \<in> readable_ids oo ac ext ar1) (stored_rows ops rows (ar_store ar) t)
      (stored_rows ops rows (ar_store ar') t)" for t
    using takes_only_mono [OF delete_events_takes [OF laws(3), of ext ids "ar_store ar1" t],
        of "\<lambda>r. le_id r \<in> readable_ids oo ac ext ar1"] ids by (auto simp: ar' rows1)
  with kept show ?thesis
    using log_step.archive [of "log_of ops oo ac ext rows ar" "readable_ids oo ac ext ar1"
        "stored_rows ops rows (ar_store ar')" ext] by (simp add: archive(1) log_of_def [of _ _ _ _ _ ar'] same)
next
  case (checkpoint res st)
  have st: "st = snd (wal_checkpoint ops (ar_store ar))" by (simp add: checkpoint)
  have "stored_rows ops rows st = stored_rows ops rows (ar_store ar)"
    unfolding st by (rule ext, rule wal_checkpoint_rows) (use laws(3) in \<open>simp add: engine_spec_def\<close>)
  then show ?thesis
    unfolding checkpoint(1,2) by (subst log_of_store) (simp_all add: st store_after(5) log_of_def log_step.maintain)
next
  case (measure now lock_free res st)
  have st: "st = snd (db_size_bytes ops now lock_free (ar_store ar))" by (simp add: measure)
  have "stored_rows ops rows st = stored_rows ops rows (ar_store ar)"
    by (rule ext, rule stored_rows_cong) (simp_all add: st db_size_frame)
  then show ?thesis
    unfolding measure(1,2) by (subst log_of_store) (simp_all add: st db_size_frame log_of_def log_step.maintain)
qed

text \<open>The steps of a store whose engine, objects and codec keep their laws.\<close>

definition lawful_step :: "'g engine_ops \<Rightarrow> 'o object_ops \<Rightarrow> archive_codec \<Rightarrow> externals \<Rightarrow> record_json \<Rightarrow> nat \<Rightarrow>
    ('g \<Rightarrow> log_event multiset) \<Rightarrow> ('g, 'o) archiver \<Rightarrow> life_event \<Rightarrow> ('g, 'o) archiver \<Rightarrow> bool" where
  "lawful_step ops oo ac ext rj bound rows ar l ar' \<longleftrightarrow>
     object_law oo \<and> codec_law ac \<and> engine_spec rows ops \<and> life_step ops oo ac ext rj bound ar l ar'"

interpretation store_log: simulation "lawful_step ops oo ac ext rj bound rows" "log_step ext" "log_of ops oo ac ext rows"
  for ops oo ac ext rj bound rows
  by unfold_locales (auto simp: lawful_step_def intro: life_step_refines)

lemma life_run_refines:
  assumes "object_law oo" and "codec_law ac" and "engine_spec rows ops" and "life_run ops oo ac ext rj bound ar0 ls ar"
  shows "log_run ext (log_of ops oo ac ext rows ar0) ls (log_of ops oo ac ext rows ar)"
proof -
  have "lawful_step ops oo ac ext rj bound rows = life_step ops oo ac ext rj bound"
    using assms(1-3) by (intro ext) (simp add: lawful_step_def)
  with assms(4) store_log.run_sim [of ops oo ac ext rj bound rows ar0 ls ar] show ?thesis by simp
qed


section \<open>What the log promises\<close>

text \<open>The rows that the appends of a history were given.\<close>

definition written_rows :: "externals \<Rightarrow> life_event list \<Rightarrow> str \<Rightarrow> log_event multiset" where
  "written_rows ext ls t = (\<Sum>l\<leftarrow>ls. case l of Wrote events _ \<Rightarrow> event_rows ext events t | _ \<Rightarrow> {#})"

lemma log_step_bound:
  assumes "log_step ext L l L'"
  shows "log_rows L' t \<subseteq># log_rows L t + (case l of Wrote events _ \<Rightarrow> event_rows ext events t | _ \<Rightarrow> {#})"
  using assms by cases (auto simp: takes_only_def)

lemma log_run_bound:
  assumes "log_run ext L0 ls L"
  shows "log_rows L t \<subseteq># log_rows L0 t + written_rows ext ls t"
  using assms
proof (induction rule: steps.induct)
  case (step ls L l L')
  let ?new = "case l of Wrote events _ \<Rightarrow> event_rows ext events t | _ \<Rightarrow> {#}"
  have "log_rows L t + ?new \<subseteq># log_rows L0 t + written_rows ext ls t + ?new"
    using step.IH by (rule subset_mset.add_right_mono)
  with log_step_bound [OF step.hyps(2), of t] show ?case
    by (auto simp: written_rows_def ac_simps intro: subset_mset.order_trans)
qed (simp add: written_rows_def)

text \<open>
  C9: no row comes from nowhere and none is doubled. After any run, whichever steps failed,
  a tier holds no row more often than it held it at the start and its appends were given it:
  collections, deletions, archiving, checkpoints and failed appends never add, copy or move a
  row between tiers.
\<close>

theorem no_row_from_nowhere:
  assumes laws: "object_law oo" "codec_law ac" "engine_spec rows ops"
    and run: "life_run ops oo ac ext rj bound ar0 ls ar"
  shows "stored_rows ops rows (ar_store ar) t \<subseteq># stored_rows ops rows (ar_store ar0) t + written_rows ext ls t"
  using log_run_bound [OF life_run_refines [OF assms], of t] by simp

section \<open>Example\<close>

lemma list_engine_spec: "engine_spec mset list_engine"
proof -
  have "takes_only P (mset xs) (mset (filter (\<lambda>r. \<not> P r) xs))" for P and xs :: "log_event list"
    by (simp add: takes_only_def filter_filter_mset)
  note take = this [of "\<lambda>r. le_ts_ns r < _"] this [of "\<lambda>r. le_id r \<in> set _"] this [of "\<lambda>r. le_id r = _"]
  show ?thesis
    unfolding engine_spec_def using take list_engine_laws(1) by (simp add: list_engine_def)
qed


theorem no_row_from_nowhere_witness:
  "\<exists>st. stored_rows list_engine mset st ''free'' \<subseteq># {#to_log_event sample_ext sample_event#} \<and>
     stored_rows list_engine mset st ''pro'' = {#}"
proof -
  obtain st where run: "life_run list_engine map_objects one_event_codec sample_ext sample_rj 3
      \<lparr> ar_store = empty_store, ar_client = [], ar_prefix = ''events'' \<rparr> [Wrote [sample_event] True, Expired ''pro'' 5]
      \<lparr> ar_store = st, ar_client = [], ar_prefix = ''events'' \<rparr>" using sample_life_run by blast
  have empty: "stored_rows list_engine mset empty_store t = {#}" for t
    by (simp add: stored_rows_def empty_store_def open_engine_def list_engine_def split: sum.split)
  have written: "written_rows sample_ext [Wrote [sample_event] True, Expired ''pro'' 5] t =
      (if t = ''free'' then {#to_log_event sample_ext sample_event#} else {#})" for t
    by (auto simp: written_rows_def event_rows_def sample_event_def)
  note bound = no_row_from_nowhere [OF map_objects_law one_event_codec_law list_engine_spec run, unfolded archiver.simps empty written]
  show ?thesis using bound [of "''free''"] bound [of "''pro''"] by auto
qed

end
