(* ===== verification/Metrics.thy ===== *)
theory Metrics
  imports Server
begin

text \<open>
  What the server reports about itself: the metric names of \<open>crates/keplor-server/src/metrics.rs\<close>
  and the counters, gauges and samples that the pipeline, the key check, the batch writer and
  the statistics task emit. The recorder (\<open>metrics-exporter-prometheus\<close>) is a library; here an
  operation gives the list of what it emits.
\<close>

section \<open>Names\<close>

definition INGEST_LATENCY_SECONDS :: str where "INGEST_LATENCY_SECONDS = ''keplor_ingest_latency_seconds''"

definition BATCH_QUEUE_DEPTH :: str where "BATCH_QUEUE_DEPTH = ''keplor_batch_queue_depth''"

definition BATCH_QUEUE_CAPACITY :: str where "BATCH_QUEUE_CAPACITY = ''keplor_batch_queue_capacity''"

definition LABEL_TIER :: str where "LABEL_TIER = ''tier''"

definition LABEL_PROVIDER :: str where "LABEL_PROVIDER = ''provider''"

definition LABEL_STAGE :: str where "LABEL_STAGE = ''stage''"

definition LABEL_ERROR_TYPE :: str where "LABEL_ERROR_TYPE = ''error_type''"

text \<open>A counter with its labels and increment, a gauge with its value, a sample of a histogram.\<close>

datatype metric =
    Counter (metric_name: str) (metric_labels: "(str \<times> str) list") nat
  | Gauge (metric_name: str) (metric_labels: "(str \<times> str) list") f64
  | Sample (metric_name: str) (metric_labels: "(str \<times> str) list") f64

section \<open>The pipeline\<close>

definition record_error_kind :: "str \<Rightarrow> str \<Rightarrow> metric" where
  "record_error_kind stage error_type =
     Counter ''keplor_events_errors_total'' [(LABEL_STAGE, stage), (LABEL_ERROR_TYPE, error_type)] 1"

definition record_error :: "str \<Rightarrow> server_error \<Rightarrow> metric" where
  "record_error stage err = record_error_kind stage (error_type_label err)"

definition update_queue_metrics :: "'g batch_writer \<Rightarrow> metric list" where
  "update_queue_metrics bw =
     [Gauge BATCH_QUEUE_DEPTH [] (f64_of_int (int (queue_depth bw))),
      Gauge BATCH_QUEUE_CAPACITY [] (f64_of_int (int (max_capacity bw)))]"

definition emit_metrics :: "provider \<Rightarrow> metric" where
  "emit_metrics provider = Counter ''keplor_events_ingested_total'' [(''provider'', id_key provider)] 1"

definition process_event_metrics :: "('g, 'c) pipe_env \<Rightarrow> pipe_call \<Rightarrow> ingest_event \<Rightarrow> str option \<Rightarrow> metric list" where
  "process_event_metrics env call event authenticated_key_id =
     (let event = (case authenticated_key_id of
            Some k \<Rightarrow> event \<lparr> in_api_key_id := Some k \<rparr> | None \<Rightarrow> event) in
      case validate (pe_ext env) (pc_validate_now call) event of Inl e \<Rightarrow> [record_error ''validation'' e] | Inr _ \<Rightarrow> [])"

definition latency_sample :: "str \<Rightarrow> provider \<Rightarrow> f64 \<Rightarrow> metric" where
  "latency_sample tier provider secs =
     Sample INGEST_LATENCY_SECONDS [(LABEL_TIER, tier), (LABEL_PROVIDER, id_key provider)] secs"

text \<open>One durable ingest, given how its write ended and how long it took.\<close>

definition ingest_metrics :: "('g, 'c) pipe_env \<Rightarrow> pipe_call \<Rightarrow> ('g, 'c) pipeline \<Rightarrow> ingest_event \<Rightarrow> str option \<Rightarrow>
    str option \<Rightarrow> str \<Rightarrow> (store_error + event_id) wait \<Rightarrow> f64 \<Rightarrow> metric list" where
  "ingest_metrics env call p event authenticated_key_id idempotency_key tier w secs =
     (case idem_lookup env call p idempotency_key of
        (Some _, _) \<Rightarrow> []
      | (None, p) \<Rightarrow>
          (case check_db_size env call p of
             (Inl e, _) \<Rightarrow> [record_error ''storage_full'' e]
           | (Inr _, p) \<Rightarrow>
               process_event_metrics env call event authenticated_key_id @
               (case process_event env call p event authenticated_key_id tier of
                  Ret (Inr (_, provider, _, _)) \<Rightarrow>
                    update_queue_metrics (pl_writer p) @
                    (case w of
                       TimedOut \<Rightarrow> []
                     | Answered (Inl e) \<Rightarrow> [record_error ''store'' (StoreErr e)]
                     | Answered (Inr _) \<Rightarrow>
                         [Sample ''keplor_ingest_duration_seconds'' [] secs, latency_sample tier provider secs,
                          emit_metrics provider])
                | _ \<Rightarrow> [])))"

text \<open>One event of a durable batch while its events are prepared, and when the results come back.\<close>

definition batch_prepare_metrics :: "('g, 'c) pipe_env \<Rightarrow> pipe_call \<Rightarrow> ('g, 'c) pipeline \<Rightarrow> ingest_event \<Rightarrow> str option \<Rightarrow>
    str \<Rightarrow> metric list" where
  "batch_prepare_metrics env call p event authenticated_key_id tier =
     process_event_metrics env call event authenticated_key_id @
     (case process_event env call p event authenticated_key_id tier of
        Ret (Inl e) \<Rightarrow> [record_error ''validation'' e] | _ \<Rightarrow> [])"

definition batch_result_metrics :: "str \<Rightarrow> f64 \<Rightarrow> provider \<Rightarrow> store_error + event_id \<Rightarrow> metric list" where
  "batch_result_metrics tier secs provider res =
     (case res of
        Inr _ \<Rightarrow> [latency_sample tier provider secs, emit_metrics provider]
      | Inl e \<Rightarrow> [record_error ''store'' (StoreErr e)])"

definition fire_and_forget_metrics :: "('g, 'c) pipe_env \<Rightarrow> pipe_call \<Rightarrow> ('g, 'c) pipeline \<Rightarrow> ingest_event \<Rightarrow> str option \<Rightarrow>
    str \<Rightarrow> metric list" where
  "fire_and_forget_metrics env call p event authenticated_key_id tier =
     (case check_db_size env call p of
        (Inl e, _) \<Rightarrow> [record_error ''storage_full'' e]
      | (Inr _, p) \<Rightarrow>
          process_event_metrics env call event authenticated_key_id @
          (case process_event env call p event authenticated_key_id tier of
             Ret (Inr (llm_event, provider, _, _)) \<Rightarrow>
               update_queue_metrics (pl_writer p) @
               (case fst (write_fire_and_forget (pl_writer p) llm_event) of
                  Inl _ \<Rightarrow> [record_error_kind ''queue_full'' ''channel_full'']
                | Inr _ \<Rightarrow> [emit_metrics provider])
           | _ \<Rightarrow> []))"

section \<open>Keys, flushes, engines\<close>

definition auth_metrics :: "(str \<Rightarrow> str \<Rightarrow> bool) \<Rightarrow> api_key_set \<Rightarrow> str option \<Rightarrow> metric list" where
  "auth_metrics ct_eq s header =
     (if is_open s then []
      else
        (let h = (case header of Some h \<Rightarrow> h | None \<Rightarrow> []);
             token = (case strip_prefix h ''Bearer '' of Some t \<Rightarrow> t | None \<Rightarrow> [])
         in if token = [] then [Counter ''keplor_auth_failures_total'' [(''reason'', ''missing'')] 1]
            else case matched_key ct_eq s token of
              Some _ \<Rightarrow> [Counter ''keplor_auth_successes_total'' [] 1]
            | None \<Rightarrow> [Counter ''keplor_auth_failures_total'' [(''reason'', ''invalid'')] 1]))"

fun flush_metrics :: "batch_event \<Rightarrow> metric list" where
  "flush_metrics (Flushed rs) = [Counter ''keplor_batch_flushes_total'' [] 1,
     Counter ''keplor_batch_events_flushed_total'' [] (length rs)]"
| "flush_metrics (FlushFailed rs) = [Counter ''keplor_batch_flush_errors_total'' [] 1]"
| "flush_metrics _ = []"

definition engine_stats_tick :: "'g engine_ops \<Rightarrow> 'g kdb_store \<Rightarrow> metric list" where
  "engine_stats_tick ops st =
     concat (map (\<lambda>s.
       [Gauge ''keplor_segments_total'' [(''tier'', ts_tier s)] (f64_of_int (int (ts_segment_count s))),
        Gauge ''keplor_wal_events'' [(''tier'', ts_tier s)] (f64_of_int (int (unat (ts_wal_events s)))),
        Gauge ''keplor_storage_events'' [(''tier'', ts_tier s)] (f64_of_int (int (ts_total_events s))),
        Gauge ''keplor_storage_bytes'' [(''tier'', ts_tier s)] (f64_of_int (int (ts_total_bytes s)))])
       (engine_stats ops st))"

section \<open>Collections, archives, reloads\<close>

definition gc_counters :: "str \<Rightarrow> u64 \<times> u64 \<Rightarrow> metric list" where
  "gc_counters tier = (\<lambda>(segments_deleted, bytes_freed).
     (if 0 < segments_deleted then [Counter ''keplor_gc_segments_deleted_total'' [(''tier'', tier)] segments_deleted] else []) @
     (if 0 < bytes_freed then [Counter ''keplor_gc_bytes_freed_total'' [(''tier'', tier)] bytes_freed] else []))"

definition gc_tier_metrics :: "'g engine_ops \<Rightarrow> 'g kdb_store \<Rightarrow> str \<Rightarrow> i64 \<Rightarrow> metric list" where
  "gc_tier_metrics ops st tier older_than_ns =
     (case fst (on_tier ops (\<lambda>eng. eng_gc ops eng older_than_ns) st tier) of
        Inl _ \<Rightarrow> [] | Inr s \<Rightarrow> gc_counters tier s)"

definition archive_step_metrics :: "'g engine_ops \<Rightarrow> 'o object_ops \<Rightarrow> archive_codec \<Rightarrow> externals \<Rightarrow> record_json \<Rightarrow>
    chunk_env \<Rightarrow> str \<Rightarrow> str \<Rightarrow> llm_event list \<Rightarrow> ('g, 'o) archiver \<Rightarrow> metric list" where
  "archive_step_metrics ops oo ac ext rj env user_key day chunk ar =
     (case archive_chunk oo ac ext rj env ar chunk user_key day of
        (Inr (compressed, ids), ar) \<Rightarrow>
          (case fst (delete_events_by_ids ops ext (ar_store ar) ids) of
             Inl _ \<Rightarrow> []
           | Inr _ \<Rightarrow> [Counter ''keplor_archive_chunks_total'' [(''status'', ''success'')] 1,
               Counter ''keplor_archive_bytes_uploaded_total'' [] compressed])
      | (Inl _, _) \<Rightarrow> [Counter ''keplor_archive_chunks_total'' [(''status'', ''fail'')] 1])"

definition sighup_metrics :: "str + server_config \<Rightarrow> metric" where
  "sighup_metrics loaded = Counter ''keplor_sighup_reloads_total''
     [(''outcome'', case loaded of Inr _ \<Rightarrow> ''success'' | Inl _ \<Rightarrow> ''fail'')] 1"

definition refresh_metrics :: "pricing_error + catalog \<Rightarrow> metric" where
  "refresh_metrics fetched = Counter ''keplor_pricing_catalog_refresh_total''
     [(''result'', case fetched of Inr _ \<Rightarrow> ''ok'' | Inl _ \<Rightarrow> ''error'')] 1"

text \<open>The time of the last refresh is kept, and the age of the catalogue reported every minute.\<close>

definition last_refresh :: "pricing_error + catalog \<Rightarrow> i64 \<Rightarrow> i64 \<Rightarrow> i64" where
  "last_refresh fetched now_ns last_ns = (case fetched of Inr _ \<Rightarrow> now_ns | Inl _ \<Rightarrow> last_ns)"

definition catalog_age_tick :: "i64 \<Rightarrow> i64 \<Rightarrow> metric" where
  "catalog_age_tick last_ns now_ns =
     Gauge ''keplor_pricing_catalog_age_seconds'' [] (f64_of_int (sat_i64 (now_ns - last_ns) sdiv 1000000000))"

section \<open>What is counted\<close>

text \<open>
  The archive counters agree with the result the cycle reports: a chunk adds a success and its
  compressed size exactly when it adds an uploaded file, and a failure exactly when it
  adds failed events.
\<close>

definition total_of :: "str \<Rightarrow> (str \<times> str) list \<Rightarrow> metric list \<Rightarrow> nat" where
  "total_of name labels ms = sum_list (List.map_filter (\<lambda>m. case m of
     Counter n ls k \<Rightarrow> if n = name \<and> ls = labels then Some k else None | _ \<Rightarrow> None) ms)"

lemma archive_counters_agree:
  assumes "archive_step ops oo ac ext rj env user_key day chunk (ar, n, res1) = (ar', n', res2)"
  defines "ms \<equiv> archive_step_metrics ops oo ac ext rj (env n) user_key day chunk ar"
  shows "files_uploaded res2 = files_uploaded res1 + total_of ''keplor_archive_chunks_total'' [(''status'', ''success'')] ms"
    and "compressed_bytes res2 = compressed_bytes res1 + total_of ''keplor_archive_bytes_uploaded_total'' [] ms"
    and "events_failed res2 = events_failed res1 +
      length chunk * total_of ''keplor_archive_chunks_total'' [(''status'', ''fail'')] ms"
  using assms(1)
  by (auto simp: ms_def archive_step_def archive_step_metrics_def total_of_def List.map_filter_simps
      split: prod.splits sum.splits)


definition errors_counted :: "metric list \<Rightarrow> nat" where
  "errors_counted ms = length (filter (\<lambda>m. metric_name m = ''keplor_events_errors_total'') ms)"

definition ingests_counted :: "metric list \<Rightarrow> nat" where
  "ingests_counted ms = length (filter (\<lambda>m. metric_name m = ''keplor_events_ingested_total'') ms)"

lemmas metric_defs = record_error_def record_error_kind_def emit_metrics_def latency_sample_def update_queue_metrics_def
  INGEST_LATENCY_SECONDS_def BATCH_QUEUE_DEPTH_def BATCH_QUEUE_CAPACITY_def errors_counted_def ingests_counted_def

lemma validated_when_processed:
  assumes "process_event env call p event key tier = Ret (Inr q)"
  shows "process_event_metrics env call event key = []"
  using assms by (auto simp: process_event_def process_event_metrics_def Let_def split: sum.splits option.splits)

text \<open>
  A rejected event of a durable batch is counted twice: once where it is validated and once more
  where the batch collects it.
\<close>

lemma batch_rejection_counted_twice:
  assumes "validate (pe_ext env) (pc_validate_now call) event = Inl e"
  shows "errors_counted (batch_prepare_metrics env call p event None tier) = 2"
  using assms by (simp add: batch_prepare_metrics_def process_event_metrics_def process_event_def metric_defs)

text \<open>A write that times out is counted neither as ingested nor as an error.\<close>

lemma timeout_not_counted:
  assumes "process_event env call p event key tier = Ret (Inr q)" and "idem_lookup env call p idem = (None, p)"
    and "check_db_size env call p = (Inr (), p)"
  shows "errors_counted (ingest_metrics env call p event key idem tier TimedOut secs) = 0 \<and>
    ingests_counted (ingest_metrics env call p event key idem tier TimedOut secs) = 0"
  using assms validated_when_processed [OF assms(1)]
  by (cases q) (simp add: ingest_metrics_def metric_defs)

text \<open>
  The counters agree with the answers of a durable ingest. One that was answered with a
  response from a write counts one ingested event, under the provider of the response, and no
  error; one that the store refused counts one error of type \<open>store\<close>; and an event that fails its
  validation counts one error under its own type.
\<close>

lemma ingest_counted_once:
  assumes "idem_lookup env call p idem = (None, p)" and "check_db_size env call p = (Inr (), p)"
  shows "process_event env call p event key tier = Ret (Inr (l, provider, model, cost)) \<Longrightarrow>
      filter is_Counter
        (ingest_metrics env call p event key idem tier (Answered res) secs) =
      (case res of Inr _ \<Rightarrow> [emit_metrics provider] | Inl e \<Rightarrow> [record_error ''store'' (StoreErr e)])"
    and "validate (pe_ext env) (pc_validate_now call) (case key of Some k \<Rightarrow> event \<lparr> in_api_key_id := Some k \<rparr> | None \<Rightarrow> event) =
        Inl e \<Longrightarrow>
      ingest_metrics env call p event key idem tier w secs = [record_error ''validation'' e]"
proof -
  assume "process_event env call p event key tier = Ret (Inr (l, provider, model, cost))"
  with assms validated_when_processed [OF this]
  show "filter is_Counter
        (ingest_metrics env call p event key idem tier (Answered res) secs) =
      (case res of Inr _ \<Rightarrow> [emit_metrics provider] | Inl e \<Rightarrow> [record_error ''store'' (StoreErr e)])"
    by (auto simp: ingest_metrics_def metric_defs split: sum.split)
next
  assume "validate (pe_ext env) (pc_validate_now call)
    (case key of Some k \<Rightarrow> event \<lparr> in_api_key_id := Some k \<rparr> | None \<Rightarrow> event) = Inl e"
  with assms show "ingest_metrics env call p event key idem tier w secs = [record_error ''validation'' e]"
    by (simp add: ingest_metrics_def process_event_metrics_def process_event_def Let_def)
qed

end
