(* ===== verification/Xtask.thy ===== *)
theory Xtask
  imports Cli
begin

text \<open>
  The project automation: \<open>xtask/src/main.rs\<close> and \<open>xtask/src/loadtest.rs\<close>. The argument parser of
  the load test, its pacing and its report, the gate on a baseline, and the rewriting of the
  catalogue constants are modelled; what external programs (\<open>curl\<close>, \<open>cargo\<close>, \<open>date\<close>), the HTTP
  client, the file system and the histogram return are arguments, the memory audit's too.
\<close>

section \<open>Numbers and durations\<close>

text \<open>\<open>str::parse\<close> of an unsigned 64-bit number.\<close>

definition parse_u64 :: "str \<Rightarrow> u64 option" where
  "parse_u64 s =
     (let d = (case strip_prefix s ''+'' of Some t \<Rightarrow> t | None \<Rightarrow> s)
      in if d \<noteq> [] \<and> list_all is_ascii_digit d \<and> digits_value d < 2 ^ 64 then Some (digits_value d) else None)"

definition strip_suffix :: "str \<Rightarrow> str \<Rightarrow> str option" where
  "strip_suffix s p = (if length p \<le> length s \<and> ends_with s p then Some (take (length s - length p) s) else None)"

definition from_millis :: "u64 \<Rightarrow> nat" where
  "from_millis n = n * 1000000"

definition parse_or :: "str \<Rightarrow> str \<Rightarrow> str + u64" where
  "parse_or context s = (case parse_u64 s of Some n \<Rightarrow> Inr n | None \<Rightarrow> Inl context)"

definition parse_duration :: "str \<Rightarrow> str + nat" where
  "parse_duration s =
     (case strip_suffix s ''ms'' of
        Some num \<Rightarrow> res_bind (parse_or ''invalid --duration ms'' num) (\<lambda>n. Inr (from_millis n))
      | None \<Rightarrow>
     (case strip_suffix s ''s'' of
        Some num \<Rightarrow> res_bind (parse_or ''invalid --duration s'' num) (\<lambda>n. Inr (from_secs n))
      | None \<Rightarrow>
     (case strip_suffix s ''m'' of
        Some num \<Rightarrow> res_bind (parse_or ''invalid --duration m'' num) (\<lambda>n. Inr (from_secs (nat (sat_u64 (int n * 60)))))
      | None \<Rightarrow> res_bind (parse_or ''invalid --duration (use Ns / Nm / Nms)'' s) (\<lambda>n. Inr (from_secs n)))))"

section \<open>Arguments of the load test\<close>

record loadtest_args =
  la_rate :: u64
  la_duration :: nat
  la_concurrency :: usize
  la_target :: str
  la_baseline :: "str option"
  la_api_key :: "str option"
  la_durable :: bool

text \<open>The local variables of \<open>parse_args\<close>, and what one key does to them.\<close>

record arg_vars =
  av_rate :: "u64 option"
  av_duration :: "nat option"
  av_concurrency :: usize
  av_target :: str
  av_baseline :: "str option"
  av_api_key :: "str option"
  av_durable :: bool

definition arg_vars_init :: arg_vars where
  "arg_vars_init = \<lparr> av_rate = None, av_duration = None, av_concurrency = 64, av_target = ''http://127.0.0.1:8080'',
     av_baseline = None, av_api_key = None, av_durable = True \<rparr>"

definition required :: "str \<Rightarrow> str option \<Rightarrow> str + str" where
  "required key val = (case val of Some v \<Rightarrow> Inr v | None \<Rightarrow> Inl (key @ '' requires a value''))"

definition set_arg :: "str \<Rightarrow> str option \<Rightarrow> arg_vars \<Rightarrow> str + arg_vars" where
  "set_arg key val vs =
     (if key = ''--rate'' then
        res_bind (required key val) (\<lambda>v. res_bind (parse_or ''invalid --rate'' v) (\<lambda>n. Inr (vs \<lparr> av_rate := Some n \<rparr>)))
      else if key = ''--duration'' then
        res_bind (required key val) (\<lambda>v. res_bind (parse_duration v) (\<lambda>d. Inr (vs \<lparr> av_duration := Some d \<rparr>)))
      else if key = ''--concurrency'' then
        res_bind (required key val) (\<lambda>v. res_bind (parse_or ''invalid --concurrency'' v) (\<lambda>n. Inr (vs \<lparr> av_concurrency := n \<rparr>)))
      else if key = ''--target'' then res_bind (required key val) (\<lambda>v. Inr (vs \<lparr> av_target := v \<rparr>))
      else if key = ''--baseline'' then res_bind (required key val) (\<lambda>v. Inr (vs \<lparr> av_baseline := Some v \<rparr>))
      else if key = ''--api-key'' then res_bind (required key val) (\<lambda>v. Inr (vs \<lparr> av_api_key := Some v \<rparr>))
      else if key = ''--no-durable'' then
        (case val of
           Some v \<Rightarrow> Inl (''--no-durable takes no value (got `'' @ v @ ''`)'')
         | None \<Rightarrow> Inr (vs \<lparr> av_durable := False \<rparr>))
      else Inl (''unknown loadtest arg: '' @ key))"

fun parse_loop :: "str list \<Rightarrow> arg_vars \<Rightarrow> str + arg_vars" where
  "parse_loop [] vs = Inr vs"
| "parse_loop (a # rest) vs =
     (case split_once a (CHR ''='') of
        Some (k, v) \<Rightarrow> res_bind (set_arg k (Some v) vs) (parse_loop rest)
      | None \<Rightarrow>
          (case rest of
             [] \<Rightarrow> set_arg a None vs
           | v # rest \<Rightarrow> res_bind (set_arg a (Some v) vs) (parse_loop rest)))"

definition parse_args :: "str list \<Rightarrow> str + loadtest_args" where
  "parse_args args =
     res_bind (parse_loop args arg_vars_init) (\<lambda>vs.
     case av_rate vs of None \<Rightarrow> Inl ''--rate is required'' | Some rate \<Rightarrow>
     (case av_duration vs of None \<Rightarrow> Inl ''--duration is required'' | Some duration \<Rightarrow>
        Inr \<lparr> la_rate = rate, la_duration = duration, la_concurrency = max (av_concurrency vs) 1,
          la_target = av_target vs, la_baseline = av_baseline vs, la_api_key = av_api_key vs,
          la_durable = av_durable vs \<rparr>))"

section \<open>Workers\<close>

definition per_worker_rate :: "loadtest_args \<Rightarrow> u64" where
  "per_worker_rate a = max (div_ceil (la_rate a) (la_concurrency a)) 1"

definition interval_per_worker :: "loadtest_args \<Rightarrow> nat" where
  "interval_per_worker a = 1000000000 div per_worker_rate a"

fun trim_end_slashes :: "str \<Rightarrow> str" where
  "trim_end_slashes s = (if s \<noteq> [] \<and> last s = CHR ''/'' then trim_end_slashes (butlast s) else s)"

definition loadtest_url :: "loadtest_args \<Rightarrow> str" where
  "loadtest_url a =
     (if la_durable a then trim_end_slashes (la_target a) @ ''/v1/events''
      else trim_end_slashes (la_target a) @ ''/v1/events?durable=false'')"

definition loadtest_payload :: json where
  "loadtest_payload = JObject
     [(''model'', JString ''gpt-4o''), (''provider'', JString ''openai''),
      (''usage'', JObject [(''input_tokens'', JNumber (PosInt 100)), (''output_tokens'', JNumber (PosInt 50))]),
      (''latency'', JObject [(''ttft_ms'', JNumber (PosInt 25)), (''total_ms'', JNumber (PosInt 300))]),
      (''http_status'', JNumber (PosInt 200)), (''user_id'', JString ''loadtest_user''),
      (''endpoint'', JString ''/v1/chat/completions'')]"

text \<open>The header a worker sends, if it has a key.\<close>

definition loadtest_auth :: "loadtest_args \<Rightarrow> str option" where
  "loadtest_auth a = map_option (\<lambda>k. ''Bearer '' @ k) (la_api_key a)"

text \<open>The poller of the health endpoint keeps the largest queue depth it is told.\<close>

definition poll_depth :: "str + (str + json) \<Rightarrow> u64 option" where
  "poll_depth resp =
     (case resp of
        Inr (Inr v) \<Rightarrow> (case json_get v ''queue_depth'' of Some d \<Rightarrow> json_as_u64 d | None \<Rightarrow> None)
      | _ \<Rightarrow> None)"

fun poll_queue :: "u64 \<Rightarrow> (str + (str + json)) list \<Rightarrow> u64" where
  "poll_queue prev [] = prev"
| "poll_queue prev (resp # rest) =
     (case poll_depth resp of
        Some d \<Rightarrow> poll_queue (if prev < d then max prev d else prev) rest
      | None \<Rightarrow> poll_queue prev rest)"

text \<open>
  One worker: the clock at the top of the loop, the time its next request is due at, and for each
  request how long it takes and its HTTP status, if it gets one. Time passes in sleeps and
  requests. The result is the start time of each request with its outcome; a latency in
  microseconds is recorded for a success.
\<close>

fun run_worker :: "nat \<Rightarrow> nat \<Rightarrow> nat \<Rightarrow> nat \<Rightarrow> (nat \<times> u16 option) list \<Rightarrow> (nat \<times> u64 option) list" where
  "run_worker interval deadline now due [] = []"
| "run_worker interval deadline now due ((took, status) # reqs) =
     (if deadline \<le> now then []
      else
        (let started = max now due;
             outcome = (case status of
                Some code \<Rightarrow> if 200 \<le> code \<and> code \<le> 299 then Some (took div 1000) else None
              | None \<Rightarrow> None)
         in (started, outcome) # run_worker interval deadline (started + took) (due + interval) reqs))"

section \<open>Report\<close>

record loadtest_result =
  lr_rate_target :: u64
  lr_rate_achieved :: f64
  lr_duration_secs :: f64
  lr_total_requests :: u64
  lr_success_count :: u64
  lr_error_count :: u64
  lr_p50_us :: u64
  lr_p95_us :: u64
  lr_p99_us :: u64
  lr_p999_us :: u64
  lr_p99_9_us :: u64
  lr_queue_depth_max :: u64

text \<open>\<open>quantile\<close> is the histogram (\<open>hdrhistogram\<close>) at the end of the run, by thousandths.\<close>

definition loadtest_result_of :: "loadtest_args \<Rightarrow> nat \<Rightarrow> (nat \<times> u64 option) list \<Rightarrow> (nat \<Rightarrow> u64) \<Rightarrow> u64 \<Rightarrow> loadtest_result" where
  "loadtest_result_of a elapsed requests quantile queue_max =
     (let total_ok = length (filter (\<lambda>r. snd r \<noteq> None) requests);
          total_err = length (filter (\<lambda>r. snd r = None) requests);
          total = total_ok + total_err
      in \<lparr> lr_rate_target = la_rate a, lr_rate_achieved = f64_div (f64_of_int (int total)) (as_secs_f64 elapsed),
           lr_duration_secs = as_secs_f64 elapsed, lr_total_requests = total, lr_success_count = total_ok,
           lr_error_count = total_err, lr_p50_us = quantile 500, lr_p95_us = quantile 950, lr_p99_us = quantile 990,
           lr_p999_us = quantile 999, lr_p99_9_us = quantile 999, lr_queue_depth_max = queue_max \<rparr>)"

text \<open>What \<open>gate_on_baseline\<close> does: write a first baseline, or compare with the one it reads.\<close>

datatype gate = GateWroteBaseline | GatePassed | GateRegression f64 | GateFailed str

definition gate_on_baseline :: "bool \<Rightarrow> str + unit \<Rightarrow> str + (str + loadtest_result) \<Rightarrow> loadtest_result \<Rightarrow> gate" where
  "gate_on_baseline exists_already written read_back result =
     (if \<not> exists_already then
        (case written of Inl e \<Rightarrow> GateFailed e | Inr _ \<Rightarrow> GateWroteBaseline)
      else
        (case read_back of
           Inl e \<Rightarrow> GateFailed e
         | Inr (Inl e) \<Rightarrow> GateFailed e
         | Inr (Inr baseline) \<Rightarrow>
             (let p99_ratio = f64_div (f64_of_int (int (lr_p99_us result))) (f64_of_int (int (max (lr_p99_us baseline) 1)))
              in if f64_lt (f64_round (6 / 5)) p99_ratio then GateRegression p99_ratio else GatePassed)))"

definition gate_result :: "gate \<Rightarrow> str + unit" where
  "gate_result g =
     (case g of
        GateFailed e \<Rightarrow> Inl e
      | GateRegression p99_ratio \<Rightarrow>
          Inl (''p99 regression: '' @ fmt_fixed 1 (f64_mul (f64_sub p99_ratio (f64_of_int 1)) (f64_of_int 100)) @
            ''% over baseline (>20% threshold)'')
      | _ \<Rightarrow> Inr ())"

text \<open>\<open>{:.0}\<close> of a double, and the lines of the report.\<close>

definition fmt_whole :: "f64 \<Rightarrow> str" where
  "fmt_whole x =
     (case x of
        Fin q \<Rightarrow> (if q < 0 then ''-'' else []) @ nat_to_string (nat (round_half_even (abs q)))
      | NaN \<Rightarrow> ''NaN''
      | Inf neg \<Rightarrow> (if neg then ''-inf'' else ''inf''))"

definition micros :: "u64 \<Rightarrow> str" where
  "micros n = pad_start 8 (nat_to_string n) @ [CHR '' '', CHR 0xC2, CHR 0xB5, CHR ''s'']"

definition render :: "loadtest_result \<Rightarrow> str list" where
  "render r =
     [[], ''=== loadtest result ==='',
      ''target rate:   '' @ nat_to_string (lr_rate_target r) @ '' req/s'',
      ''achieved rate: '' @ fmt_whole (lr_rate_achieved r) @ '' req/s'',
      ''duration:      '' @ fmt_fixed 2 (lr_duration_secs r) @ ''s'',
      ''requests:      '' @ nat_to_string (lr_total_requests r) @ '' ('' @ nat_to_string (lr_success_count r) @ '' ok / '' @
        nat_to_string (lr_error_count r) @ '' err)'',
      ''latency p50:   '' @ micros (lr_p50_us r), ''latency p95:   '' @ micros (lr_p95_us r),
      ''latency p99:   '' @ micros (lr_p99_us r), ''latency p99.9: '' @ micros (lr_p999_us r),
      ''queue max:     '' @ nat_to_string (lr_queue_depth_max r)]"

text \<open>A load test as a whole, from what its asynchronous part returns: the report and the result.\<close>

definition loadtest_run :: "loadtest_args \<Rightarrow> str + loadtest_result \<Rightarrow> (str \<Rightarrow> loadtest_result \<Rightarrow> gate) \<Rightarrow>
    str list \<times> (str + unit)" where
  "loadtest_run a outcome gate_on =
     (case outcome of
        Inl e \<Rightarrow> ([], Inl e)
      | Inr result \<Rightarrow>
          (render result,
           case la_baseline a of Some path \<Rightarrow> gate_result (gate_on path result) | None \<Rightarrow> Inr ()))"

section \<open>Catalogue constants\<close>

text \<open>\<open>str::find\<close>: the offset of the first occurrence.\<close>

fun str_find :: "str \<Rightarrow> str \<Rightarrow> nat option" where
  "str_find [] p = (if p = [] then Some 0 else None)"
| "str_find (c # s) p = (if starts_with (c # s) p then Some 0 else map_option Suc (str_find s p))"

definition quote :: char where
  "quote = CHR 0x22"

definition const_pattern :: "str \<Rightarrow> str" where
  "const_pattern name = ''pub const '' @ name @ '': &str = '' @ [quote]"

definition update_const :: "str \<Rightarrow> str \<Rightarrow> str \<Rightarrow> str + str" where
  "update_const src name value =
     (let pattern = const_pattern name in
      case str_find src pattern of
        None \<Rightarrow> Inl (''constant '' @ name @ '' not found in catalog.rs'')
      | Some start \<Rightarrow>
          (let after_quote = start + length pattern in
           case str_find (drop after_quote src) [quote] of
             None \<Rightarrow> Inl (''unterminated string for '' @ name)
           | Some n \<Rightarrow>
               (let end_quote = n + after_quote
                in Inr (take after_quote src @ value @ drop end_quote src))))"

text \<open>
  The refresh of the bundled catalogue, from what its programs return: the workspace, the commit
  list, the download, the date, the source file, the write and the tests. It gives what it writes to
  \<open>catalog.rs\<close> too, also when a later step fails.
\<close>

record refresh_io =
  ri_workspace :: "str + str"
  ri_commits :: "str + json"
  ri_download :: "str + unit"
  ri_today :: "str + str"
  ri_source :: "str + str"
  ri_written :: "str + unit"
  ri_tests :: "str + unit"

definition commit_sha :: "json \<Rightarrow> str option" where
  "commit_sha v =
     (case v of
        JArray (c # _) \<Rightarrow> (case json_get c ''sha'' of Some s \<Rightarrow> json_as_str s | None \<Rightarrow> None)
      | _ \<Rightarrow> None)"

definition xtask_refresh_catalog :: "refresh_io \<Rightarrow> (str + unit) \<times> str option" where
  "xtask_refresh_catalog io =
     (case ri_workspace io of Inl e \<Rightarrow> (Inl e, None) | Inr _ \<Rightarrow>
     (case ri_commits io of Inl e \<Rightarrow> (Inl e, None) | Inr commits \<Rightarrow>
     (case commit_sha commits of None \<Rightarrow> (Inl ''no SHA in GitHub response'', None) | Some sha \<Rightarrow>
     (case ri_download io of Inl e \<Rightarrow> (Inl e, None) | Inr _ \<Rightarrow>
     (case ri_today io of Inl e \<Rightarrow> (Inl e, None) | Inr today \<Rightarrow>
     (case ri_source io of Inl e \<Rightarrow> (Inl e, None) | Inr src \<Rightarrow>
     (case res_bind (update_const src ''PRICING_CATALOG_VERSION'' sha)
          (\<lambda>updated. update_const updated ''PRICING_CATALOG_DATE'' today) of
        Inl e \<Rightarrow> (Inl e, None)
      | Inr updated \<Rightarrow>
     (case ri_written io of Inl e \<Rightarrow> (Inl e, None) | Inr _ \<Rightarrow>
        (ri_tests io, Some updated)))))))))"

section \<open>Memory audit\<close>

text \<open>\<open>split_whitespace().nth(n)\<close>: a word ends where a white-space character starts.\<close>

fun take_word :: "str \<Rightarrow> str" where
  "take_word [] = []"
| "take_word (c # s) = (if list_ex (starts_with (c # s)) white_space then [] else c # take_word s)"

fun nth_word :: "nat \<Rightarrow> str \<Rightarrow> str option" where
  "nth_word 0 s = (let w = take_word (trim_start s) in if w = [] then None else Some w)"
| "nth_word (Suc n) s =
     (let t = trim_start s; w = take_word t in if w = [] then None else nth_word n (drop (length w) t))"

text \<open>The status file of the server process, if it can be opened, line by line.\<close>

fun rss_in_lines :: "str list \<Rightarrow> u64 option" where
  "rss_in_lines [] = None"
| "rss_in_lines (line # rest) =
     (if \<not> is_utf8 line then None
      else if starts_with line ''VmRSS:'' then
        (case nth_word 1 line of Some kb_str \<Rightarrow> parse_u64 kb_str | None \<Rightarrow> None)
      else rss_in_lines rest)"

definition read_rss_kb :: "str option \<Rightarrow> u64 option" where
  "read_rss_kb file = (case file of Some bytes \<Rightarrow> rss_in_lines (buf_lines [] bytes) | None \<Rightarrow> None)"

text \<open>
  What the programs and the file system answer: a request of \<open>curl\<close> succeeds, fails, or the program
  cannot be started.
\<close>

record audit_io =
  ai_workspace :: "str + str"
  ai_exists :: "str \<Rightarrow> bool"
  ai_build :: "str + bool"
  ai_tmp_dir :: "str + unit"
  ai_spawn :: "str + unit"
  ai_health :: "nat \<Rightarrow> str + bool"
  ai_payload :: "str + str"
  ai_post :: "nat \<Rightarrow> str + bool"
  ai_status :: "str option"

text \<open>
  The outcome, the requests that are warned about, and whether the server process is still running
  when the audit returns.
\<close>

datatype audit_verdict = AuditPassed u64 | AuditSkipped

record audit_report =
  au_verdict :: "str + audit_verdict"
  au_warned :: "nat list"
  au_server_runs :: bool

definition audit_stops :: "str \<Rightarrow> audit_report" where
  "audit_stops e = \<lparr> au_verdict = Inl e, au_warned = [], au_server_runs = False \<rparr>"

definition AUDIT_EVENTS :: nat where
  "AUDIT_EVENTS = 5000"

definition became_healthy :: "audit_io \<Rightarrow> bool" where
  "became_healthy io = list_ex (\<lambda>i. ai_health io i = Inr True) [0..<50]"

definition rss_verdict :: "u64 option \<Rightarrow> str + audit_verdict" where
  "rss_verdict rss_kb =
     (case rss_kb of
        Some kb \<Rightarrow>
          (let mb = kb div 1024
           in if 30 < mb then Inl (''FAIL: RSS '' @ nat_to_string mb @ '' MB exceeds 30 MB target'')
              else Inr (AuditPassed mb))
      | None \<Rightarrow> Inr AuditSkipped)"

definition mem_audit :: "audit_io \<Rightarrow> audit_report" where
  "mem_audit io =
     (case ai_workspace io of Inl e \<Rightarrow> audit_stops e | Inr workspace \<Rightarrow>
      (let config = workspace @ ''/tests/fixtures/bench-config.toml'';
           payload = workspace @ ''/tests/fixtures/load/single-event.json'';
           binary = workspace @ ''/target/release/keplor''
       in if \<not> ai_exists io config then audit_stops (''bench config not found at '' @ config)
       else if \<not> ai_exists io payload then audit_stops (''load payload not found at '' @ payload)
       else case ai_build io of Inl e \<Rightarrow> audit_stops e | Inr built \<Rightarrow>
       if \<not> built then audit_stops ''build failed''
       else if \<not> ai_exists io binary then audit_stops (''binary not found at '' @ binary)
       else case ai_tmp_dir io of Inl e \<Rightarrow> audit_stops e | Inr _ \<Rightarrow>
      (case ai_spawn io of Inl e \<Rightarrow> audit_stops e | Inr _ \<Rightarrow>
       if \<not> became_healthy io then audit_stops ''server did not become healthy within 5s''
       else case ai_payload io of
         Inl e \<Rightarrow> (audit_stops e) \<lparr> au_server_runs := True \<rparr>
       | Inr _ \<Rightarrow>
           \<lparr> au_verdict = rss_verdict (read_rss_kb (ai_status io)),
             au_warned = filter (\<lambda>i. ai_post io i = Inr False) [0..<AUDIT_EVENTS],
             au_server_runs = False \<rparr>)))"

section \<open>Dispatch\<close>

datatype xtask_outcome =
    XRefresh "(str + unit) \<times> str option" | XMemAudit audit_report | XLoadtest "str list \<times> (str + unit)"
  | XBadArgs str | XHelp | XUnknown str

definition xtask_main :: "refresh_io \<Rightarrow> audit_io \<Rightarrow> (loadtest_args \<Rightarrow> str list \<times> (str + unit)) \<Rightarrow> str list \<Rightarrow> xtask_outcome" where
  "xtask_main io audit loadtest args =
     (case args of
        [] \<Rightarrow> XHelp
      | cmd # rest \<Rightarrow>
          if cmd = ''refresh-catalog'' then XRefresh (xtask_refresh_catalog io)
          else if cmd = ''mem-audit'' then XMemAudit (mem_audit audit)
          else if cmd = ''loadtest'' then
            (case parse_args rest of Inr a \<Rightarrow> XLoadtest (loadtest a) | Inl e \<Rightarrow> XBadArgs e)
          else if cmd = ''--help'' \<or> cmd = ''-h'' then XHelp
          else XUnknown cmd)"

text \<open>The exit code.\<close>

fun xtask_success :: "xtask_outcome \<Rightarrow> bool" where
  "xtask_success (XRefresh (res, _)) = (\<not> isl res)"
| "xtask_success (XMemAudit report) = (\<not> isl (au_verdict report))"
| "xtask_success (XLoadtest (_, res)) = (\<not> isl res)"
| "xtask_success (XBadArgs _) = False"
| "xtask_success XHelp = True"
| "xtask_success (XUnknown _) = False"

end
