(* ===== verification/Xtask_Safe.thy ===== *)
theory Xtask_Safe
  imports Xtask
begin

text \<open>
  What the project automation promises: a constant is rewritten in place and nothing else of the
  source is touched, the arguments of the load test read back, and a worker keeps its pace.
\<close>

section \<open>Constants\<close>

lemma str_find_Some:
  "str_find s p = Some i \<Longrightarrow> s = take i s @ p @ drop (i + length p) s \<and> i + length p \<le> length s"
proof (induction s p arbitrary: i rule: str_find.induct)
  case (2 c s p)
  show ?case
  proof (cases "starts_with (c # s) p")
    case True
    then have "i = 0" "take (length p) (c # s) = p" using 2(2) by (simp_all add: starts_with_def)
    then show ?thesis by (metis append_take_drop_id append_Nil add_0 take0 length_take min.cobounded1)
  next
    case False
    with 2(2) obtain j where "str_find s p = Some j" "i = Suc j" by auto
    with 2(1) [OF False] show ?thesis by simp
  qed
qed (simp split: if_splits)

lemma str_find_first: "str_find s p = Some i \<Longrightarrow> j < i \<Longrightarrow> \<not> starts_with (drop j s) p"
proof (induction s p arbitrary: i j rule: str_find.induct)
  case (2 c s p)
  then show ?case by (cases j) (auto split: if_splits)
qed (simp split: if_splits)

lemma str_find_None: "str_find s p = None \<longleftrightarrow> (\<forall>a b. s \<noteq> a @ p @ b)"
proof (induction s p rule: str_find.induct)
  case (2 c s p)
  show ?case
  proof (cases "starts_with (c # s) p")
    case True
    then have "c # s = [] @ p @ drop (length p) (c # s)" unfolding starts_with_def by (metis append_Nil append_take_drop_id)
    then have "\<exists>a b. c # s = a @ p @ b" by blast
    with True show ?thesis by simp
  next
    case False
    then have "\<forall>b. c # s \<noteq> p @ b" by (auto simp: starts_with_def)
    with False 2 show ?thesis by (auto simp: Cons_eq_append_conv)
  qed
qed simp

lemma str_find_char: "str_find s [c] = Some i \<Longrightarrow> c \<notin> set (take i s)"
proof (induction s "[c]" arbitrary: i rule: str_find.induct)
  case (2 d s)
  then show ?case by (auto simp: starts_with_def split: if_splits)
qed simp

lemma str_find_append: "c \<notin> set a \<Longrightarrow> str_find (a @ c # b) [c] = Some (length a)"
  by (induction a) (auto simp: starts_with_def)

text \<open>The value of a constant, as the compiler would read it from the first declaration.\<close>

definition read_const :: "str \<Rightarrow> str \<Rightarrow> str option" where
  "read_const src name =
     (case str_find src (const_pattern name) of
        None \<Rightarrow> None
      | Some i \<Rightarrow>
          (let after_quote = drop (i + length (const_pattern name)) src in
           map_option (\<lambda>n. take n after_quote) (str_find after_quote [quote])))"

lemma update_const_parts:
  assumes "update_const src name value = Inr out"
  obtains pre old post where "src = pre @ const_pattern name @ old @ quote # post"
    and "out = pre @ const_pattern name @ value @ quote # post" and "quote \<notin> set old"
    and "str_find src (const_pattern name) = Some (length pre)"
proof -
  let ?p = "const_pattern name"
  obtain i n where i: "str_find src ?p = Some i" and n: "str_find (drop (i + length ?p) src) [quote] = Some n"
    and out: "out = take (i + length ?p) src @ value @ drop (n + (i + length ?p)) src"
    using assms by (auto simp: update_const_def Let_def split: option.splits)
  let ?rest = "drop (i + length ?p) src"
  have src: "src = take i src @ ?p @ ?rest" and le: "i + length ?p \<le> length src"
    using str_find_Some [OF i] by auto
  have rest: "?rest = take n ?rest @ quote # drop (n + 1) ?rest" "n + 1 \<le> length ?rest"
    using str_find_Some [OF n] by auto
  have len: "length (take i src) = i" using le by simp
  have "take (i + length ?p) src = take i src @ ?p" using src len by (metis append.assoc append_eq_conv_conj length_append)
  moreover have "drop (n + (i + length ?p)) src = quote # drop (n + 1) ?rest"
    using rest by (metis append_eq_conv_conj drop_drop length_take less_or_eq_imp_le min.absorb2 add_lessD1 le_eq_less_or_eq Suc_eq_plus1 Suc_le_eq)
  ultimately have "out = take i src @ ?p @ value @ quote # drop (n + 1) ?rest" by (simp add: out)
  moreover have "src = take i src @ ?p @ take n ?rest @ quote # drop (n + 1) ?rest" using src rest(1) by metis
  ultimately show ?thesis using that str_find_char [OF n] i len by metis
qed

lemma str_find_prefix:
  "str_find (a @ p @ b) p = Some (length a) \<Longrightarrow> str_find (a @ p @ b') p = Some (length a)"
proof (induction a)
  case Nil
  then show ?case by (cases p; cases b') (auto simp: starts_with_def)
next
  case (Cons c a)
  have "starts_with (c # a @ p @ b') p \<longleftrightarrow> starts_with (c # a @ p @ b) p"
    by (simp add: starts_with_def take_Cons' take_append)
  with Cons show ?case by (auto split: if_splits)
qed

text \<open>
  C36: rewriting a constant of the source replaces the text between its quotes and nothing else,
  and the new text is what the constant then has; it fails exactly when the source does not
  declare the constant or its text does not end.
\<close>

theorem update_const_reads_back:
  assumes "quote \<notin> set value"
  shows "case read_const src name of
      None \<Rightarrow> \<exists>e. update_const src name value = Inl e
    | Some old \<Rightarrow> \<exists>pre post out. update_const src name value = Inr out \<and>
        src = pre @ const_pattern name @ old @ quote # post \<and>
        out = pre @ const_pattern name @ value @ quote # post \<and> read_const out name = Some value"
proof (cases "update_const src name value")
  case (Inl e)
  then have "read_const src name = None"
    by (auto simp: update_const_def read_const_def Let_def split: option.splits)
  with Inl show ?thesis by simp
next
  case (Inr out)
  then obtain pre old post where parts: "src = pre @ const_pattern name @ old @ quote # post"
      "out = pre @ const_pattern name @ value @ quote # post" "quote \<notin> set old"
      "str_find src (const_pattern name) = Some (length pre)" by (rule update_const_parts)
  have "read_const (pre @ const_pattern name @ v @ quote # post) name = Some v" if "quote \<notin> set v" for v
    using str_find_prefix [OF parts(4) [unfolded parts(1)], of "v @ quote # post"] str_find_append [OF that, of post]
    by (simp add: read_const_def Let_def)
  with Inr parts(1-3) assms show ?thesis by auto
qed

theorem update_const_reads_back_witness:
  "\<exists>out. update_const (''// v'' @ const_pattern ''V'' @ ''old'' @ quote # '';'') ''V'' ''new'' = Inr out \<and>
     read_const out ''V'' = Some ''new''"
proof -
  have "quote \<notin> set ''new''" by (simp add: quote_def)
  moreover have "read_const (''// v'' @ const_pattern ''V'' @ ''old'' @ quote # '';'') ''V'' = Some ''old''"
    by (simp add: read_const_def const_pattern_def quote_def starts_with_def)
  ultimately show ?thesis
    using update_const_reads_back [of "''new''" "''// v'' @ const_pattern ''V'' @ ''old'' @ quote # '';''" "''V''"] by auto
qed

section \<open>Pace of the workers\<close>

text \<open>The requests of a worker start no earlier than they are due, and before the deadline or in the sleep across it.\<close>

lemma run_worker_starts:
  "i < length (run_worker interval deadline now due reqs) \<Longrightarrow>
   due + i * interval \<le> fst (run_worker interval deadline now due reqs ! i)"
proof (induction interval deadline now due reqs arbitrary: i rule: run_worker.induct)
  case (2 interval deadline now due took status reqs)
  show ?case
  proof (cases "deadline \<le> now")
    case False
    then show ?thesis
      using 2(1) [OF False refl refl] 2(2) by (cases i) (fastforce simp: Let_def)+
  qed (use 2(2) in simp)
qed simp

text \<open>All but the last request have started before the deadline.\<close>

lemma run_worker_deadline:
  "Suc i < length (run_worker interval deadline now due reqs) \<Longrightarrow>
   fst (run_worker interval deadline now due reqs ! i) < deadline"
proof (induction interval deadline now due reqs arbitrary: i rule: run_worker.induct)
  case (2 interval deadline now due took status reqs)
  show ?case
  proof (cases "deadline \<le> now")
    case False
    let ?rest = "run_worker interval deadline (max now due + took) (due + interval) reqs"
    have "?rest \<noteq> [] \<Longrightarrow> max now due + took < deadline"
      by (cases reqs) (auto split: if_splits prod.splits)
    then show ?thesis
      using 2(1) [OF False refl refl] 2(2) False by (cases i) (auto simp: Let_def)
  qed (use 2(2) in simp)
qed simp

text \<open>
  A worker never exceeds its pace: within a run of the given duration it sends at most one
  request per interval and two more, however fast the server answers and however long it fell
  behind before.
\<close>

theorem worker_keeps_pace:
  assumes "0 < interval"
  shows "length (run_worker interval (begin_ns + duration) begin_ns begin_ns reqs) \<le> duration div interval + 2"
proof (rule ccontr)
  let ?rs = "run_worker interval (begin_ns + duration) begin_ns begin_ns reqs"
  let ?i = "duration div interval + 1"
  assume "\<not> length ?rs \<le> duration div interval + 2"
  then have i: "Suc ?i < length ?rs" by simp
  have "begin_ns + ?i * interval \<le> fst (?rs ! ?i)" by (rule run_worker_starts) (use i in simp)
  moreover have "fst (?rs ! ?i) < begin_ns + duration" by (rule run_worker_deadline) (use i in simp)
  moreover have "duration < ?i * interval" using assms by (simp add: div_mult_mod_eq dividend_less_div_times)
  ultimately show False by simp
qed

theorem worker_keeps_pace_witness:
  "length (run_worker 100 250 0 0 [(10, Some 200), (10, Some 500), (10, None), (10, None), (10, None)]) \<le> 4"
  using worker_keeps_pace [of 100 0 250] by simp

text \<open>
  The workers together may exceed the target rate, which is rounded up to a whole number of
  requests per worker and second: with the default 64 workers a target of 10 gives 64.
\<close>

lemma aggregate_rate_overshoots:
  "la_rate a = 10 \<Longrightarrow> la_concurrency a = 64 \<Longrightarrow> la_concurrency a * per_worker_rate a = 64"
  by (simp add: per_worker_rate_def div_ceil_def)

section \<open>Report\<close>

text \<open>The poller ends with the largest depth it saw, and a run fails on its baseline exactly when p99 grew.\<close>

lemma poll_queue_max: "poll_queue prev rs = Max (set (prev # List.map_filter poll_depth rs))"
proof -
  have "poll_queue prev rs = fold max (List.map_filter poll_depth rs) prev"
    by (induction prev rs rule: poll_queue.induct)
      (auto simp: List.map_filter_simps max.commute max_absorb1 split: option.splits)
  then show ?thesis by (simp only: Max.set_eq_fold)
qed

lemma loadtest_run_fails:
  assumes "la_baseline a = Some path"
    and "\<And>r. gate_on path r = gate_on_baseline True w (Inr (Inr baseline)) r"
  shows "isl (snd (loadtest_run a (Inr r) gate_on)) \<longleftrightarrow>
    f64_lt (f64_round (6 / 5)) (f64_div (f64_of_int (int (lr_p99_us r))) (f64_of_int (int (max (lr_p99_us baseline) 1))))"
  using assms by (simp add: loadtest_run_def gate_result_def gate_on_baseline_def Let_def)

section \<open>Arguments\<close>

lemma parse_nat_to_string [simp]:
  assumes "n < 2 ^ 64"
  shows "parse_u64 (nat_to_string n) = Some n"
proof -
  obtain c s where n: "nat_to_string n = c # s" by (meson neq_Nil_conv nat_to_string_not_Nil)
  have "is_ascii_digit c" by (rule nat_to_string_digits [of c n]) (simp add: n)
  then have "strip_prefix (nat_to_string n) ''+'' = None"
    by (auto simp: n strip_prefix_def starts_with_def is_ascii_digit_def)
  moreover have "list_all is_ascii_digit (nat_to_string n)"
    using nat_to_string_digits by (auto simp: list_all_iff)
  ultimately show ?thesis using assms by (simp add: parse_u64_def Let_def)
qed

lemma strip_suffix_append [simp]: "strip_suffix (s @ p) p = Some s"
  by (simp add: strip_suffix_def ends_with_def)

lemma parse_duration_ms [simp]: "n < 2 ^ 64 \<Longrightarrow> parse_duration (nat_to_string n @ ''ms'') = Inr (from_millis n)"
  by (simp add: parse_duration_def parse_or_def)

text \<open>The arguments as one would type them, each key with its value.\<close>

definition typed :: "str \<Rightarrow> str \<Rightarrow> str" where
  "typed key v = key @ CHR ''='' # v"

definition typed_args :: "loadtest_args \<Rightarrow> nat \<Rightarrow> str list" where
  "typed_args a ms =
     [typed ''--rate'' (nat_to_string (la_rate a)), typed ''--duration'' (nat_to_string ms @ ''ms''),
      typed ''--concurrency'' (nat_to_string (la_concurrency a)), typed ''--target'' (la_target a)] @
     (case la_baseline a of None \<Rightarrow> [] | Some f \<Rightarrow> [typed ''--baseline'' f]) @
     (case la_api_key a of None \<Rightarrow> [] | Some k \<Rightarrow> [typed ''--api-key'' k]) @
     (if la_durable a then [] else [''--no-durable''])"

lemma parse_loop_typed:
  "CHR ''='' \<notin> set key \<Longrightarrow> parse_loop (typed key v # rest) vs = res_bind (set_arg key (Some v) vs) (parse_loop rest)"
  by (simp add: typed_def split_once_append)

lemma set_arg_typed:
  "n < 2 ^ 64 \<Longrightarrow> set_arg ''--rate'' (Some (nat_to_string n)) vs = Inr (vs \<lparr> av_rate := Some n \<rparr>)"
  "n < 2 ^ 64 \<Longrightarrow> set_arg ''--duration'' (Some (nat_to_string n @ ''ms'')) vs = Inr (vs \<lparr> av_duration := Some (from_millis n) \<rparr>)"
  "n < 2 ^ 64 \<Longrightarrow> set_arg ''--concurrency'' (Some (nat_to_string n)) vs = Inr (vs \<lparr> av_concurrency := n \<rparr>)"
  "set_arg ''--target'' (Some v) vs = Inr (vs \<lparr> av_target := v \<rparr>)"
  "set_arg ''--baseline'' (Some v) vs = Inr (vs \<lparr> av_baseline := Some v \<rparr>)"
  "set_arg ''--api-key'' (Some v) vs = Inr (vs \<lparr> av_api_key := Some v \<rparr>)"
  by (simp_all add: set_arg_def required_def parse_or_def del: nat_to_string.simps)

lemma parse_loop_flag: "parse_loop [''--no-durable''] vs = Inr (vs \<lparr> av_durable := False \<rparr>)"
  by (simp add: set_arg_def)



text \<open>
  A key without an equality sign takes the next argument as its value, the flag
  \<open>--no-durable\<close> too: it is refused anywhere but at the end.
\<close>

lemma no_durable_only_last: "parse_args (''--no-durable'' # v # rest) = Inl (''--no-durable takes no value (got `'' @ v @ ''`)'')"
  by (simp add: parse_args_def set_arg_def)

section \<open>Memory audit\<close>

lemma white_space_blank: "[CHR '' ''] \<in> set white_space" "[CHR 0x09] \<in> set white_space"
  by code_simp+

text \<open>Characters of the status line that no white-space character starts with.\<close>

definition status_char :: "char \<Rightarrow> bool" where
  "status_char c = (is_ascii_digit c \<or> c \<in> set ''VmRSS:'')"

lemma status_char_starts_no_blank:
  assumes "status_char c" and w: "w \<in> set white_space"
  shows "\<not> starts_with (c # s) w"
proof
  have "list_all (\<lambda>w. \<not> status_char (hd w)) white_space" by code_simp
  with w have "\<not> status_char (hd w)" by (simp add: list_all_iff)
  moreover assume "starts_with (c # s) w"
  ultimately show False using white_space_not_Nil [OF w] assms(1) by (cases w) (auto simp: starts_with_def)
qed

lemma take_word_status:
  assumes "list_all status_char d" and "[b] \<in> set white_space"
  shows "take_word (d @ b # s) = d"
  using assms(1)
proof (induction d)
  case Nil
  have "starts_with (b # s) [b]" by (simp add: starts_with_def)
  with assms(2) show ?case by (auto simp: list_ex_iff)
next
  case (Cons c d)
  then show ?case using status_char_starts_no_blank [of c] by (auto simp: list_ex_iff)
qed

lemma trim_start_status: "status_char c \<Longrightarrow> trim_start (c # s) = c # s"
  using status_char_starts_no_blank [of c]
  by (subst trim_start.simps) (auto split: option.splits simp: find_Some_iff in_set_conv_nth)

lemma trim_start_blank:
  assumes "c = CHR '' '' \<or> c = CHR 0x09"
  shows "trim_start (c # s) = trim_start s"
proof -
  have all: "list_all (\<lambda>w. hd w = c \<longrightarrow> w = [c]) white_space" using assms by (elim disjE) (simp_all, code_simp+)
  have c: "[c] \<in> set white_space" using assms white_space_blank by auto
  have "starts_with (c # s) [c]" by (simp add: starts_with_def)
  with c have "find (starts_with (c # s)) white_space \<noteq> None" by (auto simp: find_None_iff)
  then obtain w where w: "find (starts_with (c # s)) white_space = Some w" by blast
  then have "w \<in> set white_space" "starts_with (c # s) w" by (auto simp: find_Some_iff in_set_conv_nth)
  with all white_space_not_Nil have "w = [c]" by (cases w) (auto simp: starts_with_def list_all_iff)
  with w show ?thesis by (subst trim_start.simps) simp
qed

lemma trim_start_spaces: "trim_start (replicate k (CHR '' '') @ s) = trim_start s"
  by (induction k) (simp_all add: trim_start_blank)

text \<open>The memory figure of a status line reads back, however wide its column is.\<close>

lemma rss_word:
  "nth_word 1 (''VmRSS:'' @ CHR 0x09 # replicate k (CHR '' '') @ nat_to_string n @ '' kB'') = Some (nat_to_string n)"
proof -
  obtain c s where n: "nat_to_string n = c # s" by (meson neq_Nil_conv nat_to_string_not_Nil)
  have digits: "list_all status_char (c # s)"
    using nat_to_string_digits [of _ n] by (auto simp: n list_all_iff status_char_def)
  have label: "list_all status_char ''VmRSS:''" by code_simp
  have head: "trim_start (''VmRSS:'' @ r) = ''VmRSS:'' @ r" for r
    using trim_start_status [of "CHR ''V''"] by (simp add: status_char_def)
  note word = take_word_status [OF label white_space_blank(2)]
  have rest: "trim_start (CHR 0x09 # replicate k (CHR '' '') @ nat_to_string n @ '' kB'') = nat_to_string n @ '' kB''"
    using trim_start_status [of c] digits by (simp add: trim_start_blank trim_start_spaces n)
  have "take_word (nat_to_string n @ '' kB'') = nat_to_string n"
    using take_word_status [OF digits white_space_blank(1), of "''kB''"] by (simp add: n)
  then show ?thesis
    by (simp only: One_nat_def nth_word.simps Let_def head word) (simp add: rest nat_to_string_not_Nil)
qed

lemma rss_reads_back:
  assumes "n < 2 ^ 64" and "is_utf8 (''VmRSS:'' @ CHR 0x09 # replicate k (CHR '' '') @ nat_to_string n @ '' kB'')"
  shows "rss_in_lines ((''VmRSS:'' @ CHR 0x09 # replicate k (CHR '' '') @ nat_to_string n @ '' kB'') # ls) = Some n"
  using assms rss_word by (simp del: nth_word.simps add: starts_with_def)

lemma became_healthy_post [simp]: "became_healthy (io \<lparr> ai_post := p \<rparr>) = became_healthy io"
  unfolding became_healthy_def by (rule list_ex_cong [OF refl]) simp

text \<open>
  The audit does not look at its requests: a server that refuses all of them passes like one that
  stored them, and a payload that cannot be read leaves the server running.
\<close>

lemma mem_audit_ignores_requests:
  "au_verdict (mem_audit (io \<lparr> ai_post := p \<rparr>)) = au_verdict (mem_audit io)"
  by (simp add: mem_audit_def Let_def split: sum.splits)

lemma mem_audit_leaves_server:
  "au_server_runs (mem_audit io) \<Longrightarrow> \<exists>e. ai_payload io = Inl e \<and> au_verdict (mem_audit io) = Inl e"
  by (cases "ai_workspace io"; cases "ai_build io"; cases "ai_tmp_dir io"; cases "ai_spawn io"; cases "ai_payload io";
      simp add: mem_audit_def Let_def audit_stops_def split: if_splits)

lemma rss_verdict_passes: "(\<exists>mb. rss_verdict (Some kb) = Inr (AuditPassed mb)) \<longleftrightarrow> kb < 31 * 1024"
  by (auto simp: rss_verdict_def Let_def less_mult_imp_div_less)

end
