(* ===== verification/Spec2Isabelle.thy ===== *)
theory Spec2Isabelle
  imports Compute Catalog Row_Mapping Validate Normalize Auth Rate_Limit Idempotency Kdb_Query Kdb_Rollup
    Batch_Durable Archive_Safe Pipeline_Safe Routes_Safe Config Server_Tasks Server Cli_Safe Lifecycle
    System Event_Log Metrics Xtask_Safe
begin

text \<open>
  Keplor ingests LLM usage events over HTTP, prices them, stores one row per event in a store with
  a retention tier per engine, answers queries over the rows and moves old rows to object storage.
  This development models the service from the bytes of an event to its row and back, and
  states what its parts promise alone and together. Paths below are relative to \<open>src/crates\<close>,
  those of \<open>xtask\<close> to \<open>src\<close>.

  \<^bold>\<open>How the parts interact.\<close> A request passes the bearer check and the rate limiter
  (\<open>auth.rs\<close>, \<open>rate_limit.rs\<close>), the handler (\<open>routes.rs\<close>) asks the idempotency cache
  (\<open>idempotency.rs\<close>) and the pipeline (\<open>pipeline.rs\<close>), which validates, normalises, prices and
  builds an event (\<open>validate.rs\<close>, \<open>normalize.rs\<close>, \<open>keplor-pricing\<close>, \<open>keplor-core\<close>) and hands it to
  the batch writer (\<open>batch.rs\<close>). The writer turns batches into rows (\<open>mapping.rs\<close>) and appends
  them to the engine of their tier (\<open>kdb_store.rs\<close>). Background tasks (\<open>server.rs\<close>) collect expired
  rows, archive old ones (\<open>archive.rs\<close>, \<open>stored_event.rs\<close>, \<open>kdb_store/manifests.rs\<close>), reload keys and
  refresh prices. The command line (\<open>keplor-cli\<close>) starts the server and runs the same store
  operations offline.

  \<^bold>\<open>Machine level.\<close> \<open>Prelude\<close> has the integer ranges with saturating and wrapping
  arithmetic written out (locale \<open>saturating\<close>, interpreted for \<open>i64\<close> and \<open>u64\<close>), byte strings with
  the \<open>str\<close> operations the code uses, and the result type \<open>run\<close>, whose \<open>Panic\<close> value is what the
  code does where it would abort. \<open>F64\<close> rounds every operation on doubles to the nearest
  representable value. \<open>Utf8\<close> and \<open>Json\<close> hold byte validity and the JSON values the code inspects.
  \<open>Multimap\<close>, \<open>Sharded\<close> and \<open>Top_Merge\<close> are the structures several components share: vectors
  grown per key (locale \<open>multimap\<close>, interpreted for the ordered and the hashed map), maps
  split over shards (locale \<open>sharded\<close>, interpreted for limiter and idempotency cache), and the
  merge of sorted results. \<open>Runs\<close> has the sequences of labelled steps of any step relation, with the
  rules for invariants of the history (locale \<open>step_invariant\<close>, interpreted for the writer twice
  and for the system) and for refinement (locale \<open>simulation\<close>, interpreted for the store).

  \<^bold>\<open>Core data.\<close> \<open>Cost\<close>, \<open>Provider\<close>, \<open>Usage\<close>, \<open>Ids\<close>, \<open>Provider_Error\<close> and \<open>Event\<close> follow
  the files of \<open>keplor-core/src\<close> (\<open>cost\<close>, \<open>provider\<close>, \<open>usage\<close>, \<open>id\<close>, \<open>error\<close>, \<open>event\<close>, \<open>flags\<close>). Shown:
  sums saturate exactly, merging a stream of usage reports gives the exact total of each counter,
  capped once, parsing an identifier inverts printing it (locale \<open>codec\<close>,
  interpreted for all six string identifiers and the trace id), and the error classes agree with the status
  they came from.

  \<^bold>\<open>Pricing.\<close> \<open>Pricing_Model\<close>, \<open>Catalog\<close> and \<open>Compute\<close> follow \<open>keplor-pricing/src\<close>. Shown: a dollar
  amount is converted to the nearest nanodollar; the index holds what the catalogue says under
  each canonical name and never invents an entry; the computed cost is the exact bill, capped,
  with no intermediate wrap. The bundled data, a file and a download are read the same way.

  \<^bold>\<open>Rows and store.\<close> \<open>Row_Mapping\<close> (\<open>mapping.rs\<close>, \<open>filter.rs\<close>), \<open>Stored_Event\<close>, \<open>Manifests\<close>,
  \<open>Kdb_Store\<close>, \<open>Kdb_Query\<close> and \<open>Kdb_Rollup\<close> (\<open>kdb_store.rs\<close>, \<open>types.rs\<close>). The store record holds one
  engine per tier and the manifest log. Shown: rows and archive records read back as
  the event that was written; the manifest log recovers after a crash up to its last complete
  line; batches go to their tiers and nowhere else; a query over all tiers is the newest
  rows of their union; exports end; rollups are the exact sums of their days, and statistics
  conserve them.

  \<^bold>\<open>Batch writer.\<close> \<open>Batch\<close> models \<open>batch.rs\<close> as a step relation: producers, the append loops of
  the shards, the rotator and shutdown interleave freely. \<open>Batch\<close> shows that a request is in exactly
  one place at any time; \<open>Batch_Durable\<close> that an acknowledged id is stored, that pending
  requests can always be drained, and what shutdown reports.

  \<^bold>\<open>Archive.\<close> \<open>Civil\<close> and \<open>Archive\<close> model \<open>archive.rs\<close>; \<open>Archive_Safe\<close> shows that a cycle loses
  nothing whichever of its uploads, manifest writes and deletes fail. \<open>Lifecycle\<close> puts writes,
  collections, deletions, archiving and checkpoints into one step relation and shows that every
  acknowledged row stays, can be read from an archive, or went for a reason the run names.
  \<open>Event_Log\<close> is the abstract specification: rows per tier and archived ids. Every run of the
  store's operations, on their error paths too, is a run of this log under the same labels, so
  the store adds only what it is given and takes only what a step may take.

  \<^bold>\<open>System.\<close> \<open>System\<close> lets the writer and the operations on its store interleave freely and
  follows an event from the answer its sender got through everything that can happen to its row,
  up to the shutdown of the server.

  \<^bold>\<open>Server.\<close> \<open>Schema\<close>, \<open>Validate\<close>, \<open>Normalize\<close>, \<open>Auth\<close>, \<open>Rate_Limit\<close>, \<open>Idempotency\<close>, \<open>Pipeline\<close>,
  \<open>Routes\<close>, \<open>Config\<close>, \<open>Server_Tasks\<close> (with \<open>request_id.rs\<close>, \<open>fast_json.rs\<close>, \<open>rollup.rs\<close>) and \<open>Server\<close>
  follow \<open>keplor-server/src\<close>. \<open>Pipeline_Safe\<close> and \<open>Routes_Safe\<close> hold what they promise:
  order of batch results, attribution, durability before the answer, replay of an
  idempotency key, erasure of a user, pages that tile. \<open>Server\<close> includes the TLS files and the accept
  loop of the TLS listener, which no client can hold for more than ten seconds. \<open>Metrics\<close> gives the
  counters, gauges and samples that an operation emits and compares them with its answers. This
  theory joins the layers from the header of a request to the stored row.

  \<^bold>\<open>Command line.\<close> \<open>Cli\<close> follows \<open>keplor-cli/src/main.rs\<close>: a command maps its arguments and the
  files it reads to the lines it prints and the store it leaves. \<open>Cli_Safe\<close> shows that a server
  the command line starts has a checked configuration.

  \<^bold>\<open>Project automation.\<close> \<open>Xtask\<close> follows \<open>xtask/src\<close>: the load generator with its arguments, pacing,
  report and baseline gate, the refresh of the bundled prices and the memory audit, as functions
  of what the programs they start and the files they read return. \<open>Xtask_Safe\<close> shows that arguments
  and rewritten constants read back, that a worker keeps its pace and what the audit overlooks.

  \<^bold>\<open>Parameters.\<close> Code outside the repository is an argument of the definitions that use it: the
  storage engine (\<open>engine_ops\<close>), the object store (\<open>object_ops\<close>), compression and JSON text
  (\<open>archive_codec\<close>, \<open>record_json\<close>, \<open>externals\<close>), the LRU cache (\<open>lru_ops\<close>), SHA-256 and the
  constant-time comparison, hash orders, clocks and fresh identifiers. What the code relies on
  is named (\<open>append_law\<close>, \<open>delete_law\<close>, \<open>recent_law\<close>, \<open>cursor_law\<close>, \<open>object_law\<close>, \<open>codec_law\<close>,
  \<open>lru_laws\<close>, \<open>engine_spec\<close>, and their combinations) and each property that uses it has a witness on concrete
  engines, stores or codecs that satisfy the law. Hash orders are any permutation.

  \<^bold>\<open>Loops and bounds.\<close> Recursion is structural or has a measure. The export and the erasure of
  a user page through the store and could run forever on a bad engine; they are partial functions into
  \<open>option\<close>, and that they return is proved from the engine laws. The writer's loops are steps
  of a relation, with the existence of a draining run as the liveness property. Numeric bounds
  come from the code: retention periods up to 106751 days are the ones whose nanoseconds fit
  an \<open>i64\<close>; archived chunks are bounded by the 100 MiB the reader decompresses to; page sizes, queue
  capacities and field lengths are the constants of the code.

  \<^bold>\<open>Findings.\<close> Where the code departs from its documentation, or does what it cannot mean, a
  lemma shows the behaviour on a concrete input: \<open>strip_date_suffix\<close> panics inside a
  character, an alias depends on the order of a hash map, a manifest after a
  cut-off line is lost at the next open, a batch over several tiers is not atomic, an
  export skips ties, an oversized archive cannot be read back, retention over 292 years wraps, the
  archive report of the command line mixes up its columns, a graceful shutdown runs into its deadline,
  rejected events of a batch are counted twice and timed-out writes not at all, an error page
  replaces the prices, and the load generator exceeds its rate and refuses a flag of its own.

  \<^bold>\<open>Not modelled.\<close> Serde derives, TOML and environment parsing (figment), argument parsing
  of the service (clap), sockets, the TLS protocol, and the timeout and concurrency layers of tower
  belong to libraries; the metrics recorder, the queue gauges of the append loops and log lines
  only observe the program; help texts are text. \<open>KdbStore::open_in_memory\<close> opens a store in a
  temporary directory for tests.
\<close>

section \<open>From the header of a request to the row\<close>

lemma ingest_single_waits:
  assumes "ingest_single env call s auth idem q event = Ret (AwaitWrite (l, provider, model, cost), s')"
  shows "\<exists>p. process_event env call p event (fst (caller_identity s auth)) (snd (caller_identity s auth)) =
    Ret (Inr (l, provider, model, cost))"
  using assms
  by (auto simp: ingest_single_def ingest_begin_def run_bind_def Let_def case_prod_unfold
      split: if_splits run.splits ingest_progress.splits sum.splits option.splits prod.splits)

text \<open>
  C6: on a server with keys, an event that goes to the writer came with the secret of a
  configured key, and its row carries the id and the tier of a key with that secret, whatever the
  request said about itself.
\<close>

theorem authenticated_ingest_attribution:
  assumes "equality_test ct_eq" and "keys (ps_hot_keys sv) \<noteq> []"
    and "serve_authed ct_eq hash now header (\<lambda>auth. ingest_single env call (ps_state sv) auth idem q event) sv =
      (Handled (Ret (AwaitWrite (l, provider, model, cost), s')), sv')"
  shows "\<exists>secret ident tier. header = Some (bearer secret) \<and> (secret, ident, tier) \<in> set (keys (ps_hot_keys sv)) \<and>
    row_tier (to_log_event (pe_ext env) l) = tier \<and> le_dims (to_log_event (pe_ext env) l) ! DIM_API_KEY_ID = ident"
proof -
  from assms(3) obtain auth where auth: "require_api_key ct_eq (ps_hot_keys sv) header = Forward auth"
    and single: "ingest_single env call (ps_state sv) auth idem q event = Ret (AwaitWrite (l, provider, model, cost), s')"
    by (auto simp: serve_authed_def guard_request_def
        split: auth_outcome.splits option.splits prod.splits limit_outcome.splits)
  from require_api_key_forward [OF assms(1,2) auth] obtain k secret where k: "auth = Some k"
    "header = Some (bearer secret)" "(secret, key_id k, key_tier k) \<in> set (keys (ps_hot_keys sv))" by blast
  from ingest_single_waits [OF single] obtain p where
    "process_event env call p event (Some (key_id k)) (key_tier k) = Ret (Inr (l, provider, model, cost))"
    by (auto simp: k(1) caller_identity_def)
  from accepted_row_identity [OF this] k(2,3) show ?thesis by blast
qed

theorem authenticated_ingest_attribution_witness:
  "\<exists>l. row_tier (to_log_event sample_ext l) = ''free'' \<and> le_dims (to_log_event sample_ext l) ! DIM_API_KEY_ID = ''k1''"
proof -
  let ?ks = "\<lparr> keys = [(''s1'', ''k1'', ''free'')] \<rparr>"
  have "\<exists>sv. pipeline_server_new (\<lambda>_. Inr ()) (\<lambda>_. True) sample_pipeline ?ks server_config_default =
      Inr (sv :: (log_event list, nat \<times> (str \<times> cached_entry) list, unit, unit) pipeline_server)"
    by (simp add: pipeline_server_new_def server_config_default_def res_bind_def)
  then obtain sv :: "(log_event list, nat \<times> (str \<times> cached_entry) list, unit, unit) pipeline_server" where
    sv: "pipeline_server_new (\<lambda>_. Inr ()) (\<lambda>_. True) sample_pipeline ?ks server_config_default = Inr sv" by blast
  note fields = server_new_fields [OF sv]
  have limiter: "ps_limiter sv = None"
    using fields(6) by (simp add: server_config_default_def rate_limit_server_config_default_def)
  obtain l where l: "process_event sample_env sample_call sample_pipeline priced_request (Some ''k1'') ''free'' =
      Ret (Inr (l, normalize_provider ''openai'', normalize_model ''GPT'', 5))"
    by (rule priced_request_processed)
  have size: "check_db_size sample_env sample_call sample_pipeline = (Inr (), sample_pipeline)"
    by (simp add: check_db_size_def sample_pipeline_def with_idempotency_def pipeline_new_def)
  let ?auth = "Some \<lparr> key_id = ''k1'', key_tier = ''free'' \<rparr>"
  have single: "ingest_single sample_env sample_call (ps_state sv) ?auth None (ingest_query_of None) priced_request =
      Ret (AwaitWrite (l, normalize_provider ''openai'', normalize_model ''GPT'', 5), ps_state sv)"
    using l size by (simp add: ingest_single_def caller_identity_def fields(1) ingest_begin_def idem_lookup_def
        ingest_query_of_def default_true_def)
  have "require_api_key (=) ?ks (Some ''Bearer s1'') = Forward ?auth" by code_simp
  with single have "\<exists>sv'. serve_authed (=) length 0 (Some ''Bearer s1'')
      (\<lambda>auth. ingest_single sample_env sample_call (ps_state sv) auth None (ingest_query_of None) priced_request) sv =
      (Handled (Ret (AwaitWrite (l, normalize_provider ''openai'', normalize_model ''GPT'', 5), ps_state sv)), sv')"
    by (simp add: serve_authed_def guard_request_def fields(2) limiter)
  then obtain sv' where "serve_authed (=) length 0 (Some ''Bearer s1'')
      (\<lambda>auth. ingest_single sample_env sample_call (ps_state sv) auth None (ingest_query_of None) priced_request) sv =
      (Handled (Ret (AwaitWrite (l, normalize_provider ''openai'', normalize_model ''GPT'', 5), ps_state sv)), sv')" by blast
  from authenticated_ingest_attribution [OF _ _ this] have "row_tier (to_log_event sample_ext l) = ''free'' \<and>
      le_dims (to_log_event sample_ext l) ! DIM_API_KEY_ID = ''k1''"
    by (auto simp: equality_test_def fields(2) sample_env_def)
  then show ?thesis by blast
qed

end
